(* ===== verification/Prelude.thy ===== *)
theory Prelude
  imports Main "HOL-Library.Word" "HOL-Library.List_Lexorder" "HOL-Library.Char_ord"
begin

text \<open>
  Shared vocabulary of the development: the theorem collections, the result type
  of fallible operations, Go's 64-bit integer conversions, the list lemmas about
  SQL-style tables, and the two generic interfaces (a table inside a state
  record, and an invariant of a system of operations) that the component theories
  interpret.
\<close>

named_theorems table_simps "rewrite rules about rows selected, updated and inserted"
named_theorems inv_intros "introduction rules for the component invariants"

section \<open>Go integers and durations\<close>

text \<open>
  \<open>int64 x\<close> is the value a Go \<open>int64\<close> holds after a computation whose exact result
  is \<open>x\<close>: two's complement wrap-around at 64 bits. \<open>uint64\<close> is the unsigned one.
\<close>

definition int64 :: "int \<Rightarrow> int" where
  "int64 x = sint (word_of_int x :: 64 word)"

definition uint64 :: "int \<Rightarrow> int" where
  "uint64 x = uint (word_of_int x :: 64 word)"

definition in_int64 :: "int \<Rightarrow> bool" where
  "in_int64 x \<longleftrightarrow> - (2 ^ 63) \<le> x \<and> x < 2 ^ 63"

lemma int64_id: "in_int64 x \<Longrightarrow> int64 x = x"
  by (simp add: int64_def in_int64_def signed_of_int signed_take_bit_int_eq_self)

lemma int64_range: "in_int64 (int64 x)"
proof -
  have "- (2 ^ (64 - 1)) \<le> sint (word_of_int x :: 64 word)"
    using sint_greater_eq [of "word_of_int x :: 64 word"] by simp
  moreover have "sint (word_of_int x :: 64 word) < 2 ^ (64 - 1)"
    using sint_less [of "word_of_int x :: 64 word"] by simp
  ultimately show ?thesis
    by (simp add: int64_def in_int64_def)
qed

lemma int64_idem [simp]: "int64 (int64 x) = int64 x"
  by (rule int64_id) (rule int64_range)

text \<open>A \<open>time.Duration\<close> is a count of nanoseconds.\<close>

definition second :: int where "second = 1000000000"
definition minute :: int where "minute = 60 * second"
definition hour :: int where "hour = 60 * minute"

lemmas duration_defs = hour_def minute_def second_def

section \<open>Rows of a table\<close>

text \<open>
  \<open>upd_where P f t\<close> is an SQL \<open>UPDATE\<close>, \<open>count_where P t\<close> the number of rows it
  affects, and \<open>List.find P t\<close> what \<open>QueryRow\<close> scans.
\<close>

definition upd_where :: "('r \<Rightarrow> bool) \<Rightarrow> ('r \<Rightarrow> 'r) \<Rightarrow> 'r list \<Rightarrow> 'r list" where
  "upd_where P f t = map (\<lambda>r. if P r then f r else r) t"

definition count_where :: "('r \<Rightarrow> bool) \<Rightarrow> 'r list \<Rightarrow> nat" where
  "count_where P t = length (filter P t)"

lemma upd_where_Nil [simp]: "upd_where P f [] = []"
  by (simp add: upd_where_def)

lemma upd_where_Cons [simp]:
  "upd_where P f (r # t) = (if P r then f r else r) # upd_where P f t"
  by (simp add: upd_where_def)

lemma upd_where_append [simp]:
  "upd_where P f (t @ u) = upd_where P f t @ upd_where P f u"
  by (simp add: upd_where_def)

lemma length_upd_where [simp]: "length (upd_where P f t) = length t"
  by (simp add: upd_where_def)

lemma set_upd_where [table_simps]:
  "set (upd_where P f t) = {f r | r. r \<in> set t \<and> P r} \<union> {r \<in> set t. \<not> P r}"
  by (auto simp: upd_where_def)

lemma map_upd_where:
  assumes "\<And>r. r \<in> set t \<Longrightarrow> P r \<Longrightarrow> g (f r) = g r"
  shows "map g (upd_where P f t) = map g t"
  using assms by (induction t) auto

lemma upd_where_none: "(\<And>r. r \<in> set t \<Longrightarrow> \<not> P r) \<Longrightarrow> upd_where P f t = t"
  by (induction t) auto

lemma in_upd_where:
  "r \<in> set (upd_where P f t) \<Longrightarrow> (\<exists>q \<in> set t. P q \<and> r = f q) \<or> (r \<in> set t \<and> \<not> P r)"
  by (auto simp: table_simps)

lemma ball_upd_where [table_simps]:
  "(\<forall>r \<in> set (upd_where P f t). Q r) \<longleftrightarrow> (\<forall>r \<in> set t. Q (if P r then f r else r))"
  by (induction t) auto

lemma bex_upd_where [table_simps]:
  "(\<exists>r \<in> set (upd_where P f t). Q r) \<longleftrightarrow> (\<exists>r \<in> set t. Q (if P r then f r else r))"
  by (induction t) auto

lemma count_where_Nil [simp]: "count_where P [] = 0"
  by (simp add: count_where_def)

lemma count_where_Cons [simp]:
  "count_where P (r # t) = (if P r then Suc (count_where P t) else count_where P t)"
  by (simp add: count_where_def)

lemma count_where_append [simp]:
  "count_where P (t @ u) = count_where P t + count_where P u"
  by (simp add: count_where_def)

lemma count_where_0 [table_simps]: "count_where P t = 0 \<longleftrightarrow> (\<forall>r \<in> set t. \<not> P r)"
  by (induction t) auto

lemma count_where_pos [table_simps]: "0 < count_where P t \<longleftrightarrow> (\<exists>r \<in> set t. P r)"
  by (induction t) auto

lemma count_where_mono:
  "(\<And>r. r \<in> set t \<Longrightarrow> P r \<Longrightarrow> Q r) \<Longrightarrow> count_where P t \<le> count_where Q t"
  by (induction t) (auto simp: le_SucI)

lemma count_where_cong:
  "(\<And>r. r \<in> set t \<Longrightarrow> P r = Q r) \<Longrightarrow> count_where P t = count_where Q t"
  by (induction t) auto

lemma count_where_upd_le:
  assumes "\<And>r. r \<in> set t \<Longrightarrow> Q (if P r then f r else r) \<Longrightarrow> Q r"
  shows "count_where Q (upd_where P f t) \<le> count_where Q t"
  using assms by (induction t) (auto simp: le_SucI)

lemma count_where_upd_same:
  "(\<And>r. Q (f r) = Q r) \<Longrightarrow> count_where Q (upd_where P f t) = count_where Q t"
  by (induction t) auto

lemma find_SomeD: "List.find P t = Some r \<Longrightarrow> r \<in> set t \<and> P r"
  by (induction t) (auto split: if_splits)

lemma find_None_iff_ball [table_simps]: "List.find P t = None \<longleftrightarrow> (\<forall>r \<in> set t. \<not> P r)"
  by (induction t) auto

lemma find_isSome: "r \<in> set t \<Longrightarrow> P r \<Longrightarrow> \<exists>q. List.find P t = Some q"
  by (induction t) auto

lemma find_upd_where:
  assumes "\<And>r. r \<in> set t \<Longrightarrow> P (if Q r then f r else r) = P r"
  shows "List.find P (upd_where Q f t) = map_option (\<lambda>r. if Q r then f r else r) (List.find P t)"
  using assms by (induction t) auto

lemma find_append [table_simps]:
  "List.find P (t @ u) = (case List.find P t of None \<Rightarrow> List.find P u | Some r \<Rightarrow> Some r)"
  by (induction t) auto

text \<open>A column with no duplicate value picks rows out: the two rows are the same.\<close>

lemma distinct_map_eq:
  "distinct (map k t) \<Longrightarrow> r \<in> set t \<Longrightarrow> q \<in> set t \<Longrightarrow> k r = k q \<Longrightarrow> r = q"
  by (simp add: distinct_map inj_on_def)

lemma distinct_find:
  assumes "distinct (map k t)" and "r \<in> set t"
  shows "List.find (\<lambda>q. k q = k r) t = Some r"
proof -
  obtain q where q: "List.find (\<lambda>q. k q = k r) t = Some q"
    using find_isSome [of r t "\<lambda>q. k q = k r"] assms(2) by auto
  then have "q \<in> set t" "k q = k r"
    by (auto dest: find_SomeD)
  then show ?thesis
    using q distinct_map_eq [OF assms(1)] assms(2) by metis
qed

lemma count_where_unique:
  assumes "distinct (map k t)"
  shows "count_where (\<lambda>r. k r = x \<and> P r) t \<le> 1"
  using assms
proof (induction t)
  case (Cons a t)
  show ?case
  proof (cases "k a = x \<and> P a")
    case True
    with Cons.prems have "\<forall>r \<in> set t. \<not> (k r = x \<and> P r)"
      by (auto simp: image_iff)
    then have "count_where (\<lambda>r. k r = x \<and> P r) t = 0"
      by (simp only: count_where_0)
    then show ?thesis by simp
  next
    case False
    with Cons show ?thesis by auto
  qed
qed simp

section \<open>Interfaces\<close>

text \<open>
  A table inside a state: how to read its rows and how to replace them. The laws
  are those of a field of a record. A unique column stays unique under an insert of
  a fresh value and under an update that leaves the column alone, and a lookup by it
  finds the row just inserted.
\<close>

locale table_in_state =
  fixes rows :: "'st \<Rightarrow> 'r list"
    and put :: "('r list \<Rightarrow> 'r list) \<Rightarrow> 'st \<Rightarrow> 'st"
  assumes rows_put: "rows (put f s) = f (rows s)"
    and put_put: "put f (put g s) = put (\<lambda>t. f (g t)) s"
begin

definition unique :: "('r \<Rightarrow> 'k) \<Rightarrow> 'st \<Rightarrow> bool" where
  "unique k s \<longleftrightarrow> distinct (map k (rows s))"

definition row_by :: "('r \<Rightarrow> 'k) \<Rightarrow> 'k \<Rightarrow> 'st \<Rightarrow> 'r option" where
  "row_by k x s = List.find (\<lambda>r. k r = x) (rows s)"

lemma unique_insert:
  "unique k (put (\<lambda>t. t @ [r]) s) \<longleftrightarrow> unique k s \<and> row_by k (k r) s = None"
  unfolding unique_def row_by_def rows_put find_None_iff_ball by (auto simp: rev_image_eqI)

lemma unique_update:
  assumes "\<And>r. r \<in> set (rows s) \<Longrightarrow> P r \<Longrightarrow> k (f r) = k r"
  shows "unique k (put (upd_where P f) s) \<longleftrightarrow> unique k s"
  using assms by (simp add: unique_def rows_put map_upd_where)

lemma row_by_insert:
  "row_by k (k r) s = None \<Longrightarrow> row_by k (k r) (put (\<lambda>t. t @ [r]) s) = Some r"
  by (simp add: row_by_def rows_put find_append)

lemma row_by_insert_other:
  "k r \<noteq> x \<Longrightarrow> row_by k x (put (\<lambda>t. t @ [r]) s) = row_by k x s"
  by (simp add: row_by_def rows_put find_append split: option.splits)

lemma row_by_unique:
  "unique k s \<Longrightarrow> r \<in> set (rows s) \<Longrightarrow> row_by k (k r) s = Some r"
  by (simp add: unique_def row_by_def distinct_find)

lemma row_by_update:
  assumes "\<And>r. r \<in> set (rows s) \<Longrightarrow> P r \<Longrightarrow> k (f r) = k r"
  shows "row_by k x (put (upd_where P f) s)
    = map_option (\<lambda>r. if P r then f r else r) (row_by k x s)"
  unfolding row_by_def rows_put by (rule find_upd_where) (simp add: assms)

end

text \<open>
  A system of operations and an invariant that each operation keeps: every run from
  a good state ends in a good state, and every intermediate state is good.
\<close>

locale invariant_system =
  fixes step :: "'op \<Rightarrow> 'st \<Rightarrow> 'st"
    and inv :: "'st \<Rightarrow> bool"
  assumes step_inv: "inv s \<Longrightarrow> inv (step op s)"
begin

lemma run_inv: "inv s \<Longrightarrow> inv (fold step ops s)"
  by (induction ops arbitrary: s) (auto intro: step_inv)

lemma run_prefix_inv: "inv s \<Longrightarrow> inv (fold step (take n ops) s)"
  by (rule run_inv)

end

text \<open>
  Rows over time. \<open>rows_evolve le N t u\<close>: the table \<open>u\<close> is the table \<open>t\<close> with each row replaced
  by a later version of it, followed by new rows that satisfy \<open>N\<close>. The interface \<open>row_history\<close>
  lifts it from one operation to runs.
\<close>

definition rows_evolve :: "('r \<Rightarrow> 'r \<Rightarrow> bool) \<Rightarrow> ('r \<Rightarrow> bool) \<Rightarrow> 'r list \<Rightarrow> 'r list \<Rightarrow> bool" where
  "rows_evolve le N t u \<longleftrightarrow> (\<exists>ks new. u = ks @ new \<and> list_all2 le t ks \<and> (\<forall>r \<in> set new. N r))"

lemma rows_evolve_row:
  assumes "rows_evolve le N t u" and "r \<in> set t"
  shows "\<exists>q \<in> set u. le r q"
proof -
  obtain ks new where k: "u = ks @ new" "list_all2 le t ks"
    using assms(1) by (auto simp: rows_evolve_def)
  from k(2) assms(2) have "\<exists>q \<in> set ks. le r q"
    by (induction rule: list_all2_induct) auto
  with k(1) show ?thesis by auto
qed

lemma rows_evolve_back:
  assumes "rows_evolve le N t u" and "q \<in> set u" and "\<not> N q"
  shows "\<exists>r \<in> set t. le r q"
proof -
  obtain ks new where k: "u = ks @ new" "list_all2 le t ks" "\<forall>r \<in> set new. N r"
    using assms(1) by (auto simp: rows_evolve_def)
  with assms have "q \<in> set ks" by auto
  with k(2) show ?thesis by (induction rule: list_all2_induct) auto
qed

lemma rows_evolve_update:
  assumes "\<And>r. le r r" and "\<And>r. P r \<Longrightarrow> le r (f r)"
  shows "rows_evolve le N t (upd_where P f t)"
  unfolding rows_evolve_def
  by (rule exI [of _ "upd_where P f t"]) (simp add: upd_where_def list_all2_conv_all_nth assms)

lemma rows_evolve_same: "(\<And>r. le r r) \<Longrightarrow> rows_evolve le N t t"
  unfolding rows_evolve_def by (rule exI [of _ t]) (simp add: list_all2_refl)

lemma rows_evolve_append: "(\<And>r. le r r) \<Longrightarrow> N r \<Longrightarrow> rows_evolve le N t (t @ [r])"
  unfolding rows_evolve_def by (rule exI [of _ t]) (simp add: list_all2_refl)

locale row_history =
  fixes step :: "'op \<Rightarrow> 'st \<Rightarrow> 'st"
    and rows :: "'st \<Rightarrow> 'r list"
    and later :: "'r \<Rightarrow> 'r \<Rightarrow> bool"
  assumes later_refl: "later r r"
    and later_trans: "later r q \<Longrightarrow> later q p \<Longrightarrow> later r p"
    and step_rows: "rows_evolve later (\<lambda>_. True) (rows s) (rows (step op s))"
begin

lemma run_later: "r \<in> set (rows s) \<Longrightarrow> \<exists>q \<in> set (rows (fold step ops s)). later r q"
proof (induction ops arbitrary: s r)
  case Nil
  then show ?case by (auto intro: bexI [of _ r] later_refl)
next
  case (Cons x ops)
  from rows_evolve_row [OF step_rows Cons.prems] obtain q
    where "q \<in> set (rows (step x s))" "later r q" by blast
  with Cons.IH [of q "step x s"] show ?case by (auto intro: later_trans)
qed

end

text \<open>
  Functional refinement. Operations of a detailed system and of its specification that give the same output and
  keep the states related, as long as the operations are \<open>good\<close> for the specification, give the same
  outputs along every run.
\<close>

fun outputs :: "('op \<Rightarrow> 's \<Rightarrow> 'out \<times> 's) \<Rightarrow> 'op list \<Rightarrow> 's \<Rightarrow> 'out list" where
  "outputs step [] s = []"
| "outputs step (op # ops) s = fst (step op s) # outputs step ops (snd (step op s))"

fun all_good :: "('op \<Rightarrow> 's \<Rightarrow> bool) \<Rightarrow> ('op \<Rightarrow> 's \<Rightarrow> 'out \<times> 's) \<Rightarrow> 'op list \<Rightarrow> 's \<Rightarrow> bool" where
  "all_good good step [] s \<longleftrightarrow> True"
| "all_good good step (op # ops) s \<longleftrightarrow> good op s \<and> all_good good step ops (snd (step op s))"

locale simulation =
  fixes cstep :: "'op \<Rightarrow> 'c \<Rightarrow> 'out \<times> 'c"
    and astep :: "'op \<Rightarrow> 'a \<Rightarrow> 'out \<times> 'a"
    and rel :: "'c \<Rightarrow> 'a \<Rightarrow> bool"
    and good :: "'op \<Rightarrow> 'a \<Rightarrow> bool"
  assumes sim: "rel c a \<Longrightarrow> good op a \<Longrightarrow> fst (cstep op c) = fst (astep op a) \<and> rel (snd (cstep op c)) (snd (astep op a))"

context simulation
begin

lemma same_outputs: "rel c a \<Longrightarrow> all_good good astep ops a \<Longrightarrow> outputs cstep ops c = outputs astep ops a"
  by (induction ops arbitrary: c a) (simp_all add: sim)

end

end
