(* ===== verification/GoStrings.thy ===== *)
theory GoStrings
  imports Prelude
begin

text \<open>
  What the source uses of Go's \<open>strings\<close>, \<open>strconv\<close> and \<open>encoding/hex\<close> packages. A Go
  string is a sequence of bytes, a \<open>string\<close> here (a \<open>char\<close> is a byte). The package's
  UTF-8 white space is written out as byte sequences; the only part left outside is
  the Unicode case table behind \<open>strings.ToUpper\<close> on text that is not ASCII.
\<close>

definition ascii :: "string \<Rightarrow> bool" where
  "ascii s \<longleftrightarrow> (\<forall>c \<in> set s. of_char c < (128::nat))"

section \<open>Prefixes, suffixes and trimming\<close>

fun strip_prefix :: "string \<Rightarrow> string \<Rightarrow> string option" where
  "strip_prefix [] s = Some s"
| "strip_prefix (p # ps) [] = None"
| "strip_prefix (p # ps) (c # cs) = (if p = c then strip_prefix ps cs else None)"

lemma strip_prefix_Some [simp]: "strip_prefix p s = Some r \<longleftrightarrow> s = p @ r"
  by (induction p s rule: strip_prefix.induct) auto

definition HasPrefix :: "string \<Rightarrow> string \<Rightarrow> bool" where
  "HasPrefix s p \<longleftrightarrow> strip_prefix p s \<noteq> None"

definition CutPrefix :: "string \<Rightarrow> string \<Rightarrow> string \<times> bool" where
  "CutPrefix s p = (case strip_prefix p s of None \<Rightarrow> (s, False) | Some r \<Rightarrow> (r, True))"

definition TrimPrefix :: "string \<Rightarrow> string \<Rightarrow> string" where
  "TrimPrefix s p = (case strip_prefix p s of None \<Rightarrow> s | Some r \<Rightarrow> r)"

lemma HasPrefix_iff: "HasPrefix s p \<longleftrightarrow> (\<exists>r. s = p @ r)"
proof -
  have "HasPrefix s p \<longleftrightarrow> (\<exists>r. strip_prefix p s = Some r)"
    by (auto simp: HasPrefix_def simp del: strip_prefix_Some)
  then show ?thesis by simp
qed

lemma TrimPrefix_append [simp]: "TrimPrefix (p @ s) p = s"
proof -
  have "strip_prefix p (p @ s) = Some s" by simp
  then show ?thesis by (simp add: TrimPrefix_def del: strip_prefix_Some)
qed

text \<open>The UTF-8 encodings of the code points \<open>unicode.IsSpace\<close> accepts.\<close>

definition space_seqs :: "string list" where
  "space_seqs =
    [[CHR 0x09], [CHR 0x0A], [CHR 0x0B], [CHR 0x0C], [CHR 0x0D], [CHR 0x20],
     [CHR 0xC2, CHR 0x85], [CHR 0xC2, CHR 0xA0], [CHR 0xE1, CHR 0x9A, CHR 0x80],
     [CHR 0xE2, CHR 0x80, CHR 0x80], [CHR 0xE2, CHR 0x80, CHR 0x81],
     [CHR 0xE2, CHR 0x80, CHR 0x82], [CHR 0xE2, CHR 0x80, CHR 0x83],
     [CHR 0xE2, CHR 0x80, CHR 0x84], [CHR 0xE2, CHR 0x80, CHR 0x85],
     [CHR 0xE2, CHR 0x80, CHR 0x86], [CHR 0xE2, CHR 0x80, CHR 0x87],
     [CHR 0xE2, CHR 0x80, CHR 0x88], [CHR 0xE2, CHR 0x80, CHR 0x89],
     [CHR 0xE2, CHR 0x80, CHR 0x8A], [CHR 0xE2, CHR 0x80, CHR 0xA8],
     [CHR 0xE2, CHR 0x80, CHR 0xA9], [CHR 0xE2, CHR 0x80, CHR 0xAF],
     [CHR 0xE2, CHR 0x81, CHR 0x9F], [CHR 0xE3, CHR 0x80, CHR 0x80]]"

fun first_strip :: "string list \<Rightarrow> string \<Rightarrow> string option" where
  "first_strip [] s = None"
| "first_strip (w # ws) s =
     (if w = [] then first_strip ws s
      else case strip_prefix w s of Some r \<Rightarrow> Some r | None \<Rightarrow> first_strip ws s)"

lemma first_strip_SomeD:
  "first_strip ws s = Some r \<Longrightarrow> \<exists>w \<in> set ws. w \<noteq> [] \<and> s = w @ r"
  by (induction ws s rule: first_strip.induct) (auto split: if_splits option.splits)

lemma first_strip_None_iff:
  "first_strip ws s = None \<longleftrightarrow> (\<forall>w \<in> set ws. w \<noteq> [] \<longrightarrow> \<not> HasPrefix s w)"
proof (induction ws s rule: first_strip.induct)
  case (2 w ws s)
  show ?case
  proof (cases "strip_prefix w s")
    case None
    with 2 show ?thesis by (simp add: HasPrefix_def del: strip_prefix_Some)
  next
    case (Some r)
    with 2 show ?thesis
      by (cases "w = []") (simp_all add: HasPrefix_def del: strip_prefix_Some)
  qed
qed simp

function strip_front :: "string list \<Rightarrow> string \<Rightarrow> string" where
  "strip_front ws s = (case first_strip ws s of None \<Rightarrow> s | Some r \<Rightarrow> strip_front ws r)"
  by pat_completeness auto
termination
  by (relation "measure (\<lambda>(ws, s). length s)") (auto dest!: first_strip_SomeD)

declare strip_front.simps [simp del]

definition TrimSpace :: "string \<Rightarrow> string" where
  "TrimSpace s = rev (strip_front (map rev space_seqs) (rev (strip_front space_seqs s)))"

text \<open>\<open>strings.TrimRight(s, cutset)\<close> for a cutset of one ASCII byte.\<close>

definition TrimRight1 :: "string \<Rightarrow> char \<Rightarrow> string" where
  "TrimRight1 s c = rev (dropWhile (\<lambda>x. x = c) (rev s))"

lemma strip_front_suffix: "\<exists>u. s = u @ strip_front ws s"
proof (induction ws s rule: strip_front.induct)
  case (1 ws s)
  show ?case
  proof (cases "first_strip ws s")
    case None
    then show ?thesis by (subst strip_front.simps) simp
  next
    case (Some r)
    with 1 obtain u where "r = u @ strip_front ws r" by auto
    moreover from Some obtain w where "s = w @ r"
      by (auto dest!: first_strip_SomeD)
    ultimately have "s = (w @ u) @ strip_front ws r" by simp
    with Some show ?thesis by (subst strip_front.simps) auto
  qed
qed

lemma strip_front_done: "first_strip ws (strip_front ws s) = None"
proof (induction ws s rule: strip_front.induct)
  case (1 ws s)
  then show ?case
    by (cases "first_strip ws s") (simp_all add: strip_front.simps [of ws s])
qed

lemma strip_front_id: "first_strip ws s = None \<Longrightarrow> strip_front ws s = s"
  by (simp add: strip_front.simps)

lemma first_strip_None_shorter:
  assumes "first_strip ws (s @ u) = None"
  shows "first_strip ws s = None"
  using assms by (auto simp: first_strip_None_iff HasPrefix_iff)

lemma TrimSpace_idem: "TrimSpace (TrimSpace s) = TrimSpace s"
proof -
  let ?l = "strip_front space_seqs s"
  let ?r = "strip_front (map rev space_seqs) (rev ?l)"
  obtain u where "rev ?l = u @ ?r"
    using strip_front_suffix [of "rev ?l" "map rev space_seqs"] by auto
  then have "?l = rev ?r @ rev u"
    by (metis rev_append rev_rev_ident)
  then have "first_strip space_seqs (rev ?r) = None"
    using first_strip_None_shorter [of space_seqs "rev ?r" "rev u"]
      strip_front_done [of space_seqs s] by simp
  then have "strip_front space_seqs (rev ?r) = rev ?r"
    by (rule strip_front_id)
  moreover have "strip_front (map rev space_seqs) ?r = ?r"
    by (rule strip_front_id) (rule strip_front_done)
  ultimately show ?thesis
    by (simp add: TrimSpace_def)
qed

lemma first_strip_head:
  assumes "\<And>w. w \<in> set ws \<Longrightarrow> w \<noteq> [] \<Longrightarrow> hd w \<noteq> c"
  shows "first_strip ws (c # cs) = None"
  using assms by (fastforce simp: first_strip_None_iff HasPrefix_iff neq_Nil_conv)

text \<open>A character no space sequence begins or ends with is never trimmed.\<close>

definition solid :: "char \<Rightarrow> bool" where
  "solid c \<longleftrightarrow> (\<forall>w \<in> set space_seqs. hd w \<noteq> c \<and> last w \<noteq> c)"

lemma TrimSpace_solid:
  assumes "s = [] \<or> (solid (hd s) \<and> solid (last s))"
  shows "TrimSpace s = s"
proof (cases "s = []")
  case True
  have "strip_front ws [] = []" for ws
    using strip_front_suffix [of "[]" ws] by simp
  with True show ?thesis by (simp add: TrimSpace_def)
next
  case False
  with assms have h: "solid (hd s)" and l: "solid (last s)" by auto
  from False obtain c cs where s: "s = c # cs" by (cases s) auto
  from False obtain d ds where r: "rev s = d # ds" by (cases "rev s") auto
  then have d: "d = last s" by (metis hd_rev list.sel(1))
  have "first_strip space_seqs s = None"
    unfolding s using h s by (intro first_strip_head) (auto simp: solid_def)
  moreover have "first_strip (map rev space_seqs) (rev s) = None"
    unfolding r using l d by (intro first_strip_head) (auto simp: solid_def hd_rev)
  ultimately show ?thesis
    by (simp add: TrimSpace_def strip_front_id)
qed

section \<open>Case\<close>

definition upper_byte :: "char \<Rightarrow> char" where
  "upper_byte c = (let n = of_char c :: nat in if 97 \<le> n \<and> n \<le> 122 then char_of (n - 32) else c)"

text \<open>
  \<open>strings.ToUpper\<close> maps bytes when the text is ASCII; otherwise it maps code points
  through the Unicode tables, the argument \<open>up\<close>.
\<close>

definition ToUpper :: "(string \<Rightarrow> string) \<Rightarrow> string \<Rightarrow> string" where
  "ToUpper up s = (if ascii s then map upper_byte s else up s)"

definition lower_byte :: "char \<Rightarrow> char" where
  "lower_byte c = (let n = of_char c :: nat in if 65 \<le> n \<and> n \<le> 90 then char_of (n + 32) else c)"

text \<open>\<open>strings.EqualFold\<close> for ASCII text on both sides.\<close>

definition EqualFold_ascii :: "string \<Rightarrow> string \<Rightarrow> bool" where
  "EqualFold_ascii s t \<longleftrightarrow> map lower_byte s = map lower_byte t"

lemma upper_byte_idem: "upper_byte (upper_byte c) = upper_byte c"
proof -
  have "of_char c < (256::nat)" by simp
  then show ?thesis by (auto simp: upper_byte_def Let_def)
qed

lemma ascii_upper_byte: "of_char c < (128::nat) \<Longrightarrow> of_char (upper_byte c) < (128::nat)"
  by (auto simp: upper_byte_def Let_def)

lemma ascii_map_upper: "ascii s \<Longrightarrow> ascii (map upper_byte s)"
  by (auto simp: ascii_def ascii_upper_byte)

lemma ToUpper_idem: "ascii s \<Longrightarrow> ToUpper up (ToUpper up s) = ToUpper up s"
  by (simp add: ToUpper_def ascii_map_upper upper_byte_idem)

section \<open>Replacing, splitting and joining\<close>

text \<open>\<open>strings.ReplaceAll(s, c, "")\<close> for a one-byte \<open>c\<close>.\<close>

definition remove_byte :: "char \<Rightarrow> string \<Rightarrow> string" where
  "remove_byte c s = filter (\<lambda>x. x \<noteq> c) s"

fun Split1 :: "char \<Rightarrow> string \<Rightarrow> string list" where
  "Split1 c [] = [[]]"
| "Split1 c (x # xs) =
     (if x = c then [] # Split1 c xs
      else case Split1 c xs of [] \<Rightarrow> [[x]] | w # ws \<Rightarrow> (x # w) # ws)"

fun Join :: "string list \<Rightarrow> string \<Rightarrow> string" where
  "Join [] sep = []"
| "Join [w] sep = w"
| "Join (w # ws) sep = w @ sep @ Join ws sep"

definition Cut1 :: "string \<Rightarrow> char \<Rightarrow> string \<times> string \<times> bool" where
  "Cut1 s c = (if c \<in> set s
     then (takeWhile (\<lambda>x. x \<noteq> c) s, tl (dropWhile (\<lambda>x. x \<noteq> c) s), True)
     else (s, [], False))"

fun Contains :: "string \<Rightarrow> string \<Rightarrow> bool" where
  "Contains [] w = (w = [])"
| "Contains (c # cs) w = (HasPrefix (c # cs) w \<or> Contains cs w)"

lemma Contains_iff: "Contains s w \<longleftrightarrow> (\<exists>u v. s = u @ w @ v)"
proof (induction s)
  case (Cons c cs)
  have "(\<exists>u v. c # cs = u @ w @ v) \<longleftrightarrow> (\<exists>v. c # cs = w @ v) \<or> (\<exists>u v. cs = u @ w @ v)"
    by (metis append_Cons append_Nil list.sel(3) neq_Nil_conv)
  with Cons show ?case by (simp add: HasPrefix_iff)
qed auto

lemma Split1_nonempty [simp]: "Split1 c s \<noteq> []"
  by (induction s) (auto split: list.splits)

lemma Join_Cons: "ws \<noteq> [] \<Longrightarrow> Join (w # ws) sep = w @ sep @ Join ws sep"
  by (cases ws) auto

lemma Join_Split1: "Join (Split1 c s) [c] = s"
proof (induction s)
  case (Cons x xs)
  obtain w ws where sp: "Split1 c xs = w # ws"
    by (meson Split1_nonempty neq_Nil_conv)
  have "Join ((x # w) # ws) [c] = x # Join (w # ws) [c]"
    by (cases ws) auto
  with Cons sp show ?case by (auto simp: Join_Cons)
qed simp

lemma Split1_no_sep: "w \<in> set (Split1 c s) \<Longrightarrow> c \<notin> set w"
  by (induction s arbitrary: w) (auto split: if_splits list.splits)

lemma Split1_id: "c \<notin> set s \<Longrightarrow> Split1 c s = [s]"
  by (induction s) auto

lemma Split1_append:
  "c \<notin> set w \<Longrightarrow> Split1 c (w @ c # s) = w # Split1 c s"
  by (induction w) auto

lemma Split1_Join:
  "ws \<noteq> [] \<Longrightarrow> \<forall>w \<in> set ws. c \<notin> set w \<Longrightarrow> Split1 c (Join ws [c]) = ws"
  by (induction ws rule: induct_list012) (auto simp: Split1_id Split1_append)

section \<open>Decimal and hexadecimal\<close>

definition digit :: "nat \<Rightarrow> char" where
  "digit d = char_of (48 + d)"

fun nat_digits :: "nat \<Rightarrow> string" where
  "nat_digits n = (if n < 10 then [digit n] else nat_digits (n div 10) @ [digit (n mod 10)])"

declare nat_digits.simps [simp del]

text \<open>\<open>strconv.Itoa\<close>, and \<open>%d\<close> of \<open>fmt\<close>.\<close>

definition Itoa :: "int \<Rightarrow> string" where
  "Itoa n = (if n < 0 then CHR ''-'' # nat_digits (nat (- n)) else nat_digits (nat n))"

fun digits_value :: "nat \<Rightarrow> string \<Rightarrow> nat option" where
  "digits_value acc [] = Some acc"
| "digits_value acc (c # cs) =
     (let d = of_char c in
      if 48 \<le> d \<and> d \<le> (57::nat) then digits_value (10 * acc + (d - 48)) cs else None)"

text \<open>
  \<open>strconv.ParseInt(s, 10, 64)\<close> and \<open>strconv.Atoi\<close>: an optional sign, at least one digit,
  nothing else, and the value in the range of \<open>int64\<close>; \<open>None\<close> is the error.
\<close>

definition ParseInt :: "string \<Rightarrow> int option" where
  "ParseInt s =
    (let (neg, ds) = (case s of [] \<Rightarrow> (False, [])
                      | c # cs \<Rightarrow> if c = CHR ''-'' then (True, cs)
                                  else if c = CHR ''+'' then (False, cs) else (False, s))
     in if ds = [] then None
        else case digits_value 0 ds of None \<Rightarrow> None
        | Some n \<Rightarrow> (let v = (if neg then - int n else int n)
                     in if in_int64 v then Some v else None))"

lemma of_char_digit: "d < 10 \<Longrightarrow> of_char (digit d) = 48 + d"
  by (simp add: digit_def)

lemma digits_value_append:
  "digits_value acc (xs @ ys)
    = (case digits_value acc xs of None \<Rightarrow> None | Some n \<Rightarrow> digits_value n ys)"
  by (induction xs arbitrary: acc) (auto simp: Let_def)

lemma nat_digits_nonempty [simp]: "nat_digits n \<noteq> []"
  by (subst nat_digits.simps) simp

lemma nat_digits_set: "c \<in> set (nat_digits n) \<Longrightarrow> \<exists>d < 10. c = digit d"
proof (induction n rule: nat_digits.induct)
  case (1 n)
  show ?case
  proof (cases "n < 10")
    case True
    with 1 show ?thesis by (auto simp: nat_digits.simps [of n])
  next
    case False
    with 1 have "c = digit (n mod 10) \<or> c \<in> set (nat_digits (n div 10))"
      by (simp add: nat_digits.simps [of n])
    moreover have "n mod 10 < 10" by simp
    ultimately show ?thesis using 1 False by blast
  qed
qed

lemma digits_value_nat_digits: "digits_value 0 (nat_digits n) = Some n"
proof (induction n rule: nat_digits.induct)
  case (1 n)
  show ?case
  proof (cases "n < 10")
    case True
    then show ?thesis
      by (simp add: nat_digits.simps [of n] of_char_digit Let_def)
  next
    case False
    with 1 have "digits_value 0 (nat_digits (n div 10)) = Some (n div 10)" by simp
    with False show ?thesis
      by (simp add: nat_digits.simps [of n] digits_value_append of_char_digit Let_def)
  qed
qed

lemma digit_neq_sign: "d < 10 \<Longrightarrow> digit d \<noteq> CHR ''-'' \<and> digit d \<noteq> CHR ''+''"
proof -
  assume "d < 10"
  then have "of_char (digit d) = 48 + d" by (rule of_char_digit)
  then show ?thesis by auto
qed

lemma ParseInt_Itoa: "in_int64 n \<Longrightarrow> ParseInt (Itoa n) = Some n"
proof (cases "n < 0")
  case True
  then show "in_int64 n \<Longrightarrow> ?thesis"
    by (simp add: ParseInt_def Itoa_def digits_value_nat_digits)
next
  case False
  obtain c cs where c: "nat_digits (nat n) = c # cs"
    by (meson nat_digits_nonempty neq_Nil_conv)
  then have "c \<noteq> CHR ''-'' \<and> c \<noteq> CHR ''+''"
    using nat_digits_set [of c "nat n"] digit_neq_sign by auto
  with False c digits_value_nat_digits [of "nat n"]
  show "in_int64 n \<Longrightarrow> ?thesis"
    by (simp add: ParseInt_def Itoa_def)
qed

lemma nat_digits_inj: "nat_digits i = nat_digits j \<Longrightarrow> i = j"
  by (metis digits_value_nat_digits option.inject)

lemma nat_digits_no_sign: "nat_digits k \<noteq> CHR ''-'' # cs"
proof
  assume "nat_digits k = CHR ''-'' # cs"
  then have "CHR ''-'' \<in> set (nat_digits k)" by simp
  then obtain d where "d < 10" "CHR ''-'' = digit d"
    using nat_digits_set by blast
  then show False using digit_neq_sign [of d] by simp
qed

lemma Itoa_inj:
  assumes "Itoa m = Itoa n"
  shows "m = n"
proof (cases "m < 0"; cases "n < 0")
  assume "m < 0" "n < 0"
  with assms have "nat (- m) = nat (- n)"
    by (intro nat_digits_inj) (simp add: Itoa_def)
  with \<open>m < 0\<close> \<open>n < 0\<close> show ?thesis by simp
next
  assume "\<not> m < 0" "\<not> n < 0"
  with assms have "nat m = nat n"
    by (intro nat_digits_inj) (simp add: Itoa_def)
  with \<open>\<not> m < 0\<close> \<open>\<not> n < 0\<close> show ?thesis by simp
next
  assume "m < 0" "\<not> n < 0"
  with assms show ?thesis by (simp add: Itoa_def nat_digits_no_sign [symmetric])
next
  assume "\<not> m < 0" "n < 0"
  with assms show ?thesis by (simp add: Itoa_def nat_digits_no_sign)
qed

definition hex_digit :: "nat \<Rightarrow> char" where
  "hex_digit d = ''0123456789abcdef'' ! d"

text \<open>\<open>hex.EncodeToString\<close>.\<close>

definition hex_encode :: "string \<Rightarrow> string" where
  "hex_encode bs = concat (map (\<lambda>b. [hex_digit (of_char b div 16), hex_digit (of_char b mod 16)]) bs)"

lemma length_hex_encode [simp]: "length (hex_encode bs) = 2 * length bs"
  by (induction bs) (auto simp: hex_encode_def)

lemma hex_digit_inj: "i < 16 \<Longrightarrow> j < 16 \<Longrightarrow> hex_digit i = hex_digit j \<Longrightarrow> i = j"
proof -
  have d: "distinct ''0123456789abcdef''" by simp
  assume "i < 16" "j < 16" "hex_digit i = hex_digit j"
  then show ?thesis
    using nth_eq_iff_index_eq [OF d, of i j] by (simp add: hex_digit_def)
qed

lemma hex_encode_Cons:
  "hex_encode (b # bs)
    = hex_digit (of_char b div 16) # hex_digit (of_char b mod 16) # hex_encode bs"
  by (simp add: hex_encode_def)

lemma hex_encode_inj: "hex_encode xs = hex_encode ys \<Longrightarrow> xs = ys"
proof (induction xs arbitrary: ys)
  case Nil
  then show ?case by (cases ys) (auto simp: hex_encode_def)
next
  case (Cons x xs)
  then obtain y ys' where ys: "ys = y # ys'"
    by (cases ys) (auto simp: hex_encode_def)
  have lt: "of_char c div 16 < (16::nat)" for c :: char
  proof -
    have "of_char c < (256::nat)" by simp
    then show "of_char c div 16 < (16::nat)" by (simp add: less_mult_imp_div_less)
  qed
  from Cons.prems ys have eq: "hex_digit (of_char x div 16) = hex_digit (of_char y div 16)"
    "hex_digit (of_char x mod 16) = hex_digit (of_char y mod 16)"
    "hex_encode xs = hex_encode ys'"
    by (auto simp: hex_encode_Cons)
  then have "of_char x div 16 = (of_char y div 16 :: nat)" "of_char x mod 16 = (of_char y mod 16 :: nat)"
    using hex_digit_inj lt by auto
  then have "of_char x = (of_char y :: nat)"
    by (metis div_mult_mod_eq)
  then have "x = y" by simp
  with Cons.IH eq ys show ?case by simp
qed

end
