(* ===== verification/Json.thy ===== *)
theory Json
  imports Complex_Main GoStrings
begin

text \<open>
  JSON values as Go decodes them into \<open>interface{}\<close>: a number is a float64, an object a map from
  names to values. An object is kept as its list of fields, read by name (the first field of a
  name counts); the order in which a map is written out is not part of the model.
\<close>

datatype json =
    JNull
  | JBool bool
  | JNum rat
  | JStr string
  | JArr "json list"
  | JObj "(string \<times> json) list"

definition jfield :: "string \<Rightarrow> json \<Rightarrow> json option" where
  "jfield k v = (case v of JObj fs \<Rightarrow> map_of fs k | _ \<Rightarrow> None)"

definition jput :: "string \<Rightarrow> json \<Rightarrow> json \<Rightarrow> json" where
  "jput k x v = (case v of JObj fs \<Rightarrow> JObj ((k, x) # filter (\<lambda>(j, _). j \<noteq> k) fs) | _ \<Rightarrow> v)"

definition jint :: "int \<Rightarrow> json" where
  "jint n = JNum (of_int n)"

text \<open>\<open>v.(string)\<close> and \<open>v.(map[string]interface{})\<close>, with the success flag as an option.\<close>

fun as_string :: "json \<Rightarrow> string option" where
  "as_string (JStr s) = Some s"
| "as_string _ = None"

fun as_object :: "json \<Rightarrow> (string \<times> json) list option" where
  "as_object (JObj fs) = Some fs"
| "as_object _ = None"

lemma jfield_jput_same [simp]: "jfield k (jput k x (JObj fs)) = Some x"
  by (simp add: jfield_def jput_def)

lemma map_of_filter_neq: "j \<noteq> k \<Longrightarrow> map_of (filter (\<lambda>(i, _). i \<noteq> k) fs) j = map_of fs j"
  by (induction fs) auto

lemma jfield_jput_other [simp]: "j \<noteq> k \<Longrightarrow> jfield j (jput k x v) = jfield j v"
  by (simp add: jfield_def jput_def map_of_filter_neq split: json.split)

lemma jput_object: "\<exists>fs'. jput k x (JObj fs) = JObj fs'"
  by (simp add: jput_def)

section \<open>Fields of Go structs\<close>

text \<open>
  Decoding into a field: missing or \<open>null\<close> leaves the zero value, another type is an error. Field names are
  matched exactly.
\<close>

definition string_field :: "string \<Rightarrow> json \<Rightarrow> string option" where
  "string_field k v = (case jfield k v of None \<Rightarrow> Some [] | Some JNull \<Rightarrow> Some [] | Some (JStr s) \<Rightarrow> Some s | Some _ \<Rightarrow> None)"

definition bool_field :: "string \<Rightarrow> json \<Rightarrow> bool option" where
  "bool_field k v = (case jfield k v of None \<Rightarrow> Some False | Some JNull \<Rightarrow> Some False | Some (JBool b) \<Rightarrow> Some b | Some _ \<Rightarrow> None)"

definition int_field :: "string \<Rightarrow> json \<Rightarrow> int option" where
  "int_field k v = (case jfield k v of None \<Rightarrow> Some 0 | Some JNull \<Rightarrow> Some 0
     | Some (JNum q) \<Rightarrow> if of_int \<lfloor>q\<rfloor> = q \<and> in_int64 \<lfloor>q\<rfloor> then Some \<lfloor>q\<rfloor> else None | Some _ \<Rightarrow> None)"

definition raw_field :: "(json \<Rightarrow> string) \<Rightarrow> string \<Rightarrow> json \<Rightarrow> string" where
  "raw_field marshal k v = (case jfield k v of None \<Rightarrow> [] | Some x \<Rightarrow> marshal x)"

text \<open>A nested struct: missing or \<open>null\<close> is the empty one.\<close>

definition struct_field :: "string \<Rightarrow> json \<Rightarrow> json option" where
  "struct_field k v = (case jfield k v of None \<Rightarrow> Some (JObj []) | Some JNull \<Rightarrow> Some (JObj [])
     | Some (JObj fs) \<Rightarrow> Some (JObj fs) | Some _ \<Rightarrow> None)"

definition array_field :: "string \<Rightarrow> json \<Rightarrow> json list option" where
  "array_field k v = (case jfield k v of None \<Rightarrow> Some [] | Some JNull \<Rightarrow> Some [] | Some (JArr vs) \<Rightarrow> Some vs | Some _ \<Rightarrow> None)"

text \<open>The top level of a decode: an object, or \<open>null\<close>, which leaves the struct as it is.\<close>

fun top_object :: "json \<Rightarrow> json option" where
  "top_object (JObj fs) = Some (JObj fs)"
| "top_object JNull = Some (JObj [])"
| "top_object _ = None"

end
