(* ===== verification/Proto.thy ===== *)
theory Proto
  imports GoStrings
begin

text \<open>
  \<open>internal/proto/proto.go\<close>: the messages exchanged between the coordinator and a
  provider agent, the error codes, the timeouts and the API key scopes. Raw JSON
  (\<open>json.RawMessage\<close>) is the byte string it holds; an absent field is the empty one.
\<close>

section \<open>Message types and error codes\<close>

definition TypeRegister :: string where "TypeRegister = ''register''"
definition TypeRegistered :: string where "TypeRegistered = ''registered''"
definition TypeHeartbeat :: string where "TypeHeartbeat = ''heartbeat''"
definition TypeHeartbeatAck :: string where "TypeHeartbeatAck = ''heartbeat_ack''"
definition TypeRequest :: string where "TypeRequest = ''request''"
definition TypeChunk :: string where "TypeChunk = ''chunk''"
definition TypeResponse :: string where "TypeResponse = ''response''"
definition TypeError :: string where "TypeError = ''error''"
definition TypeCancel :: string where "TypeCancel = ''cancel''"

lemmas type_defs = TypeRegister_def TypeRegistered_def TypeHeartbeat_def TypeHeartbeatAck_def
  TypeRequest_def TypeChunk_def TypeResponse_def TypeError_def TypeCancel_def

definition ErrBackendUnavailable :: string where "ErrBackendUnavailable = ''backend_unavailable''"
definition ErrModelNotFound :: string where "ErrModelNotFound = ''model_not_found''"
definition ErrTimeout :: string where "ErrTimeout = ''timeout''"
definition ErrOverloaded :: string where "ErrOverloaded = ''overloaded''"
definition ErrInternal :: string where "ErrInternal = ''internal''"

lemmas err_defs = ErrBackendUnavailable_def ErrModelNotFound_def ErrTimeout_def
  ErrOverloaded_def ErrInternal_def

section \<open>Timeouts\<close>

definition TTFTTimeout :: int where "TTFTTimeout = 120 * second"
definition InterTokenTimeout :: int where "InterTokenTimeout = 300 * second"
definition TotalRequestTimeout :: int where "TotalRequestTimeout = 300 * second"
definition HeartbeatInterval :: int where "HeartbeatInterval = 30 * second"
definition HeartbeatTimeout :: int where "HeartbeatTimeout = 90 * second"
definition HeartbeatMonitorTick :: int where "HeartbeatMonitorTick = 15 * second"
definition MaxRetries :: nat where "MaxRetries = 3"

lemmas timeout_defs = TTFTTimeout_def InterTokenTimeout_def TotalRequestTimeout_def
  HeartbeatInterval_def HeartbeatTimeout_def HeartbeatMonitorTick_def second_def

section \<open>Messages\<close>

text \<open>Provider to coordinator. The \<open>type\<close> field is the constructor of \<open>provider_msg\<close> below.\<close>

record RegisterMsg =
  rg_models :: "string list"
  rg_max_concurrent :: int
  rg_description :: string
  rg_hardware :: string

record ChunkMsg =
  ch_request_id :: string
  ch_content :: string
  ch_tool_calls :: string
  ch_done :: bool

record ResponseMsg =
  rs_request_id :: string
  rs_content :: string
  rs_tool_calls :: string
  rs_model :: string
  rs_usage :: string

record ErrorMsg =
  er_request_id :: string
  er_code :: string
  er_message :: string

text \<open>Coordinator to provider.\<close>

record RegisteredMsg =
  rd_machine_id :: string
  rd_provider_id :: string

record RequestMsg =
  rq_request_id :: string
  rq_model :: string
  rq_messages :: string
  rq_stream :: bool
  rq_tools :: string
  rq_tool_choice :: string
  rq_options :: string

datatype provider_msg =
    PRegister RegisterMsg
  | PHeartbeat
  | PChunk ChunkMsg
  | PResponse ResponseMsg
  | PError ErrorMsg

datatype coord_msg =
    CRegistered RegisteredMsg
  | CRequest RequestMsg
  | CCancel string
  | CHeartbeatAck

fun provider_msg_type :: "provider_msg \<Rightarrow> string" where
  "provider_msg_type (PRegister _) = TypeRegister"
| "provider_msg_type PHeartbeat = TypeHeartbeat"
| "provider_msg_type (PChunk _) = TypeChunk"
| "provider_msg_type (PResponse _) = TypeResponse"
| "provider_msg_type (PError _) = TypeError"

fun coord_msg_type :: "coord_msg \<Rightarrow> string" where
  "coord_msg_type (CRegistered _) = TypeRegistered"
| "coord_msg_type (CRequest _) = TypeRequest"
| "coord_msg_type (CCancel _) = TypeCancel"
| "coord_msg_type CHeartbeatAck = TypeHeartbeatAck"

section \<open>API key scopes\<close>

definition ScopeConsumer :: string where "ScopeConsumer = ''consumer''"
definition ScopeProvider :: string where "ScopeProvider = ''provider''"
definition ScopeBoth :: string where "ScopeBoth = ''both''"
definition ScopeDonor :: string where "ScopeDonor = ''donor''"

lemmas scope_defs = ScopeConsumer_def ScopeProvider_def ScopeBoth_def ScopeDonor_def

definition IsProviderScope :: "string \<Rightarrow> bool" where
  "IsProviderScope scope \<longleftrightarrow> scope = ScopeProvider \<or> scope = ScopeDonor \<or> scope = ScopeBoth"

section \<open>The model list\<close>

text \<open>
  \<open>Load\<close> is a Go \<open>float64\<close>; it is kept as the fraction it is computed from (current load
  over capacity), because nothing in the source branches on its rounded value.
\<close>

record ModelEntry =
  me_id :: string
  me_object :: string
  me_owned_by :: string
  me_machine_id :: string
  me_machine_name :: string
  me_online :: bool
  me_load :: "int \<times> int"

end
