(* ===== verification/AgentJson.thy ===== *)
theory AgentJson
  imports Json Proto
begin

text \<open>
  How the provider agent rewrites messages on their way to and from the model server
  (\<open>internal/provider/agent.go\<close>): \<open>normalizeMessagesForOllama\<close> with its helpers on the way in,
  \<open>normalizeToolCalls\<close> on the way out, and the request body of \<open>sendToBackend\<close>. Go's JSON encoder and
  decoder are the parameters \<open>marshal\<close> and \<open>parse\<close>; what a theorem needs of them is a named hypothesis.
\<close>

section \<open>Decoding\<close>

text \<open>\<open>json.Unmarshal\<close> into \<open>[]map[string]interface{}\<close>: \<open>null\<close> is the nil slice, a \<open>null\<close> element the nil map.\<close>

fun as_map :: "json \<Rightarrow> (string \<times> json) list option" where
  "as_map (JObj fs) = Some fs"
| "as_map JNull = Some []"
| "as_map _ = None"

fun as_maps :: "json \<Rightarrow> (string \<times> json) list list option" where
  "as_maps JNull = Some []"
| "as_maps (JArr vs) = (if list_all (\<lambda>v. as_map v \<noteq> None) vs then Some (map (the \<circ> as_map) vs) else None)"
| "as_maps _ = None"

text \<open>A string of a map, empty when the entry is missing or no string.\<close>

definition str_of :: "(string \<times> json) list \<Rightarrow> string \<Rightarrow> string" where
  "str_of fs k = (case map_of fs k of Some (JStr s) \<Rightarrow> s | _ \<Rightarrow> [])"

section \<open>Messages for the backend\<close>

definition part_text :: "json \<Rightarrow> string" where
  "part_text part = (case part of
       JObj pm \<Rightarrow>
         (let typ = str_of pm ''type'' in
          if typ = ''text'' \<or> typ = [] then str_of pm ''text''
          else if typ = ''image_url'' then ''[image]''
          else str_of pm ''text'')
     | _ \<Rightarrow> [])"

fun flattenMessageContent :: "(json \<Rightarrow> string) \<Rightarrow> json \<Rightarrow> json" where
  "flattenMessageContent marshal (JStr s) = JStr s"
| "flattenMessageContent marshal JNull = JStr []"
| "flattenMessageContent marshal (JArr parts) = JStr (concat (map part_text parts))"
| "flattenMessageContent marshal v = JStr (marshal v)"

fun ensureArgsObject :: "(string \<Rightarrow> json option) \<Rightarrow> json \<Rightarrow> json" where
  "ensureArgsObject parse (JObj fs) = JObj fs"
| "ensureArgsObject parse JNull = JObj []"
| "ensureArgsObject parse (JStr v) =
    (let s = TrimSpace v in
     if s = [] then JObj []
     else case parse s of
       None \<Rightarrow> JStr v
     | Some obj \<Rightarrow> if obj = JNull then JObj [] else obj)"
| "ensureArgsObject parse v = v"

text \<open>\<open>fn["arguments"] = ensureArgsObject(fn["arguments"])\<close>; a missing entry reads as \<open>nil\<close>.\<close>

definition fix_args :: "(string \<Rightarrow> json option) \<Rightarrow> json \<Rightarrow> json" where
  "fix_args parse fn = jput ''arguments''
     (ensureArgsObject parse (case jfield ''arguments'' fn of None \<Rightarrow> JNull | Some a \<Rightarrow> a)) fn"

definition fix_call :: "(string \<Rightarrow> json option) \<Rightarrow> json \<Rightarrow> json" where
  "fix_call parse tc = (case jfield ''function'' tc of
       Some (JObj fn) \<Rightarrow> jput ''function'' (fix_args parse (JObj fn)) tc
     | _ \<Rightarrow> tc)"

definition normalizeToolCallArgumentsInMessage :: "(string \<Rightarrow> json option) \<Rightarrow> json \<Rightarrow> json" where
  "normalizeToolCallArgumentsInMessage parse m =
    (let m1 = (case jfield ''tool_calls'' m of
                 Some (JArr tcs) \<Rightarrow> jput ''tool_calls'' (JArr (map (fix_call parse) tcs)) m
               | _ \<Rightarrow> m)
     in case jfield ''function_call'' m1 of
          Some (JObj fc) \<Rightarrow> jput ''function_call'' (fix_args parse (JObj fc)) m1
        | _ \<Rightarrow> m1)"

definition normalize_message :: "(string \<Rightarrow> json option) \<Rightarrow> (json \<Rightarrow> string) \<Rightarrow> (string \<times> json) list \<Rightarrow> json" where
  "normalize_message parse marshal m =
    (let nm = (case map_of m ''content'' of
                 Some c \<Rightarrow> jput ''content'' (flattenMessageContent marshal c) (JObj m)
               | None \<Rightarrow> JObj m);
         nm1 = (if jfield ''content'' nm = None \<or> jfield ''content'' nm = Some JNull
                then jput ''content'' (JStr []) nm else nm)
     in normalizeToolCallArgumentsInMessage parse nm1)"

definition normalizeMessagesForOllama :: "(string \<Rightarrow> json option) \<Rightarrow> (json \<Rightarrow> string) \<Rightarrow> string \<Rightarrow> string + json list" where
  "normalizeMessagesForOllama parse marshal raw =
    (if raw = [] then Inl ''empty messages''
     else case Option.bind (parse raw) as_maps of
       None \<Rightarrow> Inl ''unmarshal''
     | Some msgs \<Rightarrow> Inr (map (normalize_message parse marshal) msgs))"

text \<open>
  The body that \<open>sendToBackend\<close> posts: a Go map, here the list of its entries with the decoded value, or
  \<open>None\<close> for raw bytes that are no JSON, on which encoding the whole map fails. Options are merged
  into the top level, replacing entries of the same name.
\<close>

definition raw_entry :: "(string \<Rightarrow> json option) \<Rightarrow> string \<Rightarrow> string \<Rightarrow> (string \<times> json option) list" where
  "raw_entry parse k raw = (if raw = [] then [] else [(k, parse raw)])"

definition put_entry :: "string \<times> json \<Rightarrow> (string \<times> json option) list \<Rightarrow> (string \<times> json option) list" where
  "put_entry kv m = (fst kv, Some (snd kv)) # filter (\<lambda>(j, _). j \<noteq> fst kv) m"

definition merge_options :: "(string \<Rightarrow> json option) \<Rightarrow> string \<Rightarrow> (string \<times> json option) list \<Rightarrow> (string \<times> json option) list" where
  "merge_options parse raw body =
    (if raw = [] then body
     else case Option.bind (parse raw) as_map of
       None \<Rightarrow> body
     | Some opts \<Rightarrow> foldr put_entry opts body)"

definition encode_entries :: "(string \<times> json option) list \<Rightarrow> string + json" where
  "encode_entries m = (if list_all (\<lambda>(k, v). v \<noteq> None) m then Inr (JObj (map (\<lambda>(k, v). (k, the v)) m))
     else Inl ''marshal request'')"

definition backend_body :: "(string \<Rightarrow> json option) \<Rightarrow> (json \<Rightarrow> string) \<Rightarrow> RequestMsg \<Rightarrow> string + json" where
  "backend_body parse marshal msg =
    (case normalizeMessagesForOllama parse marshal (rq_messages msg) of
       Inl e \<Rightarrow> Inl (''normalize messages: '' @ e)
     | Inr messages \<Rightarrow>
         encode_entries (merge_options parse (rq_options msg)
           ([(''model'', Some (JStr (rq_model msg))), (''messages'', Some (JArr messages)),
             (''stream'', Some (JBool (rq_stream msg)))]
            @ raw_entry parse ''tools'' (rq_tools msg) @ raw_entry parse ''tool_choice'' (rq_tool_choice msg))))"

section \<open>Tool calls from the backend\<close>

definition call_args :: "(json \<Rightarrow> string) \<Rightarrow> json option \<Rightarrow> json" where
  "call_args marshal args = (case args of
       None \<Rightarrow> JStr ''{}''
     | Some JNull \<Rightarrow> JStr ''{}''
     | Some (JObj fs) \<Rightarrow> JStr (marshal (JObj fs))
     | Some (JArr vs) \<Rightarrow> JStr (marshal (JArr vs))
     | Some v \<Rightarrow> v)"

definition tool_call :: "(json \<Rightarrow> string) \<Rightarrow> nat \<Rightarrow> (string \<times> json) list \<Rightarrow> json list" where
  "tool_call marshal i tc = (case map_of tc ''function'' of
       Some (JObj fn) \<Rightarrow>
         (let id = (if str_of tc ''id'' = [] then ''call_'' @ Itoa (int i) else str_of tc ''id'') in
          [JObj [(''id'', JStr id), (''type'', JStr ''function''),
                 (''function'', JObj [(''name'', JStr (str_of fn ''name'')),
                    (''arguments'', call_args marshal (map_of fn ''arguments''))])]])
     | _ \<Rightarrow> [])"

definition tool_calls :: "(json \<Rightarrow> string) \<Rightarrow> (string \<times> json) list list \<Rightarrow> json list" where
  "tool_calls marshal incoming = concat (map (\<lambda>(i, tc). tool_call marshal i tc) (enumerate 0 incoming))"

definition normalizeToolCalls :: "(string \<Rightarrow> json option) \<Rightarrow> (json \<Rightarrow> string) \<Rightarrow> string \<Rightarrow> string" where
  "normalizeToolCalls parse marshal raw =
    (if raw = [] \<or> raw = ''null'' then []
     else case Option.bind (parse raw) as_maps of
       None \<Rightarrow> []
     | Some incoming \<Rightarrow>
         (let out = tool_calls marshal incoming in if out = [] then [] else marshal (JArr out)))"

end
