(* ===== verification/Pin.thy ===== *)
theory Pin
  imports Proto
begin

text \<open>
  PINs, keys and tokens of \<open>internal/coord/store.go\<close>: how they are generated from
  random bytes, normalized, validated and hashed.

  \<open>hostenv\<close> collects what the store gets from outside the source: the clock, the
  driver's failures (statement \<open>k\<close> of an operation fails when \<open>e_fault k\<close>), whether the
  pooled connection enforces foreign keys, the SHA-256 digest, and the Unicode part of
  \<open>strings.ToUpper\<close>. Theorems hold for every value of these.
\<close>

record hostenv =
  e_now :: int
  e_fault :: "nat \<Rightarrow> bool"
  e_fk :: bool
  e_sha :: "string \<Rightarrow> string"
  e_upper :: "string \<Rightarrow> string"

definition shift :: "nat \<Rightarrow> hostenv \<Rightarrow> hostenv" where
  "shift n E = E\<lparr>e_fault := \<lambda>k. e_fault E (k + n)\<rparr>"

text \<open>\<open>datetime('now')\<close>: the clock in whole seconds.\<close>

definition db_now :: "hostenv \<Rightarrow> int" where
  "db_now E = e_now E div second"

lemma shift_simps [simp]:
  "e_now (shift n E) = e_now E" "e_fk (shift n E) = e_fk E" "e_sha (shift n E) = e_sha E"
  "e_upper (shift n E) = e_upper E" "e_fault (shift n E) k = e_fault E (k + n)"
  "db_now (shift n E) = db_now E"
  by (simp_all add: shift_def db_now_def)

section \<open>Random material\<close>

text \<open>The argument is the outcome of \<open>rand.Read\<close>: the bytes, or \<open>None\<close> for its error.\<close>

definition generateAPIKey :: "string option \<Rightarrow> string option" where
  "generateAPIKey b = map_option (\<lambda>bs. ''inf_'' @ hex_encode bs) b"

definition generateSessionToken :: "string option \<Rightarrow> string option" where
  "generateSessionToken b = map_option hex_encode b"

definition generateMachineID :: "string option \<Rightarrow> string option" where
  "generateMachineID b = map_option (\<lambda>bs. ''mch_'' @ hex_encode bs) b"

definition pinAlphabet :: string where
  "pinAlphabet = ''23456789ABCDEFGHJKMNPQRSTUVWXYZ''"

definition pin_char :: "char \<Rightarrow> char" where
  "pin_char b = pinAlphabet ! (of_char b mod length pinAlphabet)"

definition generatePIN :: "string option \<Rightarrow> string option" where
  "generatePIN b = map_option
     (\<lambda>bs. let chars = map pin_char bs in take 4 chars @ ''-'' @ drop 4 chars) b"

section \<open>Normalizing and validating\<close>

definition normalizePIN :: "hostenv \<Rightarrow> string \<Rightarrow> string" where
  "normalizePIN E pin = remove_byte (CHR '' '') (TrimSpace (ToUpper (e_upper E) pin))"

definition validPINFormat :: "hostenv \<Rightarrow> string \<Rightarrow> bool" where
  "validPINFormat E pin0 =
    (let pin = normalizePIN E pin0
     in if length pin \<noteq> 9 \<or> pin ! 4 \<noteq> CHR ''-'' then False
        else \<forall>i \<in> set [0..<length pin]. i = 4 \<or> pin ! i \<in> set pinAlphabet)"

definition hashPIN :: "hostenv \<Rightarrow> string \<Rightarrow> string" where
  "hashPIN E pin = hex_encode (e_sha E (normalizePIN E pin))"

definition hashKey :: "hostenv \<Rightarrow> string \<Rightarrow> string" where
  "hashKey E key = hex_encode (e_sha E key)"

lemma pin_hash_shift [simp]:
  "normalizePIN (shift n E) = normalizePIN E" "hashPIN (shift n E) = hashPIN E"
  "hashKey (shift n E) = hashKey E" "validPINFormat (shift n E) = validPINFormat E"
  by (simp_all add: fun_eq_iff normalizePIN_def hashPIN_def hashKey_def validPINFormat_def)

section \<open>Facts about the alphabet\<close>

lemma length_pinAlphabet: "length pinAlphabet = 31"
  by (simp add: pinAlphabet_def)

lemma pin_char_in: "pin_char b \<in> set pinAlphabet"
  by (simp add: pin_char_def length_pinAlphabet)

definition pin_byte :: "char \<Rightarrow> bool" where
  "pin_byte c \<longleftrightarrow> c \<in> set pinAlphabet \<or> c = CHR ''-''"

lemma pin_byte_facts:
  "pin_byte c \<Longrightarrow> upper_byte c = c \<and> of_char c < (128::nat) \<and> solid c \<and> c \<noteq> CHR '' ''"
proof -
  assume "pin_byte c"
  then have "c \<in> set (pinAlphabet @ ''-'')" by (auto simp: pin_byte_def)
  moreover have "list_all (\<lambda>c. upper_byte c = c \<and> of_char c < (128::nat) \<and> solid c \<and> c \<noteq> CHR '' '')
      (pinAlphabet @ ''-'')"
    by (simp add: pinAlphabet_def upper_byte_def solid_def space_seqs_def)
  ultimately show ?thesis by (simp only: list_all_iff) blast
qed

lemma normalizePIN_clean:
  assumes "\<forall>c \<in> set s. pin_byte c"
  shows "normalizePIN E s = s"
proof -
  have "ascii s" and up: "map upper_byte s = s"
    using assms pin_byte_facts by (auto simp: ascii_def intro!: map_idI)
  then have "ToUpper (e_upper E) s = s" by (simp add: ToUpper_def)
  moreover have "TrimSpace s = s"
    using assms pin_byte_facts by (intro TrimSpace_solid) (cases "s = []"; simp)
  moreover have "remove_byte (CHR '' '') s = s"
    using assms pin_byte_facts by (auto simp: remove_byte_def filter_id_conv)
  ultimately show ?thesis by (simp add: normalizePIN_def)
qed

lemma length_9_pin:
  assumes "length s = 9"
  shows "s = take 4 s @ s ! 4 # drop 5 s"
  using assms id_take_nth_drop [of 4 s] by simp

lemma validPINFormat_bytes:
  assumes "validPINFormat E s"
  shows "\<forall>c \<in> set (normalizePIN E s). pin_byte c"
proof
  fix c assume "c \<in> set (normalizePIN E s)"
  then obtain i where i: "i < length (normalizePIN E s)" "c = normalizePIN E s ! i"
    by (metis in_set_conv_nth)
  with assms show "pin_byte c"
    by (cases "i = 4") (auto simp: validPINFormat_def Let_def pin_byte_def split: if_splits)
qed

lemma valid_normalize_idem:
  "validPINFormat E s \<Longrightarrow> normalizePIN E (normalizePIN E s) = normalizePIN E s"
  by (rule normalizePIN_clean) (rule validPINFormat_bytes)

lemma valid_hash_normalize:
  "validPINFormat E s \<Longrightarrow> hashPIN E (normalizePIN E s) = hashPIN E s"
  by (simp add: hashPIN_def valid_normalize_idem)

lemma valid_valid_normalize:
  "validPINFormat E s \<Longrightarrow> validPINFormat E (normalizePIN E s)"
  by (simp add: validPINFormat_def valid_normalize_idem)

lemma generatePIN_bytes:
  "generatePIN b = Some pin \<Longrightarrow> \<forall>c \<in> set pin. pin_byte c"
  by (auto simp: generatePIN_def Let_def pin_byte_def pin_char_in
      dest!: in_set_takeD in_set_dropD)

lemma generatePIN_normal: "generatePIN b = Some pin \<Longrightarrow> normalizePIN E pin = pin"
  by (rule normalizePIN_clean) (rule generatePIN_bytes)

lemma generatePIN_shape:
  assumes "generatePIN (Some bs) = Some pin" and "length bs = 8"
  shows "length pin = 9 \<and> pin ! 4 = CHR ''-'' \<and> (\<forall>i < 9. i \<noteq> 4 \<longrightarrow> pin ! i \<in> set pinAlphabet)"
proof -
  have pin: "pin = take 4 (map pin_char bs) @ ''-'' @ drop 4 (map pin_char bs)"
    using assms(1) by (simp add: generatePIN_def Let_def)
  have "pin ! i \<in> set pinAlphabet" if "i < 9" "i \<noteq> 4" for i
    using that assms(2) by (auto simp: pin nth_append pin_char_in nth_Cons')
  then show ?thesis using assms(2) by (auto simp: pin nth_append)
qed

text \<open>Removing a byte commutes with upper-casing the rest, and space bytes vanish.\<close>

lemma valid_pin_shape:
  assumes "validPINFormat E s"
  shows "length (normalizePIN E s) = 9 \<and> normalizePIN E s ! 4 = CHR ''-''"
  using assms by (auto simp: validPINFormat_def Let_def split: if_splits)

lemma generated_pin_parts:
  assumes "length bs = 8" and pin: "generatePIN (Some bs) = Some pin"
  shows "validPINFormat E pin \<and> normalizePIN E pin = pin"
proof -
  have n: "normalizePIN E pin = pin" by (rule generatePIN_normal [OF pin])
  show ?thesis
    using generatePIN_shape [OF pin assms(1)] by (auto simp: validPINFormat_def n)
qed

text \<open>
  C35: Every PIN the coordinator generates from eight random bytes is accepted by
  the format check, is its own normal form, and is stored under the hash of itself.
\<close>

theorem generated_pin_valid:
  assumes "length bs = 8"
  shows "\<exists>pin. generatePIN (Some bs) = Some pin \<and> validPINFormat E pin
    \<and> normalizePIN E pin = pin \<and> hashPIN E pin = hashKey E pin"
proof -
  obtain pin where pin: "generatePIN (Some bs) = Some pin"
    by (simp add: generatePIN_def Let_def)
  with generated_pin_parts [OF assms pin] show ?thesis by (auto simp: hashPIN_def hashKey_def)
qed

definition demo_env :: hostenv where
  "demo_env = \<lparr>e_now = 1700000000 * second, e_fault = (\<lambda>_. False), e_fk = True,
     e_sha = (\<lambda>s. s), e_upper = (\<lambda>s. s)\<rparr>"

theorem generated_pin_valid_witness:
  "\<exists>pin. generatePIN (Some ''abcdefgh'') = Some pin \<and> validPINFormat demo_env pin
    \<and> normalizePIN demo_env pin = pin \<and> hashPIN demo_env pin = hashKey demo_env pin"
  by (rule generated_pin_valid) simp

definition blank_words :: "string list \<Rightarrow> bool" where
  "blank_words ws \<longleftrightarrow>
     list_all (\<lambda>w. w = '' '' \<or> (w \<noteq> [] \<and> hd w \<noteq> CHR '' '' \<and> \<not> pin_byte (hd w))) ws"

lemma strip_front_blanks:
  assumes "blank_words ws" and "\<forall>c \<in> set s. pin_byte c \<or> c = CHR '' ''"
  shows "remove_byte (CHR '' '') (strip_front ws s) = remove_byte (CHR '' '') s
    \<and> set (strip_front ws s) \<subseteq> set s"
  using assms
proof (induction ws s rule: strip_front.induct)
  case (1 ws s)
  show ?case
  proof (cases "first_strip ws s")
    case None
    then show ?thesis by (simp add: strip_front_id)
  next
    case (Some r)
    then obtain w where w: "w \<in> set ws" "w \<noteq> []" "s = w @ r"
      by (auto dest: first_strip_SomeD)
    then have "hd w \<in> set s" by simp
    with w 1(2,3) have "w = '' ''"
      by (auto simp: blank_words_def list_all_iff)
    moreover have "strip_front ws s = strip_front ws r"
      using Some by (simp add: strip_front.simps [of ws s])
    ultimately show ?thesis
      using 1(1) [OF Some 1(2)] 1(3) w by (auto simp: remove_byte_def)
  qed
qed

lemma trim_blanks:
  assumes "\<forall>c \<in> set s. pin_byte c \<or> c = CHR '' ''"
  shows "remove_byte (CHR '' '') (TrimSpace s) = remove_byte (CHR '' '') s"
proof -
  have f: "blank_words space_seqs" and b: "blank_words (map rev space_seqs)"
    by (simp_all add: blank_words_def space_seqs_def pin_byte_def pinAlphabet_def)
  let ?l = "strip_front space_seqs s"
  have l: "remove_byte (CHR '' '') ?l = remove_byte (CHR '' '') s" "set ?l \<subseteq> set s"
    using strip_front_blanks [OF f assms] by auto
  then have "\<forall>c \<in> set (rev ?l). pin_byte c \<or> c = CHR '' ''"
    using assms by auto
  from strip_front_blanks [OF b this]
  have "remove_byte (CHR '' '') (strip_front (map rev space_seqs) (rev ?l))
      = remove_byte (CHR '' '') (rev ?l)" by simp
  then show ?thesis
    using l by (simp add: TrimSpace_def remove_byte_def rev_filter [symmetric])
qed

lemma pin_typed:
  assumes "ascii typed"
    and "remove_byte (CHR '' '') (map upper_byte typed) = pin"
    and "generatePIN b = Some pin"
  shows "normalizePIN E typed = pin \<and> hashPIN E typed = hashPIN E pin"
proof -
  let ?u = "map upper_byte typed"
  have pb: "\<forall>c \<in> set ?u. pin_byte c \<or> c = CHR '' ''"
    using generatePIN_bytes [OF assms(3)] assms(2) by (auto simp: remove_byte_def)
  have "normalizePIN E typed = remove_byte (CHR '' '') (TrimSpace ?u)"
    by (simp add: normalizePIN_def ToUpper_def assms(1))
  also have "\<dots> = pin"
    using trim_blanks [OF pb] assms(2) by simp
  finally have n: "normalizePIN E typed = pin" .
  with generatePIN_normal [OF assms(3), of E] show ?thesis by (simp add: hashPIN_def)
qed

text \<open>
  What the member types may differ from the PIN by letter case and by blanks
  anywhere: if the ASCII text, with letters raised and blanks removed, is a generated
  PIN, it normalizes to that PIN and has its hash, so it opens the same invite.
\<close>

theorem pin_entry_tolerant:
  assumes "ascii typed"
    and "remove_byte (CHR '' '') (map upper_byte typed) = pin"
    and "generatePIN b = Some pin"
  shows "normalizePIN E typed = pin \<and> hashPIN E typed = hashPIN E pin"
  by (rule pin_typed [OF assms])

theorem pin_entry_tolerant_witness:
  "normalizePIN demo_env '' 3456-789 a '' = ''3456-789A''
    \<and> hashPIN demo_env '' 3456-789 a '' = hashPIN demo_env ''3456-789A''"
proof (rule pin_entry_tolerant)
  show "ascii '' 3456-789 a ''" by (simp add: ascii_def)
  show "remove_byte (CHR '' '') (map upper_byte '' 3456-789 a '') = ''3456-789A''"
    by (simp add: remove_byte_def upper_byte_def char_of_eq_iff)
  show "generatePIN (Some (map char_of [1::nat, 2, 3, 4, 5, 6, 7, 8])) = Some ''3456-789A''"
    by (simp add: generatePIN_def pin_char_def pinAlphabet_def)
qed

end
