(* ===== verification/StoreModel.thy ===== *)
theory StoreModel
  imports Pin
begin

text \<open>
  The persistent state of the coordinator (\<open>internal/coord/store.go\<close>): the seven SQLite
  tables as lists of rows, and one definition per method of \<open>Store\<close>. A method takes the
  environment, its arguments and the state; a method that writes returns its result
  together with the new state. Times stored in the database are whole seconds.

  A driver failure of the \<open>k\<close>-th statement (\<open>e_fault\<close>), a violated \<open>UNIQUE\<close> constraint and, where
  the connection enforces it, a violated foreign key make the statement fail without
  effect. \<open>ORDER BY\<close> leaves the order of ties open; the stable order is used.
\<close>

section \<open>Rows\<close>

record User =
  u_id :: int
  u_github :: int
  u_login :: string
  u_created :: int

record APIKey =
  k_id :: int
  k_user :: int
  k_hash :: string
  k_prefix :: string
  k_scope :: string
  k_created :: int
  k_revoked :: "int option"

record OwnerStats =
  os_user :: int
  os_requests :: int
  os_tokens :: int
  os_uptime :: int
  os_last_seen :: "int option"

record Session =
  se_token :: string
  se_user :: int
  se_created :: int
  se_expires :: int

record Machine =
  m_id :: string
  m_owner :: int
  m_key :: int
  m_name :: string
  m_created :: int
  m_updated :: int

record Invite =
  i_id :: int
  i_machine :: string
  i_owner :: int
  i_pin_hash :: string
  i_pin_prefix :: string
  i_max_uses :: int
  i_uses :: int
  i_expires :: int
  i_revoked :: "int option"
  i_created :: int
  i_label :: "string option"

record Binding =
  b_id :: int
  b_machine :: string
  b_member :: int
  b_invite :: "int option"
  b_created :: int
  b_revoked :: "int option"

record BindingInfo =
  bi_machine :: string
  bi_name :: string
  bi_owner :: int
  bi_role :: string
  bi_created :: int

record store =
  users :: "User list"
  api_keys :: "APIKey list"
  owner_stats :: "OwnerStats list"
  sessions :: "Session list"
  machines :: "Machine list"
  invites :: "Invite list"
  bindings :: "Binding list"
  seq_users :: int
  seq_keys :: int
  seq_invites :: int
  seq_bindings :: int

definition empty_store :: store where
  "empty_store = \<lparr>users = [], api_keys = [], owner_stats = [], sessions = [], machines = [],
     invites = [], bindings = [], seq_users = 0, seq_keys = 0, seq_invites = 0, seq_bindings = 0\<rparr>"

datatype store_error =
    ErrInvalidPin
  | ErrExpiredPin
  | ErrExhausted
  | ErrRevokedPin
  | ErrMachineGone
  | DbErr string
  | MsgErr string

type_synonym 'a result = "store_error + 'a"

definition newest_first :: "('r \<Rightarrow> int) \<Rightarrow> 'r list \<Rightarrow> 'r list" where
  "newest_first f t = sort_key (\<lambda>r. - f r) t"

lemma set_newest_first [simp]: "set (newest_first f t) = set t"
  by (simp add: newest_first_def)

definition has_user :: "store \<Rightarrow> int \<Rightarrow> bool" where
  "has_user s u \<longleftrightarrow> (\<exists>r \<in> set (users s). u_id r = u)"

definition has_key :: "store \<Rightarrow> int \<Rightarrow> bool" where
  "has_key s k \<longleftrightarrow> (\<exists>r \<in> set (api_keys s). k_id r = k)"

definition key_active :: "store \<Rightarrow> int \<Rightarrow> bool" where
  "key_active s k \<longleftrightarrow> (\<exists>r \<in> set (api_keys s). k_id r = k \<and> k_revoked r = None)"

section \<open>Migration\<close>

text \<open>
  A database from an earlier release may hold the table \<open>donor_stats\<close> and keys of scope
  \<open>donor\<close>. Creating the current tables is a no-op on existing ones. Errors of the
  migration statements are dropped by the code. \<open>INSERT OR IGNORE\<close> skips rows whose user
  already has statistics.
\<close>

definition normalizeScope :: "string \<Rightarrow> string" where
  "normalizeScope scope = (if scope = ''donor'' then ''provider'' else scope)"

fun insert_or_ignore :: "OwnerStats list \<Rightarrow> OwnerStats list \<Rightarrow> OwnerStats list" where
  "insert_or_ignore t [] = t"
| "insert_or_ignore t (r # rs) =
     insert_or_ignore (if \<exists>q \<in> set t. os_user q = os_user r then t else t @ [r]) rs"

definition migrate :: "hostenv \<Rightarrow> OwnerStats list option \<Rightarrow> store
    \<Rightarrow> unit result \<times> OwnerStats list option \<times> store" where
  "migrate E donor s =
    (if e_fault E 0 then (Inl (DbErr ''schema''), donor, s)
     else
       let (donor1, s1) =
         (case (if e_fault E 1 then None else donor) of
            None \<Rightarrow> (donor, s)
          | Some d \<Rightarrow>
              (if e_fault E 3 then donor else None,
               if e_fault E 2 then s else s\<lparr>owner_stats := insert_or_ignore (owner_stats s) d\<rparr>));
         s2 = (if e_fault E 4 then s1
               else s1\<lparr>api_keys := upd_where (\<lambda>k. k_scope k = ''donor'')
                                    (\<lambda>k. k\<lparr>k_scope := ''provider''\<rparr>) (api_keys s1)\<rparr>)
       in (Inr (), donor1, s2))"

text \<open>
  \<open>NewStore\<close>: \<open>opened\<close> is the database of the path, with the old table if it has one, or \<open>None\<close> when
  \<open>sql.Open\<close> fails. The errors of the three \<open>PRAGMA\<close> statements are dropped by the code.
\<close>

definition NewStore :: "hostenv \<Rightarrow> (OwnerStats list option \<times> store) option \<Rightarrow> string + store" where
  "NewStore E opened =
    (case opened of
       None \<Rightarrow> Inl ''open db''
     | Some (donor, s) \<Rightarrow> (case migrate E donor s of (Inl e, _, _) \<Rightarrow> Inl ''migrate'' | (Inr _, _, s') \<Rightarrow> Inr s'))"

section \<open>Users and sessions\<close>

definition UpsertUser :: "hostenv \<Rightarrow> int \<Rightarrow> string \<Rightarrow> store \<Rightarrow> int result \<times> store" where
  "UpsertUser E githubID login s =
    (if e_fault E 0 then (Inl (DbErr ''upsert user''), s)
     else
       let s1 = (if \<exists>u \<in> set (users s). u_github u = githubID
                 then s\<lparr>users := upd_where (\<lambda>u. u_github u = githubID) (\<lambda>u. u\<lparr>u_login := login\<rparr>) (users s)\<rparr>
                 else s\<lparr>users := users s @ [\<lparr>u_id = seq_users s + 1, u_github = githubID,
                                             u_login = login, u_created = db_now E\<rparr>],
                        seq_users := seq_users s + 1\<rparr>)
       in if e_fault E 1 then (Inl (DbErr ''select user''), s1)
          else case List.find (\<lambda>u. u_github u = githubID) (users s1) of
                 None \<Rightarrow> (Inl (DbErr ''select user''), s1)
               | Some u \<Rightarrow> (Inr (u_id u), s1))"

definition GetUserByID :: "hostenv \<Rightarrow> int \<Rightarrow> store \<Rightarrow> string result" where
  "GetUserByID E userID s =
    (if e_fault E 0 then Inl (DbErr ''get user'')
     else case List.find (\<lambda>u. u_id u = userID) (users s) of
            None \<Rightarrow> Inl (MsgErr ''user not found'')
          | Some u \<Rightarrow> Inr (u_login u))"

definition CreateSession :: "hostenv \<Rightarrow> string option \<Rightarrow> int \<Rightarrow> store \<Rightarrow> string result \<times> store" where
  "CreateSession E rnd userID s =
    (case generateSessionToken rnd of
       None \<Rightarrow> (Inl (DbErr ''rand''), s)
     | Some token \<Rightarrow>
         if e_fault E 0 \<or> (\<exists>q \<in> set (sessions s). se_token q = token) \<or> (e_fk E \<and> \<not> has_user s userID)
         then (Inl (DbErr ''create session''), s)
         else (Inr token,
               s\<lparr>sessions := sessions s @ [\<lparr>se_token = token, se_user = userID,
                   se_created = db_now E, se_expires = db_now E + 24 * 3600\<rparr>]\<rparr>))"

definition ValidateSession :: "hostenv \<Rightarrow> string \<Rightarrow> store \<Rightarrow> int result" where
  "ValidateSession E token s =
    (if e_fault E 0 then Inl (DbErr ''validate session'')
     else case List.find (\<lambda>q. se_token q = token \<and> se_expires q > db_now E) (sessions s) of
            None \<Rightarrow> Inr 0
          | Some q \<Rightarrow> Inr (se_user q))"

definition DeleteSession :: "hostenv \<Rightarrow> string \<Rightarrow> store \<Rightarrow> unit result \<times> store" where
  "DeleteSession E token s =
    (if e_fault E 0 then (Inl (DbErr ''delete session''), s)
     else (Inr (), s\<lparr>sessions := filter (\<lambda>q. se_token q \<noteq> token) (sessions s)\<rparr>))"

section \<open>API keys\<close>

definition CreateKey :: "hostenv \<Rightarrow> string option \<Rightarrow> int \<Rightarrow> string \<Rightarrow> store
    \<Rightarrow> (string \<times> int) result \<times> store" where
  "CreateKey E rnd userID scope0 s =
    (let scope = normalizeScope scope0 in
     case generateAPIKey rnd of
       None \<Rightarrow> (Inl (DbErr ''generate key''), s)
     | Some raw \<Rightarrow>
         let h = hashKey E raw in
         if e_fault E 0 \<or> (\<exists>k \<in> set (api_keys s). k_hash k = h) \<or> (e_fk E \<and> \<not> has_user s userID)
         then (Inl (DbErr ''insert key''), s)
         else
           let kid = seq_keys s + 1;
               s1 = s\<lparr>api_keys := api_keys s @ [\<lparr>k_id = kid, k_user = userID, k_hash = h,
                        k_prefix = take 8 raw, k_scope = scope, k_created = db_now E, k_revoked = None\<rparr>],
                      seq_keys := kid\<rparr>
           in if e_fault E 1 then (Inl (DbErr ''last insert id''), s1) else (Inr (raw, kid), s1))"

definition ListKeys :: "hostenv \<Rightarrow> int \<Rightarrow> store \<Rightarrow> APIKey list result" where
  "ListKeys E userID s =
    (if e_fault E 0 then Inl (DbErr ''list keys'')
     else Inr (newest_first k_created
                 (filter (\<lambda>k. k_user k = userID \<and> k_revoked k = None) (api_keys s))))"

definition CountKeys :: "hostenv \<Rightarrow> int \<Rightarrow> store \<Rightarrow> nat result" where
  "CountKeys E userID s =
    (if e_fault E 0 then Inl (DbErr ''count keys'')
     else Inr (count_where (\<lambda>k. k_user k = userID \<and> k_revoked k = None) (api_keys s)))"

definition CountKeysByScope :: "hostenv \<Rightarrow> int \<Rightarrow> string \<Rightarrow> store \<Rightarrow> nat result" where
  "CountKeysByScope E userID scope0 s =
    (let scope = normalizeScope scope0 in
     if e_fault E 0 then Inl (DbErr ''count keys'')
     else if scope = ''provider''
     then Inr (count_where (\<lambda>k. k_user k = userID \<and> k_scope k \<in> {''provider'', ''donor''}
                 \<and> k_revoked k = None) (api_keys s))
     else Inr (count_where (\<lambda>k. k_user k = userID \<and> k_scope k = scope
                 \<and> k_revoked k = None) (api_keys s)))"

definition RevokeKey :: "hostenv \<Rightarrow> int \<Rightarrow> int \<Rightarrow> store \<Rightarrow> unit result \<times> store" where
  "RevokeKey E userID keyID s =
    (let hit = (\<lambda>k. k_id k = keyID \<and> k_user k = userID \<and> k_revoked k = None) in
     if e_fault E 0 then (Inl (DbErr ''revoke key''), s)
     else if count_where hit (api_keys s) = 0
     then (Inl (MsgErr ''key not found or already revoked''), s)
     else (Inr (), s\<lparr>api_keys := upd_where hit (\<lambda>k. k\<lparr>k_revoked := Some (db_now E)\<rparr>) (api_keys s)\<rparr>))"

definition FindKeyByHash :: "hostenv \<Rightarrow> string \<Rightarrow> store \<Rightarrow> APIKey option result" where
  "FindKeyByHash E h s =
    (if e_fault E 0 then Inl (DbErr ''find key'')
     else case List.find (\<lambda>k. k_hash k = h) (api_keys s) of
            None \<Rightarrow> Inr None
          | Some k \<Rightarrow> if k_revoked k \<noteq> None then Inr None
                      else Inr (Some (k\<lparr>k_scope := normalizeScope (k_scope k)\<rparr>)))"

definition FindKeyByID :: "hostenv \<Rightarrow> int \<Rightarrow> store \<Rightarrow> APIKey option result" where
  "FindKeyByID E keyID s =
    (if e_fault E 0 then Inl (DbErr ''find key by id'')
     else Inr (map_option (\<lambda>k. k\<lparr>k_scope := normalizeScope (k_scope k)\<rparr>)
                 (List.find (\<lambda>k. k_id k = keyID) (api_keys s))))"

definition EnsureConsumerKey :: "hostenv \<Rightarrow> string option \<Rightarrow> int \<Rightarrow> store
    \<Rightarrow> (string \<times> int \<times> bool) result \<times> store" where
  "EnsureConsumerKey E rnd userID s =
    (case ListKeys E userID s of
       Inl e \<Rightarrow> (Inl e, s)
     | Inr keys \<Rightarrow>
         (case List.find (\<lambda>k. k_scope k = ''consumer'' \<or> k_scope k = ''both'') keys of
            Some k \<Rightarrow> (Inr ('''', k_id k, False), s)
          | None \<Rightarrow>
              (case CreateKey (shift 1 E) rnd userID ''consumer'' s of
                 (Inl e, s1) \<Rightarrow> (Inl e, s1)
               | (Inr (raw, kid), s1) \<Rightarrow> (Inr (raw, kid, True), s1))))"

section \<open>Owner statistics\<close>

definition GetOwnerStats :: "hostenv \<Rightarrow> int \<Rightarrow> store \<Rightarrow> OwnerStats result" where
  "GetOwnerStats E userID s =
    (if e_fault E 0 then Inl (DbErr ''get owner stats'')
     else case List.find (\<lambda>r. os_user r = userID) (owner_stats s) of
            None \<Rightarrow> Inr \<lparr>os_user = userID, os_requests = 0, os_tokens = 0, os_uptime = 0, os_last_seen = None\<rparr>
          | Some r \<Rightarrow> Inr r)"

definition UpdateOwnerStats :: "hostenv \<Rightarrow> int \<Rightarrow> int \<Rightarrow> int \<Rightarrow> int \<Rightarrow> store
    \<Rightarrow> unit result \<times> store" where
  "UpdateOwnerStats E userID requests tokens uptimeSec s =
    (if e_fault E 0 then (Inl (DbErr ''update owner stats''), s)
     else if \<exists>r \<in> set (owner_stats s). os_user r = userID
     then (Inr (), s\<lparr>owner_stats := upd_where (\<lambda>r. os_user r = userID)
             (\<lambda>r. r\<lparr>os_requests := os_requests r + requests, os_tokens := os_tokens r + tokens,
                    os_uptime := os_uptime r + uptimeSec, os_last_seen := Some (db_now E)\<rparr>)
             (owner_stats s)\<rparr>)
     else if e_fk E \<and> \<not> has_user s userID then (Inl (DbErr ''update owner stats''), s)
     else (Inr (), s\<lparr>owner_stats := owner_stats s @
             [\<lparr>os_user = userID, os_requests = requests, os_tokens = tokens,
               os_uptime = uptimeSec, os_last_seen = Some (db_now E)\<rparr>]\<rparr>))"

section \<open>Machines\<close>

definition GetMachine :: "hostenv \<Rightarrow> string \<Rightarrow> store \<Rightarrow> Machine option result" where
  "GetMachine E mid s =
    (if e_fault E 0 then Inl (DbErr ''get machine'')
     else Inr (List.find (\<lambda>m. m_id m = mid) (machines s)))"

definition GetMachineByProviderKeyID :: "hostenv \<Rightarrow> int \<Rightarrow> store \<Rightarrow> Machine option result" where
  "GetMachineByProviderKeyID E keyID s =
    (if e_fault E 0 then Inl (DbErr ''get machine by key'')
     else Inr (List.find (\<lambda>m. m_key m = keyID) (machines s)))"

text \<open>
  The insert fails on a driver failure, a taken id, a key that already has a machine
  (another connection made it first) or a missing referenced row; the code then looks
  the key up again.
\<close>

definition UpsertMachineByProviderKey :: "hostenv \<Rightarrow> string option \<Rightarrow> int \<Rightarrow> int \<Rightarrow> string \<Rightarrow> store
    \<Rightarrow> Machine option result \<times> store" where
  "UpsertMachineByProviderKey E rnd owner keyID name0 s =
    (case GetMachineByProviderKeyID E keyID s of
       Inl e \<Rightarrow> (Inl e, s)
     | Inr (Some ex) \<Rightarrow>
         if name0 \<noteq> '''' \<and> name0 \<noteq> m_name ex
         then (Inr (Some (ex\<lparr>m_name := name0\<rparr>)),
               if e_fault E 1 then s
               else s\<lparr>machines := upd_where (\<lambda>m. m_id m = m_id ex)
                        (\<lambda>m. m\<lparr>m_name := name0, m_updated := db_now E\<rparr>) (machines s)\<rparr>)
         else (Inr (Some ex), s)
     | Inr None \<Rightarrow>
         (case generateMachineID rnd of
            None \<Rightarrow> (Inl (DbErr ''rand''), s)
          | Some mid \<Rightarrow>
              let name = (if name0 = '''' then ''machine'' else name0) in
              if e_fault E 1 \<or> (\<exists>m \<in> set (machines s). m_id m = mid \<or> m_key m = keyID)
                 \<or> (e_fk E \<and> (\<not> has_user s owner \<or> \<not> has_key s keyID))
              then (case GetMachineByProviderKeyID (shift 2 E) keyID s of
                      Inr (Some ex) \<Rightarrow> (Inr (Some ex), s)
                    | _ \<Rightarrow> (Inl (DbErr ''insert machine''), s))
              else
                let s1 = s\<lparr>machines := machines s @ [\<lparr>m_id = mid, m_owner = owner, m_key = keyID,
                             m_name = name, m_created = db_now E, m_updated = db_now E\<rparr>]\<rparr>
                in (GetMachine (shift 2 E) mid s1, s1)))"

definition CreateMachineOnKeyRegen :: "hostenv \<Rightarrow> string option \<Rightarrow> int \<Rightarrow> int \<Rightarrow> string \<Rightarrow> store
    \<Rightarrow> Machine option result \<times> store" where
  "CreateMachineOnKeyRegen E rnd owner newKeyID name s =
     UpsertMachineByProviderKey E rnd owner newKeyID name s"

definition ListMachinesByOwner :: "hostenv \<Rightarrow> int \<Rightarrow> store \<Rightarrow> Machine list result" where
  "ListMachinesByOwner E owner s =
    (if e_fault E 0 then Inl (DbErr ''list machines'')
     else Inr (newest_first m_created
                 (filter (\<lambda>m. m_owner m = owner \<and> key_active s (m_key m)) (machines s))))"

definition CanAccessMachine :: "hostenv \<Rightarrow> int \<Rightarrow> string \<Rightarrow> store \<Rightarrow> bool result" where
  "CanAccessMachine E userID mid s =
    (case GetMachine E mid s of
       Inl e \<Rightarrow> Inl e
     | Inr None \<Rightarrow> Inr False
     | Inr (Some m) \<Rightarrow>
         if m_owner m = userID
         then (if e_fault E 1 then Inl (DbErr ''key lookup'')
               else case List.find (\<lambda>k. k_id k = m_key m) (api_keys s) of
                      None \<Rightarrow> Inr False
                    | Some k \<Rightarrow> Inr (k_revoked k = None))
         else (if e_fault E 1 then Inl (DbErr ''binding lookup'')
               else Inr (0 < count_where (\<lambda>b. b_machine b = mid \<and> b_member b = userID
                               \<and> b_revoked b = None) (bindings s))))"

definition RetireMachine :: "hostenv \<Rightarrow> string \<Rightarrow> store \<Rightarrow> unit result \<times> store" where
  "RetireMachine E mid s =
    (if e_fault E 0 then (Inl (DbErr ''retire invites''), s)
     else
       let s1 = s\<lparr>invites := upd_where (\<lambda>i. i_machine i = mid \<and> i_revoked i = None)
                    (\<lambda>i. i\<lparr>i_revoked := Some (db_now E)\<rparr>) (invites s)\<rparr>
       in if e_fault E 1 then (Inl (DbErr ''retire bindings''), s1)
          else (Inr (), s1\<lparr>bindings := upd_where (\<lambda>b. b_machine b = mid \<and> b_revoked b = None)
                    (\<lambda>b. b\<lparr>b_revoked := Some (db_now E)\<rparr>) (bindings s1)\<rparr>))"

definition RetireMachineByProviderKeyID :: "hostenv \<Rightarrow> int \<Rightarrow> store \<Rightarrow> unit result \<times> store" where
  "RetireMachineByProviderKeyID E keyID s =
    (case GetMachineByProviderKeyID E keyID s of
       Inl e \<Rightarrow> (Inl e, s)
     | Inr None \<Rightarrow> (Inr (), s)
     | Inr (Some m) \<Rightarrow> RetireMachine (shift 1 E) (m_id m) s)"

section \<open>Invites\<close>

definition nullIfEmpty :: "string \<Rightarrow> string option" where
  "nullIfEmpty s = (if s = '''' then None else Some s)"

definition invite_label :: "Invite \<Rightarrow> string" where
  "invite_label iv = (case i_label iv of None \<Rightarrow> '''' | Some l \<Rightarrow> l)"

definition GetInvite :: "hostenv \<Rightarrow> int \<Rightarrow> store \<Rightarrow> Invite option result" where
  "GetInvite E iid s =
    (if e_fault E 0 then Inl (DbErr ''get invite'')
     else Inr (List.find (\<lambda>i. i_id i = iid) (invites s)))"

definition clamp_uses :: "int \<Rightarrow> int" where
  "clamp_uses n = (let a = (if n < 1 then 1 else n) in if a > 10 then 10 else a)"

text \<open>The life of an invite, \<open>time.Duration(ttlDays) * 24 * time.Hour\<close>, is a 64-bit product.\<close>

definition ttl_duration :: "int \<Rightarrow> int" where
  "ttl_duration days = int64 (int64 (days * 24) * hour)"

definition CreateInvite :: "hostenv \<Rightarrow> string option \<Rightarrow> string \<Rightarrow> int \<Rightarrow> int \<Rightarrow> int \<Rightarrow> string \<Rightarrow> store
    \<Rightarrow> (Invite option \<times> string) result \<times> store" where
  "CreateInvite E rnd mid owner maxUses0 ttlDays0 label s =
    (case GetMachine E mid s of
       Inl e \<Rightarrow> (Inl e, s)
     | Inr None \<Rightarrow> (Inl (MsgErr ''machine not found or not owned''), s)
     | Inr (Some m) \<Rightarrow>
         if m_owner m \<noteq> owner then (Inl (MsgErr ''machine not found or not owned''), s)
         else
           let maxUses = clamp_uses maxUses0;
               ttlDays = (if ttlDays0 < 1 then 7 else ttlDays0)
           in case generatePIN rnd of
                None \<Rightarrow> (Inl (DbErr ''rand''), s)
              | Some pin \<Rightarrow>
                  let h = hashPIN E pin;
                      expiresAt = e_now E + ttl_duration ttlDays
                  in if e_fault E 1 \<or> (\<exists>i \<in> set (invites s). i_pin_hash i = h) \<or> (e_fk E \<and> \<not> has_user s owner)
                     then (Inl (DbErr ''insert invite''), s)
                     else
                       let iid = seq_invites s + 1;
                           s1 = s\<lparr>invites := invites s @ [\<lparr>i_id = iid, i_machine = mid, i_owner = owner,
                                    i_pin_hash = h, i_pin_prefix = take 4 pin, i_max_uses = maxUses,
                                    i_uses = 0, i_expires = expiresAt div second, i_revoked = None,
                                    i_created = db_now E, i_label = nullIfEmpty label\<rparr>],
                                  seq_invites := iid\<rparr>
                       in (case GetInvite (shift 2 E) iid s1 of
                             Inl e \<Rightarrow> (Inl e, s1)
                           | Inr iv \<Rightarrow> (Inr (iv, pin), s1)))"

definition ListInviteRedeemers :: "hostenv \<Rightarrow> int list \<Rightarrow> store \<Rightarrow> (int \<Rightarrow> string list) result" where
  "ListInviteRedeemers E ids s =
    (if ids = [] then Inr (\<lambda>_. [])
     else if e_fault E 0 then Inl (DbErr ''list invite redeemers'')
     else let rows = sort_key b_created
                       (filter (\<lambda>b. \<exists>i \<in> set ids. b_invite b = Some i) (bindings s))
          in Inr (\<lambda>i. concat (map (\<lambda>b. case List.find (\<lambda>u. u_id u = b_member b) (users s) of
                                           None \<Rightarrow> [] | Some u \<Rightarrow> [u_login u])
                               (filter (\<lambda>b. b_invite b = Some i) rows))))"

definition ListInvitesByOwner :: "hostenv \<Rightarrow> int \<Rightarrow> store \<Rightarrow> Invite list result" where
  "ListInvitesByOwner E owner s =
    (if e_fault E 0 then Inl (DbErr ''list invites'')
     else Inr (newest_first i_created (filter (\<lambda>i. i_owner i = owner) (invites s))))"

definition RevokeInvite :: "hostenv \<Rightarrow> int \<Rightarrow> int \<Rightarrow> store \<Rightarrow> unit result \<times> store" where
  "RevokeInvite E owner iid s =
    (let hit = (\<lambda>i. i_id i = iid \<and> i_owner i = owner \<and> i_revoked i = None) in
     if e_fault E 0 then (Inl (DbErr ''revoke invite''), s)
     else if count_where hit (invites s) = 0
     then (Inl (MsgErr ''invite not found or already revoked''), s)
     else (Inr (), s\<lparr>invites := upd_where hit (\<lambda>i. i\<lparr>i_revoked := Some (db_now E)\<rparr>) (invites s)\<rparr>))"

definition InviteStatus :: "hostenv \<Rightarrow> Invite \<Rightarrow> string" where
  "InviteStatus E iv =
    (if i_revoked iv \<noteq> None then ''revoked''
     else if e_now E > i_expires iv * second then ''expired''
     else if i_uses iv \<ge> i_max_uses iv then ''exhausted''
     else ''active'')"

definition MaskedPIN :: "Invite \<Rightarrow> string" where
  "MaskedPIN iv = i_pin_prefix iv @ ''-****''"

section \<open>Redeeming a PIN\<close>

text \<open>
  \<open>RedeemPIN\<close> first reads (\<open>redeem_lookup\<close>: normalize, validate, find the invite, check it,
  find its machine), then either counts a use for the owner (\<open>redeem_owner\<close>) or runs the
  transaction that counts a use and writes the binding (\<open>redeem_commit\<close>). Other requests may
  run between the two, which the interleaving model of \<open>RedeemRace\<close> uses.
\<close>

datatype redeem_plan = AsOwner Invite | AsMember Invite

definition redeem_lookup :: "hostenv \<Rightarrow> int \<Rightarrow> string \<Rightarrow> store \<Rightarrow> redeem_plan result" where
  "redeem_lookup E member pin0 s =
    (let pin = normalizePIN E pin0 in
     if \<not> validPINFormat E pin then Inl ErrInvalidPin
     else if e_fault E 0 then Inl (DbErr ''lookup pin'')
     else case List.find (\<lambda>i. i_pin_hash i = hashPIN E pin) (invites s) of
       None \<Rightarrow> Inl ErrInvalidPin
     | Some iv \<Rightarrow>
         if i_revoked iv \<noteq> None then Inl ErrRevokedPin
         else if e_now E > i_expires iv * second then Inl ErrExpiredPin
         else if i_uses iv \<ge> i_max_uses iv then Inl ErrExhausted
         else case GetMachine (shift 1 E) (i_machine iv) s of
           Inl e \<Rightarrow> Inl e
         | Inr None \<Rightarrow> Inl ErrMachineGone
         | Inr (Some m) \<Rightarrow> if m_owner m = member then Inr (AsOwner iv) else Inr (AsMember iv))"

definition redeem_owner :: "hostenv \<Rightarrow> Invite \<Rightarrow> store \<Rightarrow> (string \<times> int) result \<times> store" where
  "redeem_owner E iv s =
    (Inr (i_machine iv, i_id iv),
     if e_fault E 2 then s
     else s\<lparr>invites := upd_where (\<lambda>i. i_id i = i_id iv \<and> i_uses i < i_max_uses i)
              (\<lambda>i. i\<lparr>i_uses := i_uses i + 1\<rparr>) (invites s)\<rparr>)"

definition rebind :: "hostenv \<Rightarrow> int \<Rightarrow> Binding \<Rightarrow> Binding" where
  "rebind E iid b = b\<lparr>b_created := (if b_revoked b \<noteq> None then db_now E else b_created b),
     b_revoked := None, b_invite := Some iid\<rparr>"

definition upsert_binding :: "hostenv \<Rightarrow> string \<Rightarrow> int \<Rightarrow> int \<Rightarrow> store \<Rightarrow> store" where
  "upsert_binding E mid member iid s =
    (let hit = (\<lambda>b. b_machine b = mid \<and> b_member b = member) in
     if \<exists>b \<in> set (bindings s). hit b
     then s\<lparr>bindings := upd_where hit (rebind E iid) (bindings s)\<rparr>
     else s\<lparr>bindings := bindings s @ [\<lparr>b_id = seq_bindings s + 1, b_machine = mid, b_member = member,
              b_invite = Some iid, b_created = db_now E, b_revoked = None\<rparr>],
            seq_bindings := seq_bindings s + 1\<rparr>)"

definition redeem_commit :: "hostenv \<Rightarrow> int \<Rightarrow> Invite \<Rightarrow> store \<Rightarrow> (string \<times> int) result \<times> store" where
  "redeem_commit E member iv s =
    (let hit = (\<lambda>i. i_id i = i_id iv \<and> i_uses i < i_max_uses i \<and> i_revoked i = None);
         s1 = s\<lparr>invites := upd_where hit (\<lambda>i. i\<lparr>i_uses := i_uses i + 1\<rparr>) (invites s)\<rparr>
     in if e_fault E 2 then (Inl (DbErr ''begin''), s)
        else if e_fault E 3 then (Inl (DbErr ''count use''), s)
        else if count_where hit (invites s) = 0 then (Inl ErrExhausted, s)
        else if e_fault E 4 \<or> (e_fk E \<and> \<not> has_user s member
             \<and> \<not> (\<exists>b \<in> set (bindings s). b_machine b = i_machine iv \<and> b_member b = member)) then (Inl (DbErr ''upsert binding''), s)
        else if e_fault E 5 then (Inl (DbErr ''commit''), s)
        else (Inr (i_machine iv, i_id iv), upsert_binding E (i_machine iv) member (i_id iv) s1))"

definition RedeemPIN :: "hostenv \<Rightarrow> int \<Rightarrow> string \<Rightarrow> store \<Rightarrow> (string \<times> int) result \<times> store" where
  "RedeemPIN E member pin s =
    (case redeem_lookup E member pin s of
       Inl e \<Rightarrow> (Inl e, s)
     | Inr (AsOwner iv) \<Rightarrow> redeem_owner E iv s
     | Inr (AsMember iv) \<Rightarrow> redeem_commit E member iv s)"

section \<open>Bindings\<close>

definition ListAccessibleMachines :: "hostenv \<Rightarrow> int \<Rightarrow> store \<Rightarrow> BindingInfo list result" where
  "ListAccessibleMachines E userID s =
    (case ListMachinesByOwner E userID s of
       Inl e \<Rightarrow> Inl e
     | Inr owned \<Rightarrow>
         if e_fault E 1 then Inl (DbErr ''list bindings'')
         else Inr (map (\<lambda>m. \<lparr>bi_machine = m_id m, bi_name = m_name m, bi_owner = m_owner m,
                              bi_role = ''owner'', bi_created = m_created m\<rparr>) owned
                   @ concat (map (\<lambda>b. map (\<lambda>m. \<lparr>bi_machine = b_machine b, bi_name = m_name m,
                                               bi_owner = m_owner m, bi_role = ''member'',
                                               bi_created = b_created b\<rparr>)
                                        (filter (\<lambda>m. m_id m = b_machine b \<and> key_active s (m_key m)) (machines s)))
                        (newest_first b_created
                          (filter (\<lambda>b. b_member b = userID \<and> b_revoked b = None) (bindings s))))))"

definition ListMembers :: "hostenv \<Rightarrow> string \<Rightarrow> int \<Rightarrow> store \<Rightarrow> Binding list result" where
  "ListMembers E mid owner s =
    (case GetMachine E mid s of
       Inl e \<Rightarrow> Inl e
     | Inr None \<Rightarrow> Inl (MsgErr ''machine not found or not owned'')
     | Inr (Some m) \<Rightarrow>
         if m_owner m \<noteq> owner then Inl (MsgErr ''machine not found or not owned'')
         else if e_fault E 1 then Inl (DbErr ''list members'')
         else Inr (filter (\<lambda>b. b_machine b = mid \<and> b_revoked b = None) (bindings s)))"

definition revoke_binding :: "hostenv \<Rightarrow> string \<Rightarrow> int \<Rightarrow> store \<Rightarrow> unit result \<times> store" where
  "revoke_binding E mid member s =
    (let hit = (\<lambda>b. b_machine b = mid \<and> b_member b = member \<and> b_revoked b = None) in
     if e_fault E 0 then (Inl (DbErr ''revoke binding''), s)
     else if count_where hit (bindings s) = 0 then (Inl (MsgErr ''binding not found''), s)
     else (Inr (), s\<lparr>bindings := upd_where hit (\<lambda>b. b\<lparr>b_revoked := Some (db_now E)\<rparr>) (bindings s)\<rparr>))"

definition RevokeBindingByMember :: "hostenv \<Rightarrow> int \<Rightarrow> string \<Rightarrow> store \<Rightarrow> unit result \<times> store" where
  "RevokeBindingByMember E member mid s = revoke_binding E mid member s"

definition RevokeMemberByOwner :: "hostenv \<Rightarrow> int \<Rightarrow> string \<Rightarrow> int \<Rightarrow> store \<Rightarrow> unit result \<times> store" where
  "RevokeMemberByOwner E owner mid member s =
    (case GetMachine E mid s of
       Inl e \<Rightarrow> (Inl e, s)
     | Inr None \<Rightarrow> (Inl (MsgErr ''machine not found or not owned''), s)
     | Inr (Some m) \<Rightarrow>
         if m_owner m \<noteq> owner then (Inl (MsgErr ''machine not found or not owned''), s)
         else revoke_binding (shift 1 E) mid member s)"

end
