(* ===== verification/StoreInv.thy ===== *)
theory StoreInv
  imports StoreModel
begin

text \<open>
  The well-formedness invariant of the store and its preservation by every method.
  Each table has its own predicate over its rows (and the rows it refers to), with
  one lemma per kind of write; \<open>store_ok\<close> is their conjunction. \<open>store_op\<close> and
  \<open>store_step\<close> make the writing methods one system of operations, which interprets the
  \<open>invariant_system\<close> interface.
\<close>

section \<open>The tables of the store\<close>

interpretation users_table: table_in_state users users_update
  by unfold_locales simp_all

interpretation keys_table: table_in_state api_keys api_keys_update
  by unfold_locales simp_all

interpretation stats_table: table_in_state owner_stats owner_stats_update
  by unfold_locales simp_all

interpretation sessions_table: table_in_state sessions sessions_update
  by unfold_locales simp_all

interpretation machines_table: table_in_state machines machines_update
  by unfold_locales simp_all

interpretation invites_table: table_in_state invites invites_update
  by unfold_locales simp_all

interpretation bindings_table: table_in_state bindings bindings_update
  by unfold_locales simp_all

section \<open>The invariant\<close>

definition users_ok :: "User list \<Rightarrow> int \<Rightarrow> bool" where
  "users_ok t n \<longleftrightarrow> distinct (map u_id t) \<and> distinct (map u_github t) \<and> 0 \<le> n
     \<and> (\<forall>u \<in> set t. 0 < u_id u \<and> u_id u \<le> n)"

definition keys_ok :: "APIKey list \<Rightarrow> int \<Rightarrow> bool" where
  "keys_ok t n \<longleftrightarrow> distinct (map k_id t) \<and> distinct (map k_hash t) \<and> 0 \<le> n
     \<and> (\<forall>k \<in> set t. 0 < k_id k \<and> k_id k \<le> n \<and> k_scope k \<noteq> ''donor'')"

definition machines_ok :: "Machine list \<Rightarrow> bool" where
  "machines_ok t \<longleftrightarrow> distinct (map m_id t) \<and> distinct (map m_key t)"

definition owned_by :: "Machine list \<Rightarrow> string \<Rightarrow> int \<Rightarrow> bool" where
  "owned_by ms mid owner \<longleftrightarrow> (\<exists>m \<in> set ms. m_id m = mid \<and> m_owner m = owner)"

text \<open>
  An invite has between one and ten uses, never more used than allowed, and was made by
  the owner of its machine.
\<close>

definition invites_ok :: "Machine list \<Rightarrow> Invite list \<Rightarrow> int \<Rightarrow> bool" where
  "invites_ok ms t n \<longleftrightarrow> distinct (map i_id t) \<and> distinct (map i_pin_hash t) \<and> 0 \<le> n
     \<and> (\<forall>i \<in> set t. 0 < i_id i \<and> i_id i \<le> n \<and> 1 \<le> i_max_uses i \<and> i_max_uses i \<le> 10
          \<and> 0 \<le> i_uses i \<and> i_uses i \<le> i_max_uses i \<and> owned_by ms (i_machine i) (i_owner i))"

definition admits :: "Invite list \<Rightarrow> Binding \<Rightarrow> bool" where
  "admits is b \<longleftrightarrow> (\<exists>i \<in> set is. b_invite b = Some (i_id i) \<and> i_machine i = b_machine b
     \<and> i_owner i \<noteq> b_member b)"

text \<open>A binding came from an invite to its machine, and is never the owner's own.\<close>

definition bindings_ok :: "Invite list \<Rightarrow> Binding list \<Rightarrow> int \<Rightarrow> bool" where
  "bindings_ok is t n \<longleftrightarrow> distinct (map b_id t) \<and> distinct (map (\<lambda>b. (b_machine b, b_member b)) t)
     \<and> 0 \<le> n \<and> (\<forall>b \<in> set t. 0 < b_id b \<and> b_id b \<le> n \<and> admits is b)"

text \<open>No invite has admitted more members than it counted uses.\<close>

definition admission_ok :: "Invite list \<Rightarrow> Binding list \<Rightarrow> bool" where
  "admission_ok is bs \<longleftrightarrow>
     (\<forall>i \<in> set is. int (count_where (\<lambda>b. b_invite b = Some (i_id i)) bs) \<le> i_uses i)"

definition store_ok :: "store \<Rightarrow> bool" where
  "store_ok s \<longleftrightarrow> users_ok (users s) (seq_users s) \<and> keys_ok (api_keys s) (seq_keys s)
     \<and> distinct (map os_user (owner_stats s)) \<and> distinct (map se_token (sessions s))
     \<and> machines_ok (machines s) \<and> invites_ok (machines s) (invites s) (seq_invites s)
     \<and> bindings_ok (invites s) (bindings s) (seq_bindings s)
     \<and> admission_ok (invites s) (bindings s)"

lemma store_ok_empty: "store_ok empty_store"
  by (simp add: store_ok_def empty_store_def users_ok_def keys_ok_def machines_ok_def
      invites_ok_def bindings_ok_def admission_ok_def)

section \<open>Writes keep the tables well formed\<close>

lemma users_ok_login [inv_intros]:
  "users_ok t n \<Longrightarrow> users_ok (upd_where P (\<lambda>u. u\<lparr>u_login := l\<rparr>) t) n"
  by (simp add: users_ok_def map_upd_where ball_upd_where)

lemma users_ok_insert [inv_intros]:
  assumes "users_ok t n" and "\<forall>u \<in> set t. u_github u \<noteq> g"
  shows "users_ok (t @ [\<lparr>u_id = n + 1, u_github = g, u_login = l, u_created = c\<rparr>]) (n + 1)"
  using assms by (fastforce simp: users_ok_def)

lemma keys_ok_revoke [inv_intros]:
  "keys_ok t n \<Longrightarrow> keys_ok (upd_where P (\<lambda>k. k\<lparr>k_revoked := r\<rparr>) t) n"
  by (simp add: keys_ok_def map_upd_where ball_upd_where)

lemma normalizeScope_not_donor [simp]: "normalizeScope x \<noteq> ''donor''"
  by (simp add: normalizeScope_def)

lemma keys_ok_insert [inv_intros]:
  assumes "keys_ok t n" and "\<forall>k \<in> set t. k_hash k \<noteq> h"
  shows "keys_ok (t @ [\<lparr>k_id = n + 1, k_user = u, k_hash = h, k_prefix = p,
    k_scope = normalizeScope sc, k_created = c, k_revoked = r\<rparr>]) (n + 1)"
  using assms by (fastforce simp: keys_ok_def)

lemma machines_ok_rename [inv_intros]:
  "machines_ok t \<Longrightarrow> machines_ok (upd_where P (\<lambda>m. m\<lparr>m_name := x, m_updated := y\<rparr>) t)"
  by (simp add: machines_ok_def map_upd_where)

lemma machines_ok_insert [inv_intros]:
  assumes "machines_ok t" and "\<forall>m \<in> set t. m_id m \<noteq> m_id r \<and> m_key m \<noteq> m_key r"
  shows "machines_ok (t @ [r])"
  using assms by (force simp: machines_ok_def)

lemma owned_by_rename [simp]:
  "owned_by (upd_where P (\<lambda>m. m\<lparr>m_name := x, m_updated := y\<rparr>) ms) mid o' = owned_by ms mid o'"
  by (simp add: owned_by_def bex_upd_where cong: conj_cong if_cong)

lemma owned_by_append: "owned_by ms mid o' \<Longrightarrow> owned_by (ms @ ms') mid o'"
  by (auto simp: owned_by_def)

lemma invites_ok_rename [inv_intros]:
  "invites_ok ms t n \<Longrightarrow> invites_ok (upd_where P (\<lambda>m. m\<lparr>m_name := x, m_updated := y\<rparr>) ms) t n"
  by (simp add: invites_ok_def)

lemma invites_ok_machine [inv_intros]: "invites_ok ms t n \<Longrightarrow> invites_ok (ms @ ms') t n"
  by (simp add: invites_ok_def owned_by_append)

lemma invites_ok_revoke [inv_intros]:
  "invites_ok ms t n \<Longrightarrow> invites_ok ms (upd_where P (\<lambda>i. i\<lparr>i_revoked := r\<rparr>) t) n"
  by (simp add: invites_ok_def map_upd_where ball_upd_where)

lemma invites_ok_use [inv_intros]:
  assumes "invites_ok ms t n" and "\<And>i. P i \<Longrightarrow> i_uses i < i_max_uses i"
  shows "invites_ok ms (upd_where P (\<lambda>i. i\<lparr>i_uses := i_uses i + 1\<rparr>) t) n"
  using assms by (fastforce simp: invites_ok_def map_upd_where ball_upd_where)

lemma invites_ok_insert [inv_intros]:
  assumes "invites_ok ms t n" and "\<forall>i \<in> set t. i_pin_hash i \<noteq> h" and "owned_by ms mid o'"
  shows "invites_ok ms (t @ [\<lparr>i_id = n + 1, i_machine = mid, i_owner = o', i_pin_hash = h,
    i_pin_prefix = p, i_max_uses = clamp_uses u, i_uses = 0, i_expires = e, i_revoked = None,
    i_created = c, i_label = l\<rparr>]) (n + 1)"
  using assms by (fastforce simp: invites_ok_def clamp_uses_def Let_def)

text \<open>Writes to invites that leave id, machine and owner alone do not change who is admitted.\<close>

lemma admits_update:
  assumes "\<And>i. i_id (f i) = i_id i \<and> i_machine (f i) = i_machine i \<and> i_owner (f i) = i_owner i"
  shows "admits (upd_where P f is) b = admits is b"
  using assms by (simp add: admits_def bex_upd_where if_distrib [of i_id]
      if_distrib [of i_machine] if_distrib [of i_owner] cong: if_cong)

lemma admits_append: "admits is b \<Longrightarrow> admits (is @ js) b"
  by (auto simp: admits_def)

lemma bindings_ok_invites [inv_intros]:
  assumes "bindings_ok is t n"
    and "\<And>i. i_id (f i) = i_id i \<and> i_machine (f i) = i_machine i \<and> i_owner (f i) = i_owner i"
  shows "bindings_ok (upd_where P f is) t n"
  using assms by (simp add: bindings_ok_def admits_update)

lemma bindings_ok_invite [inv_intros]: "bindings_ok is t n \<Longrightarrow> bindings_ok (is @ js) t n"
  by (simp add: bindings_ok_def admits_append)

lemma admits_revoke [simp]: "admits is (b\<lparr>b_revoked := r\<rparr>) = admits is b"
  by (simp add: admits_def)

lemma bindings_ok_revoke [inv_intros]:
  "bindings_ok is t n \<Longrightarrow> bindings_ok is (upd_where P (\<lambda>b. b\<lparr>b_revoked := r\<rparr>) t) n"
  by (simp add: bindings_ok_def map_upd_where ball_upd_where)

lemma admission_ok_revoke_binding [inv_intros]:
  "admission_ok is bs \<Longrightarrow> admission_ok is (upd_where P (\<lambda>b. b\<lparr>b_revoked := r\<rparr>) bs)"
  by (simp add: admission_ok_def count_where_upd_same)

lemma admission_ok_revoke_invite [inv_intros]:
  "admission_ok is bs \<Longrightarrow> admission_ok (upd_where P (\<lambda>i. i\<lparr>i_revoked := r\<rparr>) is) bs"
  by (simp add: admission_ok_def ball_upd_where)

lemma admission_ok_use [inv_intros]:
  "admission_ok is bs \<Longrightarrow> admission_ok (upd_where P (\<lambda>i. i\<lparr>i_uses := i_uses i + 1\<rparr>) is) bs"
  by (fastforce simp: admission_ok_def ball_upd_where)

lemma admission_ok_insert [inv_intros]:
  assumes "admission_ok is bs" and "bindings_ok is bs m" and "invites_ok ms is n"
    and "i_id r = n + 1" and "i_uses r = 0"
  shows "admission_ok (is @ [r]) bs"
proof -
  have "count_where (\<lambda>b. b_invite b = Some (i_id r)) bs = 0"
    unfolding count_where_0
  proof
    fix b assume "b \<in> set bs"
    with assms(2) obtain i where "i \<in> set is" "b_invite b = Some (i_id i)"
      by (auto simp: bindings_ok_def admits_def)
    with assms(3,4) show "b_invite b \<noteq> Some (i_id r)"
      by (force simp: invites_ok_def)
  qed
  with assms(1,5) show ?thesis by (simp add: admission_ok_def)
qed

section \<open>Writing a binding\<close>

lemma bindings_ok_insert [inv_intros]:
  assumes "bindings_ok is t n" and "\<forall>b \<in> set t. \<not> (b_machine b = mid \<and> b_member b = u)"
    and "i \<in> set is" "i_id i = iid" "i_machine i = mid" "i_owner i \<noteq> u"
  shows "bindings_ok is (t @ [\<lparr>b_id = n + 1, b_machine = mid, b_member = u, b_invite = Some iid,
      b_created = c, b_revoked = r\<rparr>]) (n + 1)"
proof -
  have "n + 1 \<notin> b_id ` set t" "0 < n + 1" "\<forall>b \<in> set t. b_id b \<le> n + 1"
    using assms(1) by (fastforce simp: bindings_ok_def)+
  moreover have "(mid, u) \<notin> (\<lambda>b. (b_machine b, b_member b)) ` set t"
    using assms(2) by auto
  moreover have "admits is \<lparr>b_id = n + 1, b_machine = mid, b_member = u, b_invite = Some iid,
      b_created = c, b_revoked = r\<rparr>"
    using assms(3-6) by (auto simp: admits_def)
  ultimately show ?thesis
    using assms(1) by (simp add: bindings_ok_def)
qed

lemma upsert_binding_frame [simp]:
  "users (upsert_binding E mid u iid s) = users s"
  "api_keys (upsert_binding E mid u iid s) = api_keys s"
  "owner_stats (upsert_binding E mid u iid s) = owner_stats s"
  "sessions (upsert_binding E mid u iid s) = sessions s"
  "machines (upsert_binding E mid u iid s) = machines s"
  "invites (upsert_binding E mid u iid s) = invites s"
  "seq_users (upsert_binding E mid u iid s) = seq_users s"
  "seq_keys (upsert_binding E mid u iid s) = seq_keys s"
  "seq_invites (upsert_binding E mid u iid s) = seq_invites s"
  by (simp_all add: upsert_binding_def Let_def)

lemma rebind_simps [simp]:
  "b_id (rebind E iid b) = b_id b" "b_machine (rebind E iid b) = b_machine b"
  "b_member (rebind E iid b) = b_member b" "b_invite (rebind E iid b) = Some iid"
  "b_revoked (rebind E iid b) = None"
  by (simp_all add: rebind_def)

lemma bindings_ok_upsert:
  assumes "bindings_ok (invites s) (bindings s) (seq_bindings s)"
    and "i \<in> set (invites s)" "i_id i = iid" "i_machine i = mid" "i_owner i \<noteq> u"
  shows "bindings_ok (invites s) (bindings (upsert_binding E mid u iid s))
           (seq_bindings (upsert_binding E mid u iid s))"
proof (cases "\<exists>b \<in> set (bindings s). b_machine b = mid \<and> b_member b = u")
  case True
  have adm: "admits (invites s) b'" if "b_machine b' = mid" "b_member b' = u" "b_invite b' = Some iid" for b'
    using assms(2-5) that by (auto simp: admits_def)
  have "bindings_ok (invites s) (upd_where (\<lambda>b. b_machine b = mid \<and> b_member b = u)
      (rebind E iid) (bindings s)) (seq_bindings s)"
    using assms(1) adm by (simp add: bindings_ok_def map_upd_where ball_upd_where)
  with True show ?thesis by (simp add: upsert_binding_def)
next
  case False
  then have no: "(\<exists>b \<in> set (bindings s). b_machine b = mid \<and> b_member b = u) = False"
    by simp
  from False have "\<forall>b \<in> set (bindings s). \<not> (b_machine b = mid \<and> b_member b = u)"
    by blast
  from bindings_ok_insert [OF assms(1) this assms(2-5)] show ?thesis
    unfolding upsert_binding_def Let_def no by simp
qed

lemma count_upsert:
  assumes "distinct (map (\<lambda>b. (b_machine b, b_member b)) (bindings s))"
  shows "count_where (\<lambda>b. b_invite b = Some j) (bindings (upsert_binding E mid u iid s))
    \<le> count_where (\<lambda>b. b_invite b = Some j) (bindings s) + (if j = iid then 1 else 0)"
proof -
  let ?hit = "\<lambda>b. b_machine b = mid \<and> b_member b = u"
  have upd: "count_where (\<lambda>b. b_invite b = Some j) (upd_where ?hit (rebind E iid) t)
      \<le> count_where (\<lambda>b. b_invite b = Some j) t + (if j = iid then count_where ?hit t else 0)" for t
    by (induction t) auto
  have one: "count_where ?hit (bindings s) \<le> 1"
    using count_where_unique [OF assms, of "(mid, u)" "\<lambda>_. True"] by simp
  show ?thesis
    using upd [of "bindings s"] one
    by (auto simp: upsert_binding_def Let_def)
qed

lemma admission_ok_redeem:
  assumes "admission_ok is (bindings s)"
    and "distinct (map (\<lambda>b. (b_machine b, b_member b)) (bindings s))"
    and "\<And>i. i \<in> set is \<Longrightarrow> i_id i = iid \<Longrightarrow> P i"
  shows "admission_ok (upd_where P (\<lambda>i. i\<lparr>i_uses := i_uses i + 1\<rparr>) is)
           (bindings (upsert_binding E mid u iid s))"
  unfolding admission_ok_def ball_upd_where
proof
  fix i assume i: "i \<in> set is"
  have "int (count_where (\<lambda>b. b_invite b = Some (i_id i)) (bindings (upsert_binding E mid u iid s)))
      \<le> int (count_where (\<lambda>b. b_invite b = Some (i_id i)) (bindings s)) + (if i_id i = iid then 1 else 0)"
    using count_upsert [OF assms(2), of "i_id i" E mid u iid] by auto
  also have "\<dots> \<le> i_uses i + (if i_id i = iid then 1 else 0)"
    using assms(1) i by (simp add: admission_ok_def)
  also have "\<dots> \<le> i_uses (if P i then i\<lparr>i_uses := i_uses i + 1\<rparr> else i)"
    using assms(3) [OF i] by auto
  finally show "int (count_where (\<lambda>b. b_invite b = Some (i_id (if P i
      then i\<lparr>i_uses := i_uses i + 1\<rparr> else i))) (bindings (upsert_binding E mid u iid s)))
      \<le> i_uses (if P i then i\<lparr>i_uses := i_uses i + 1\<rparr> else i)"
    by (simp split: if_splits)
qed

section \<open>Every method keeps the invariant\<close>

text \<open>
  Each method leaves the state alone on its error paths and otherwise makes one or two of the
  writes above. The proofs unfold the method and let the introduction rules for the
  tables decide.
\<close>

lemma UpsertUser_ok: "store_ok s \<Longrightarrow> store_ok (snd (UpsertUser E g l s))"
  by (auto simp: UpsertUser_def store_ok_def Let_def intro!: inv_intros split: option.splits)

lemma CreateSession_ok: "store_ok s \<Longrightarrow> store_ok (snd (CreateSession E r u s))"
  by (auto simp: CreateSession_def store_ok_def Let_def split: option.splits)

lemma distinct_map_filter_se: "distinct (map k t) \<Longrightarrow> distinct (map k (filter P t))"
  by (rule distinct_map_filter)

lemma DeleteSession_ok: "store_ok s \<Longrightarrow> store_ok (snd (DeleteSession E t s))"
  by (auto simp: DeleteSession_def store_ok_def distinct_map_filter)

lemma CreateKey_ok: "store_ok s \<Longrightarrow> store_ok (snd (CreateKey E r u sc s))"
  by (auto simp: CreateKey_def store_ok_def Let_def intro!: inv_intros split: option.splits)

lemma RevokeKey_ok: "store_ok s \<Longrightarrow> store_ok (snd (RevokeKey E u k s))"
  by (auto simp: RevokeKey_def store_ok_def Let_def intro!: inv_intros)

lemma EnsureConsumerKey_ok: "store_ok s \<Longrightarrow> store_ok (snd (EnsureConsumerKey E r u s))"
  using CreateKey_ok [of s "shift 1 E" r u "''consumer''"]
  by (auto simp: EnsureConsumerKey_def split: sum.splits option.splits prod.splits)

lemma UpdateOwnerStats_ok: "store_ok s \<Longrightarrow> store_ok (snd (UpdateOwnerStats E u a b c s))"
  by (auto simp: UpdateOwnerStats_def store_ok_def map_upd_where)

text \<open>The three effects of \<open>UpsertMachineByProviderKey\<close> on the state.\<close>

lemma UpsertMachine_state:
  obtains (same) "snd (UpsertMachineByProviderKey E r u k n s) = s"
    | (renamed) ex :: Machine where "snd (UpsertMachineByProviderKey E r u k n s)
        = s\<lparr>machines := upd_where (\<lambda>m. m_id m = m_id ex)
             (\<lambda>m. m\<lparr>m_name := n, m_updated := db_now E\<rparr>) (machines s)\<rparr>"
    | (created) mid nm where "snd (UpsertMachineByProviderKey E r u k n s)
        = s\<lparr>machines := machines s @ [\<lparr>m_id = mid, m_owner = u, m_key = k,
             m_name = nm, m_created = db_now E, m_updated = db_now E\<rparr>]\<rparr>"
        "\<forall>m \<in> set (machines s). m_id m \<noteq> mid \<and> m_key m \<noteq> k"
proof (cases "GetMachineByProviderKeyID E k s")
  case (Inl e)
  then show ?thesis by (intro same) (simp add: UpsertMachineByProviderKey_def)
next
  case (Inr mo)
  show ?thesis
  proof (cases mo)
    case (Some ex)
    show ?thesis
    proof (cases "n \<noteq> '''' \<and> n \<noteq> m_name ex \<and> \<not> e_fault E 1")
      case True
      with Inr Some show ?thesis by (intro renamed [of ex]) (simp add: UpsertMachineByProviderKey_def)
    next
      case False
      with Inr Some show ?thesis by (intro same) (auto simp: UpsertMachineByProviderKey_def)
    qed
  next
    case None
    show ?thesis
    proof (cases "generateMachineID r")
      case gen: None
      with Inr None show ?thesis by (intro same) (simp add: UpsertMachineByProviderKey_def)
    next
      case (Some mid)
      let ?bad = "e_fault E 1 \<or> (\<exists>m \<in> set (machines s). m_id m = mid \<or> m_key m = k)
                 \<or> (e_fk E \<and> (\<not> has_user s u \<or> \<not> has_key s k))"
      show ?thesis
      proof (cases ?bad)
        case True
        with Inr None Some show ?thesis
          by (intro same) (simp add: UpsertMachineByProviderKey_def split: sum.split option.split)
      next
        case False
        with Inr None Some show ?thesis
          by (intro created [of mid "if n = '''' then ''machine'' else n"]) (auto simp: UpsertMachineByProviderKey_def Let_def)
      qed
    qed
  qed
qed

lemma UpsertMachineByProviderKey_ok:
  assumes ok: "store_ok s"
  shows "store_ok (snd (UpsertMachineByProviderKey E r u k n s))"
proof (cases rule: UpsertMachine_state [of E r u k n s])
  case same
  with ok show ?thesis by simp
next
  case (renamed ex)
  with ok show ?thesis by (auto simp: store_ok_def intro!: inv_intros)
next
  case (created mid nm)
  with ok show ?thesis by (auto simp: store_ok_def intro!: inv_intros)
qed

lemma RetireMachine_ok: "store_ok s \<Longrightarrow> store_ok (snd (RetireMachine E m s))"
  by (auto simp: RetireMachine_def store_ok_def Let_def intro!: inv_intros)

lemma RetireMachineByProviderKeyID_ok:
  "store_ok s \<Longrightarrow> store_ok (snd (RetireMachineByProviderKeyID E k s))"
  by (auto simp: RetireMachineByProviderKeyID_def RetireMachine_ok split: sum.splits option.splits)

lemma GetMachine_Some:
  "GetMachine E mid s = Inr (Some m) \<Longrightarrow> m \<in> set (machines s) \<and> m_id m = mid"
  by (auto simp: GetMachine_def dest: find_SomeD split: if_splits)

lemma CreateInvite_ok: "store_ok s \<Longrightarrow> store_ok (snd (CreateInvite E r m u mx t l s))"
proof -
  assume ok: "store_ok s"
  have owned: "owned_by (machines s) m (m_owner q)" if "GetMachine E m s = Inr (Some q)" for q
    using GetMachine_Some [OF that] by (auto simp: owned_by_def)
  from ok show ?thesis
    by (auto simp: CreateInvite_def store_ok_def Let_def intro!: inv_intros dest: owned
        split: sum.splits option.splits)
qed

lemma RevokeInvite_ok: "store_ok s \<Longrightarrow> store_ok (snd (RevokeInvite E u i s))"
  by (auto simp: RevokeInvite_def store_ok_def Let_def intro!: inv_intros)

lemma revoke_binding_ok: "store_ok s \<Longrightarrow> store_ok (snd (revoke_binding E m u s))"
  by (auto simp: revoke_binding_def store_ok_def Let_def intro!: inv_intros)

lemma RevokeBindingByMember_ok: "store_ok s \<Longrightarrow> store_ok (snd (RevokeBindingByMember E u m s))"
  by (simp add: RevokeBindingByMember_def revoke_binding_ok)

lemma RevokeMemberByOwner_ok: "store_ok s \<Longrightarrow> store_ok (snd (RevokeMemberByOwner E o' m u s))"
  by (auto simp: RevokeMemberByOwner_def revoke_binding_ok split: sum.splits option.splits)

lemma redeem_owner_ok: "store_ok s \<Longrightarrow> store_ok (snd (redeem_owner E iv s))"
  by (auto simp: redeem_owner_def store_ok_def intro!: inv_intros)

text \<open>What the read phase guarantees about the invite it returns.\<close>

definition plan_ok :: "store \<Rightarrow> int \<Rightarrow> redeem_plan \<Rightarrow> bool" where
  "plan_ok s u p = (case p of
       AsOwner iv \<Rightarrow> \<exists>i \<in> set (invites s). i_id i = i_id iv \<and> i_machine i = i_machine iv
         \<and> owned_by (machines s) (i_machine iv) u
     | AsMember iv \<Rightarrow> \<exists>i \<in> set (invites s). i_id i = i_id iv \<and> i_machine i = i_machine iv \<and> i_owner i \<noteq> u)"

lemma redeem_lookup_plan_ok:
  assumes "store_ok s" and "redeem_lookup E u pin s = Inr p"
  shows "plan_ok s u p"
proof -
  obtain iv m where iv: "iv \<in> set (invites s)" and m: "m \<in> set (machines s)" "m_id m = i_machine iv"
    and p: "p = (if m_owner m = u then AsOwner iv else AsMember iv)"
    using assms(2)
    by (auto simp: redeem_lookup_def Let_def dest!: find_SomeD GetMachine_Some
        split: if_splits option.splits sum.splits)
  have "owned_by (machines s) (i_machine iv) (i_owner iv)"
    using assms(1) iv by (simp add: store_ok_def invites_ok_def)
  then have "i_owner iv = m_owner m"
    using assms(1) m by (auto simp: owned_by_def store_ok_def machines_ok_def dest: distinct_map_eq)
  with iv m p show ?thesis by (auto simp: plan_ok_def owned_by_def)
qed

lemma redeem_commit_ok:
  assumes ok: "store_ok s" and plan: "plan_ok s u (AsMember iv)"
  shows "store_ok (snd (redeem_commit E u iv s))"
proof -
  let ?hit = "\<lambda>i. i_id i = i_id iv \<and> i_uses i < i_max_uses i \<and> i_revoked i = None"
  define s1 where "s1 = s\<lparr>invites := upd_where ?hit (\<lambda>i. i\<lparr>i_uses := i_uses i + 1\<rparr>) (invites s)\<rparr>"
  let ?s2 = "upsert_binding E (i_machine iv) u (i_id iv) s1"
  have "store_ok ?s2" if pos: "count_where ?hit (invites s) \<noteq> 0"
  proof -
    have inv1: "invites_ok (machines s) (invites s1) (seq_invites s)"
      using ok by (auto simp: s1_def store_ok_def intro!: inv_intros)
    have b1: "bindings_ok (invites s1) (bindings s1) (seq_bindings s1)"
      using ok by (auto simp: s1_def store_ok_def intro!: inv_intros)
    obtain i where i: "i \<in> set (invites s1)" "i_id i = i_id iv" "i_machine i = i_machine iv" "i_owner i \<noteq> u"
    proof -
      have "\<exists>i \<in> set (invites s1). i_id i = i_id iv \<and> i_machine i = i_machine iv \<and> i_owner i \<noteq> u"
        using plan by (auto simp: s1_def plan_ok_def bex_upd_where split: if_splits)
      then show ?thesis using that by blast
    qed
    have b2: "bindings_ok (invites s1) (bindings ?s2) (seq_bindings ?s2)"
      by (rule bindings_ok_upsert [OF b1 i])
    obtain j where j: "j \<in> set (invites s)" "?hit j"
      using pos by (auto simp: count_where_0)
    have adm: "admission_ok (invites s1) (bindings ?s2)"
    proof -
      have "admission_ok (invites s) (bindings s1)" "distinct (map (\<lambda>b. (b_machine b, b_member b)) (bindings s1))"
        using ok by (simp_all add: s1_def store_ok_def bindings_ok_def)
      moreover have "?hit k" if "k \<in> set (invites s)" "i_id k = i_id iv" for k
      proof -
        have "distinct (map i_id (invites s))" using ok by (simp add: store_ok_def invites_ok_def)
        then have "k = j" using that j by (auto dest: distinct_map_eq)
        with j show ?thesis by simp
      qed
      ultimately show ?thesis
        using admission_ok_redeem [of "invites s" s1 "i_id iv" ?hit E "i_machine iv" u]
        by (simp add: s1_def)
    qed
    show ?thesis
      using ok inv1 b2 adm by (simp add: store_ok_def) (simp add: s1_def)
  qed
  with ok show ?thesis
    by (simp add: redeem_commit_def Let_def s1_def [symmetric])
qed

lemma RedeemPIN_ok: "store_ok s \<Longrightarrow> store_ok (snd (RedeemPIN E u pin s))"
  by (auto simp: RedeemPIN_def redeem_owner_ok intro!: redeem_commit_ok dest: redeem_lookup_plan_ok
      split: sum.splits redeem_plan.splits)

section \<open>The store as a system of operations\<close>

datatype store_op =
    OpUpsertUser int string
  | OpCreateSession "string option" int
  | OpDeleteSession string
  | OpCreateKey "string option" int string
  | OpRevokeKey int int
  | OpEnsureConsumerKey "string option" int
  | OpUpdateOwnerStats int int int int
  | OpUpsertMachine "string option" int int string
  | OpRetireMachine string
  | OpRetireMachineByKey int
  | OpCreateInvite "string option" string int int int string
  | OpRevokeInvite int int
  | OpRedeemPIN int string
  | OpRevokeBinding int string
  | OpRevokeMember int string int

fun store_step :: "hostenv \<times> store_op \<Rightarrow> store \<Rightarrow> store" where
  "store_step (E, OpUpsertUser g l) s = snd (UpsertUser E g l s)"
| "store_step (E, OpCreateSession r u) s = snd (CreateSession E r u s)"
| "store_step (E, OpDeleteSession t) s = snd (DeleteSession E t s)"
| "store_step (E, OpCreateKey r u sc) s = snd (CreateKey E r u sc s)"
| "store_step (E, OpRevokeKey u k) s = snd (RevokeKey E u k s)"
| "store_step (E, OpEnsureConsumerKey r u) s = snd (EnsureConsumerKey E r u s)"
| "store_step (E, OpUpdateOwnerStats u a b c) s = snd (UpdateOwnerStats E u a b c s)"
| "store_step (E, OpUpsertMachine r u k n) s = snd (UpsertMachineByProviderKey E r u k n s)"
| "store_step (E, OpRetireMachine m) s = snd (RetireMachine E m s)"
| "store_step (E, OpRetireMachineByKey k) s = snd (RetireMachineByProviderKeyID E k s)"
| "store_step (E, OpCreateInvite r m u mx t l) s = snd (CreateInvite E r m u mx t l s)"
| "store_step (E, OpRevokeInvite u i) s = snd (RevokeInvite E u i s)"
| "store_step (E, OpRedeemPIN u p) s = snd (RedeemPIN E u p s)"
| "store_step (E, OpRevokeBinding u m) s = snd (RevokeBindingByMember E u m s)"
| "store_step (E, OpRevokeMember w m u) s = snd (RevokeMemberByOwner E w m u s)"

lemmas store_ops_ok = UpsertUser_ok CreateSession_ok DeleteSession_ok CreateKey_ok RevokeKey_ok
  EnsureConsumerKey_ok UpdateOwnerStats_ok UpsertMachineByProviderKey_ok RetireMachine_ok
  RetireMachineByProviderKeyID_ok CreateInvite_ok RevokeInvite_ok RedeemPIN_ok
  RevokeBindingByMember_ok RevokeMemberByOwner_ok

interpretation store_system: invariant_system store_step store_ok
proof unfold_locales
  fix s :: store and op :: "hostenv \<times> store_op"
  assume "store_ok s"
  then show "store_ok (store_step op s)"
    by (cases "(op, s)" rule: store_step.cases) (simp_all add: store_ops_ok)
qed

end
