(* ===== verification/Demo.thy ===== *)
theory Demo
  imports StoreInv
begin

text \<open>
  Concrete states on which the theorems about the store are applied: an owner with one
  machine and one open invite, and the same store after another user redeemed it.
\<close>

lemma demo_env_simps [simp]:
  "e_now demo_env = 1700000000000000000" "e_fault demo_env k = False" "e_fk demo_env = True"
  by (simp_all add: demo_env_def second_def)

lemma demo_db_now [simp]: "db_now demo_env = 1700000000"
  unfolding db_now_def by (simp add: second_def)

definition demo_invite :: Invite where
  "demo_invite = \<lparr>i_id = 1, i_machine = ''mch_1'', i_owner = 1,
     i_pin_hash = hashPIN demo_env ''3456-789A'', i_pin_prefix = ''3456'', i_max_uses = 2, i_uses = 0,
     i_expires = 1700600000, i_revoked = None, i_created = 1700000000, i_label = None\<rparr>"

definition demo_store :: store where
  "demo_store = \<lparr>users = [\<lparr>u_id = 1, u_github = 11, u_login = ''ann'', u_created = 0\<rparr>,
       \<lparr>u_id = 2, u_github = 12, u_login = ''bob'', u_created = 0\<rparr>],
     api_keys = [\<lparr>k_id = 1, k_user = 1, k_hash = hashKey demo_env ''inf_00'', k_prefix = ''inf_1'', k_scope = ''provider'',
       k_created = 0, k_revoked = None\<rparr>],
     owner_stats = [], sessions = [],
     machines = [\<lparr>m_id = ''mch_1'', m_owner = 1, m_key = 1, m_name = ''box'', m_created = 0, m_updated = 0\<rparr>],
     invites = [demo_invite], bindings = [],
     seq_users = 2, seq_keys = 1, seq_invites = 1, seq_bindings = 0\<rparr>"

lemma demo_store_ok: "store_ok demo_store"
  by (simp add: store_ok_def demo_store_def demo_invite_def users_ok_def keys_ok_def machines_ok_def
      invites_ok_def bindings_ok_def admission_ok_def owned_by_def)

text \<open>The PIN of the demo invite, as typed, and its normal form.\<close>

lemma demo_pin: "generatePIN (Some (map char_of [1::nat, 2, 3, 4, 5, 6, 7, 8])) = Some ''3456-789A''"
  by (simp add: generatePIN_def pin_char_def pinAlphabet_def)

lemma demo_pin_normal [simp]: "normalizePIN E ''3456-789A'' = ''3456-789A''"
  by (rule generatePIN_normal [OF demo_pin])

lemma demo_pin_valid [simp]: "validPINFormat E ''3456-789A''"
  by (simp add: validPINFormat_def pinAlphabet_def upt_rec)

lemma demo_lookup: "redeem_lookup demo_env 2 ''3456-789A'' demo_store = Inr (AsMember demo_invite)"
  by (simp add: redeem_lookup_def demo_store_def demo_invite_def GetMachine_def Let_def)
    (simp add: second_def)

definition demo_bound :: store where
  "demo_bound = store_step (demo_env, OpRedeemPIN 2 ''3456-789A'') demo_store"

lemma demo_bound_eq: "demo_bound = demo_store\<lparr>invites := [demo_invite\<lparr>i_uses := 1\<rparr>],
    bindings := [\<lparr>b_id = 1, b_machine = ''mch_1'', b_member = 2, b_invite = Some 1,
      b_created = db_now demo_env, b_revoked = None\<rparr>], seq_bindings := 1\<rparr>"
  by (simp add: demo_bound_def RedeemPIN_def demo_lookup redeem_commit_def Let_def)
    (simp add: demo_store_def demo_invite_def has_user_def upsert_binding_def)

lemma demo_bound_ok: "store_ok demo_bound"
  unfolding demo_bound_def by (rule store_system.step_inv) (rule demo_store_ok)

end
