(* ===== verification/Access.thy ===== *)
theory Access
  imports Demo
begin

text \<open>
  Who may use a machine. The abstract specification is \<open>may_use\<close>: the owner with an
  active provider key, or a member with an active binding. \<open>CanAccessMachine\<close> computes it;
  only redeeming a PIN grants it to a member, and revoking takes it away. The \<open>access_interface\<close>
  locale states the contract the request handlers rely on.
\<close>

section \<open>The access relation\<close>

definition member_access :: "store \<Rightarrow> int \<Rightarrow> string \<Rightarrow> bool" where
  "member_access s u mid \<longleftrightarrow>
     (\<exists>b \<in> set (bindings s). b_machine b = mid \<and> b_member b = u \<and> b_revoked b = None)"

definition may_use :: "store \<Rightarrow> int \<Rightarrow> string \<Rightarrow> bool" where
  "may_use s u mid \<longleftrightarrow> (\<exists>m \<in> set (machines s). m_id m = mid
     \<and> (if m_owner m = u then key_active s (m_key m) else member_access s u mid))"

lemma find_key_active:
  assumes "distinct (map k_id (api_keys s))"
  shows "(case List.find (\<lambda>k. k_id k = i) (api_keys s) of None \<Rightarrow> False | Some k \<Rightarrow> k_revoked k = None)
    = key_active s i"
proof (cases "List.find (\<lambda>k. k_id k = i) (api_keys s)")
  case None
  then have "\<not> key_active s i" by (auto simp: key_active_def find_None_iff_ball)
  with None show ?thesis by simp
next
  case (Some k)
  then have k: "k \<in> set (api_keys s)" "k_id k = i" by (auto dest: find_SomeD)
  have "q = k" if "q \<in> set (api_keys s)" "k_id q = i" for q
    by (rule distinct_map_eq [OF assms that(1) k(1)]) (simp add: that k)
  with k have "key_active s i \<longleftrightarrow> k_revoked k = None"
    unfolding key_active_def by blast
  with Some show ?thesis by simp
qed

lemma machine_unique:
  assumes "store_ok s" "m \<in> set (machines s)" "q \<in> set (machines s)" "m_id m = m_id q"
  shows "m = q"
  using assms distinct_map_eq by (auto simp: store_ok_def machines_ok_def)

lemma invite_owner:
  assumes ok: "store_ok s" and i: "i \<in> set (invites s)"
    and m: "m \<in> set (machines s)" "m_id m = i_machine i"
  shows "m_owner m = i_owner i"
proof -
  obtain q where "q \<in> set (machines s)" "m_id q = i_machine i" "m_owner q = i_owner i"
    using ok i by (auto simp: store_ok_def invites_ok_def owned_by_def)
  with machine_unique [OF ok m(1)] m(2) show ?thesis by simp
qed

lemma find_machine:
  "store_ok s \<Longrightarrow> m \<in> set (machines s) \<Longrightarrow> List.find (\<lambda>q. m_id q = m_id m) (machines s) = Some m"
  by (rule distinct_find) (simp add: store_ok_def machines_ok_def)

lemma can_access:
  assumes "store_ok s"
  shows "(e_fault E 0 \<or> e_fault E 1 \<or> CanAccessMachine E u mid s = Inr (may_use s u mid))
    \<and> (CanAccessMachine E u mid s = Inr True \<longrightarrow> may_use s u mid)"
proof (cases "List.find (\<lambda>m. m_id m = mid) (machines s)")
  case None
  then have "\<not> may_use s u mid"
    by (auto simp: may_use_def find_None_iff_ball)
  with None show ?thesis
    by (simp add: CanAccessMachine_def GetMachine_def)
next
  case (Some m)
  then have m: "m \<in> set (machines s)" "m_id m = mid" by (auto dest: find_SomeD)
  then have mu: "may_use s u mid
      \<longleftrightarrow> (if m_owner m = u then key_active s (m_key m) else member_access s u mid)"
    using machine_unique [OF assms] by (auto simp: may_use_def)
  have ma: "0 < count_where (\<lambda>b. b_machine b = mid \<and> b_member b = u \<and> b_revoked b = None) (bindings s)
      \<longleftrightarrow> member_access s u mid"
    by (auto simp: count_where_pos member_access_def)
  have ka: "(case List.find (\<lambda>k. k_id k = m_key m) (api_keys s) of
        None \<Rightarrow> Inr False | Some k \<Rightarrow> Inr (k_revoked k = None)) = Inr (key_active s (m_key m))"
    using find_key_active [of s "m_key m"] assms
    by (auto simp: store_ok_def keys_ok_def split: option.splits)
  show ?thesis
    using Some ma ka by (auto simp: CanAccessMachine_def GetMachine_def mu)
qed

text \<open>
  C1: \<open>CanAccessMachine\<close> decides the access specification: when the two statements run, the
  answer is exactly whether the user owns the machine with an active provider key, or
  is another user with an active binding; and whatever fails, it never answers
  \<open>True\<close> for a user the specification does not admit.
\<close>

theorem can_access_exact:
  assumes "store_ok s"
  shows "(e_fault E 0 \<or> e_fault E 1 \<or> CanAccessMachine E u mid s = Inr (may_use s u mid))
    \<and> (CanAccessMachine E u mid s = Inr True \<longrightarrow> may_use s u mid)"
  by (rule can_access [OF assms])

theorem can_access_exact_witness:
  "may_use demo_bound 2 ''mch_1'' \<and> CanAccessMachine demo_env 2 ''mch_1'' demo_bound = Inr True"
proof -
  have "may_use demo_bound 2 ''mch_1''"
    by (simp add: may_use_def member_access_def demo_bound_eq) (simp add: demo_store_def)
  then show ?thesis
    using can_access_exact [OF demo_bound_ok, of demo_env 2 "''mch_1''"] by simp
qed

section \<open>What changes bindings\<close>

named_theorems bindings_frame "operations that leave the bindings alone"

lemma UpsertUser_bindings [bindings_frame]: "bindings (snd (UpsertUser E g l s)) = bindings s"
  by (simp add: UpsertUser_def Let_def split: option.split)

lemma CreateSession_bindings [bindings_frame]: "bindings (snd (CreateSession E r u s)) = bindings s"
  by (simp add: CreateSession_def split: option.split)

lemma DeleteSession_bindings [bindings_frame]: "bindings (snd (DeleteSession E t s)) = bindings s"
  by (simp add: DeleteSession_def)

lemma CreateKey_bindings [bindings_frame]: "bindings (snd (CreateKey E r u sc s)) = bindings s"
  by (simp add: CreateKey_def Let_def split: option.split)

lemma RevokeKey_bindings [bindings_frame]: "bindings (snd (RevokeKey E u k s)) = bindings s"
  by (simp add: RevokeKey_def Let_def)

lemma EnsureConsumerKey_bindings [bindings_frame]:
  "bindings (snd (EnsureConsumerKey E r u s)) = bindings s"
  using CreateKey_bindings [of "shift 1 E" r u "''consumer''" s]
  by (auto simp: EnsureConsumerKey_def split: sum.split option.split prod.split)

lemma UpdateOwnerStats_bindings [bindings_frame]:
  "bindings (snd (UpdateOwnerStats E u a b c s)) = bindings s"
  by (simp add: UpdateOwnerStats_def)

lemma UpsertMachine_bindings [bindings_frame]:
  "bindings (snd (UpsertMachineByProviderKey E r u k n s)) = bindings s"
  by (cases rule: UpsertMachine_state [of E r u k n s]) simp_all

lemma CreateInvite_bindings [bindings_frame]:
  "bindings (snd (CreateInvite E r m u mx t l s)) = bindings s"
  by (simp add: CreateInvite_def Let_def split: sum.split option.split)

lemma RevokeInvite_bindings [bindings_frame]: "bindings (snd (RevokeInvite E u i s)) = bindings s"
  by (simp add: RevokeInvite_def Let_def)

text \<open>Revoking rows of a table of bindings only removes access.\<close>

lemma member_access_frame: "bindings s' = bindings s \<Longrightarrow> member_access s' u mid = member_access s u mid"
  by (simp add: member_access_def)

lemmas access_frame = bindings_frame [THEN member_access_frame]

lemma member_access_revoke:
  "member_access (s\<lparr>bindings := upd_where P (\<lambda>b. b\<lparr>b_revoked := Some t\<rparr>) (bindings s)\<rparr>) u mid
    \<Longrightarrow> member_access s u mid"
  by (auto simp: member_access_def bex_upd_where split: if_splits)

lemma member_access_cong: "bindings s = bindings s' \<Longrightarrow> member_access s u mid = member_access s' u mid"
  by (simp add: member_access_def)

lemma revoke_binding_access:
  "member_access (snd (revoke_binding E m v s)) u mid \<Longrightarrow> member_access s u mid"
  by (auto simp: revoke_binding_def Let_def dest: member_access_revoke split: if_splits)

lemma RetireMachine_access:
  "member_access (snd (RetireMachine E m s)) u mid \<Longrightarrow> member_access s u mid"
  by (auto simp: RetireMachine_def Let_def member_access_def bex_upd_where split: if_splits)

lemma RetireMachineByKey_access:
  "member_access (snd (RetireMachineByProviderKeyID E k s)) u mid \<Longrightarrow> member_access s u mid"
  by (auto simp: RetireMachineByProviderKeyID_def dest: RetireMachine_access
      split: sum.splits option.splits)

lemma RevokeMember_access:
  "member_access (snd (RevokeMemberByOwner E o' m v s)) u mid \<Longrightarrow> member_access s u mid"
  by (auto simp: RevokeMemberByOwner_def dest: revoke_binding_access
      split: sum.splits option.splits if_splits)

lemma RevokeBinding_access:
  "member_access (snd (RevokeBindingByMember E v m s)) u mid \<Longrightarrow> member_access s u mid"
  by (auto simp: RevokeBindingByMember_def dest: revoke_binding_access)

section \<open>Redeeming\<close>

text \<open>An invite that can be redeemed now with this PIN.\<close>

definition open_invite :: "hostenv \<Rightarrow> store \<Rightarrow> string \<Rightarrow> Invite \<Rightarrow> bool" where
  "open_invite E s pin i \<longleftrightarrow> i \<in> set (invites s) \<and> i_pin_hash i = hashPIN E (normalizePIN E pin)
     \<and> i_revoked i = None \<and> e_now E \<le> i_expires i * second \<and> i_uses i < i_max_uses i"

lemma redeem_lookup_open:
  assumes "redeem_lookup E u pin s = Inr p"
  shows "\<exists>i m. open_invite E s pin i \<and> m \<in> set (machines s) \<and> m_id m = i_machine i
    \<and> p = (if m_owner m = u then AsOwner i else AsMember i)"
  using assms
  by (auto simp: redeem_lookup_def Let_def open_invite_def dest!: find_SomeD GetMachine_Some
      split: if_splits option.splits sum.splits)

lemma member_access_invites [simp]: "member_access (s\<lparr>invites := x\<rparr>) u mid = member_access s u mid"
  by (simp add: member_access_def)

lemma upsert_binding_access:
  "member_access (upsert_binding E m v iid s) u mid \<longleftrightarrow> member_access s u mid \<or> (u = v \<and> mid = m)"
proof (cases "\<exists>b \<in> set (bindings s). b_machine b = m \<and> b_member b = v")
  case True
  then have "bindings (upsert_binding E m v iid s)
      = upd_where (\<lambda>b. b_machine b = m \<and> b_member b = v) (rebind E iid) (bindings s)"
    by (simp add: upsert_binding_def)
  then have "member_access (upsert_binding E m v iid s) u mid \<longleftrightarrow>
      (\<exists>b \<in> set (bindings s). (b_machine b = mid \<and> b_member b = u)
        \<and> ((mid = m \<and> u = v) \<or> b_revoked b = None))"
    by (auto simp: member_access_def bex_upd_where rebind_def split: if_splits)
  with True show ?thesis by (auto simp: member_access_def)
next
  case False
  then have "bindings (upsert_binding E m v iid s) = bindings s @ [\<lparr>b_id = seq_bindings s + 1,
      b_machine = m, b_member = v, b_invite = Some iid, b_created = db_now E, b_revoked = None\<rparr>]"
    unfolding upsert_binding_def Let_def by (subst if_not_P) simp_all
  then show ?thesis by (auto simp: member_access_def)
qed

lemma redeem_commit_result:
  "redeem_commit E u iv s = (r, s') \<Longrightarrow>
    (case r of Inl e \<Rightarrow> s' = s
     | Inr (mid, iid) \<Rightarrow> mid = i_machine iv \<and> iid = i_id iv
         \<and> s' = upsert_binding E mid u iid (s\<lparr>invites := upd_where
              (\<lambda>i. i_id i = iid \<and> i_uses i < i_max_uses i \<and> i_revoked i = None)
              (\<lambda>i. i\<lparr>i_uses := i_uses i + 1\<rparr>) (invites s)\<rparr>))"
  by (auto simp: redeem_commit_def Let_def split: if_splits)

lemma redeem_commit_access:
  "member_access (snd (redeem_commit E v iv s)) u mid \<Longrightarrow>
    member_access s u mid \<or> (u = v \<and> mid = i_machine iv)"
proof -
  assume a: "member_access (snd (redeem_commit E v iv s)) u mid"
  obtain r s' where rs: "redeem_commit E v iv s = (r, s')" by fastforce
  from redeem_commit_result [OF rs] a rs show ?thesis
    by (auto simp: upsert_binding_access split: sum.splits)
qed

lemma RedeemPIN_access:
  assumes "store_ok s" and "\<not> member_access s u mid" and "member_access (snd (RedeemPIN E v pin s)) u mid"
  shows "u = v \<and> (\<exists>i. open_invite E s pin i \<and> i_machine i = mid \<and> i_owner i \<noteq> u)"
proof (cases "redeem_lookup E v pin s")
  case (Inl e)
  with assms show ?thesis by (simp add: RedeemPIN_def)
next
  case (Inr p)
  then obtain i m where i: "open_invite E s pin i" and m: "m \<in> set (machines s)" "m_id m = i_machine i"
    and p: "p = (if m_owner m = v then AsOwner i else AsMember i)"
    using redeem_lookup_open by blast
  show ?thesis
  proof (cases "m_owner m = v")
    case True
    then have "member_access (snd (RedeemPIN E v pin s)) u mid = member_access s u mid"
      using Inr p by (simp add: RedeemPIN_def redeem_owner_def)
    with assms show ?thesis by simp
  next
    case False
    with assms Inr p have "u = v" "mid = i_machine i"
      using redeem_commit_access [of E v i s u mid] by (auto simp: RedeemPIN_def)
    moreover have "plan_ok s v p" by (rule redeem_lookup_plan_ok [OF assms(1) Inr])
    then obtain j where "j \<in> set (invites s)" "i_id j = i_id i" "i_owner j \<noteq> v"
      using p False by (auto simp: plan_ok_def)
    then have "i_owner i \<noteq> v"
      using assms(1) i distinct_map_eq [of i_id "invites s" i j]
      by (auto simp: open_invite_def store_ok_def invites_ok_def)
    ultimately show ?thesis using i by auto
  qed
qed

lemma step_grants:
  assumes "store_ok s" and "\<not> member_access s u mid" and "member_access (store_step (E, op) s) u mid"
  shows "\<exists>pin i. op = OpRedeemPIN u pin \<and> open_invite E s pin i \<and> i_machine i = mid \<and> i_owner i \<noteq> u"
  using assms
proof (cases op)
  case (OpRedeemPIN v pin)
  with assms RedeemPIN_access [of s u mid E v pin] show ?thesis by auto
qed (auto dest: RetireMachine_access RetireMachineByKey_access RevokeMember_access RevokeBinding_access
    simp: access_frame)

text \<open>
  Only redeeming grants access. If one store operation (any operation, with any arguments,
  clock and driver failures) turns a user without an active binding to a machine into
  one with it, that operation is the user's own redemption of the PIN of an unrevoked,
  unexpired, unexhausted invite to that machine, made by someone else, its owner.
\<close>

theorem only_redeem_grants:
  assumes "store_ok s" and "\<not> member_access s u mid" and "member_access (store_step (E, op) s) u mid"
  shows "\<exists>pin i. op = OpRedeemPIN u pin \<and> open_invite E s pin i \<and> i_machine i = mid \<and> i_owner i \<noteq> u"
  by (rule step_grants [OF assms])

theorem only_redeem_grants_witness:
  "\<exists>pin i. OpRedeemPIN 2 ''3456-789A'' = OpRedeemPIN 2 pin \<and> open_invite demo_env demo_store pin i
    \<and> i_machine i = ''mch_1'' \<and> i_owner i \<noteq> 2"
proof (rule only_redeem_grants)
  show "store_ok demo_store" by (rule demo_store_ok)
  show "\<not> member_access demo_store 2 ''mch_1''" by (simp add: member_access_def demo_store_def)
  have "member_access demo_bound 2 ''mch_1''" by (simp add: demo_bound_eq member_access_def)
  then show "member_access (store_step (demo_env, OpRedeemPIN 2 ''3456-789A'') demo_store) 2 ''mch_1''"
    by (simp add: demo_bound_def)
qed

end
