(* ===== verification/AccessRuns.thy ===== *)
theory AccessRuns
  imports Access
begin

text \<open>
  Access over whole runs of the store. \<open>access_interface\<close> is the contract the request
  handlers rely on: an operation that opens access is a grant, and a revocation closes
  it. Inside the locale follow the facts about runs; the store interprets it.
\<close>

section \<open>The contract\<close>

locale access_interface = invariant_system step iv
  for step :: "'op \<Rightarrow> 'st \<Rightarrow> 'st" and iv :: "'st \<Rightarrow> bool" +
  fixes can :: "'st \<Rightarrow> 'u \<Rightarrow> 'm \<Rightarrow> bool"
    and grants :: "'op \<Rightarrow> 'st \<Rightarrow> 'u \<Rightarrow> 'm \<Rightarrow> bool"
    and revokes :: "'op \<Rightarrow> 'st \<Rightarrow> 'u \<Rightarrow> 'm \<Rightarrow> bool"
  assumes only_grants: "iv s \<Longrightarrow> \<not> can s u m \<Longrightarrow> can (step op s) u m \<Longrightarrow> grants op s u m"
    and revoke_denies: "revokes op s u m \<Longrightarrow> \<not> can (step op s) u m"
begin

lemma gained_by_grant:
  assumes "iv s" and "\<not> can s u m" and "can (fold step ops s) u m"
  shows "\<exists>i < length ops. grants (ops ! i) (fold step (take i ops) s) u m"
  using assms
proof (induction ops arbitrary: s)
  case (Cons op ops)
  show ?case
  proof (cases "can (step op s) u m")
    case True
    with Cons.prems have "grants op s u m" by (auto intro: only_grants)
    then show ?thesis by (intro exI [of _ 0]) simp
  next
    case False
    with Cons.prems Cons.IH [of "step op s"] obtain i where
      "i < length ops" "grants (ops ! i) (fold step (take i ops) (step op s)) u m"
      by (auto intro: step_inv)
    then show ?thesis by (intro exI [of _ "Suc i"]) simp
  qed
qed simp

lemma revoked_until_granted:
  assumes "iv s" and "revokes op s u m" and "can (fold step ops (step op s)) u m"
  shows "\<exists>i < length ops. grants (ops ! i) (fold step (take i ops) (step op s)) u m"
  using gained_by_grant [of "step op s" u m ops] assms revoke_denies step_inv by blast

end

section \<open>The store keeps the contract\<close>

definition grants :: "hostenv \<times> store_op \<Rightarrow> store \<Rightarrow> int \<Rightarrow> string \<Rightarrow> bool" where
  "grants x s u mid \<longleftrightarrow> (\<exists>pin i. snd x = OpRedeemPIN u pin \<and> open_invite (fst x) s pin i
     \<and> i_machine i = mid \<and> i_owner i \<noteq> u)"

text \<open>The four operations that end a member's access, when they report success.\<close>

fun revokes :: "hostenv \<times> store_op \<Rightarrow> store \<Rightarrow> int \<Rightarrow> string \<Rightarrow> bool" where
  "revokes (E, OpRevokeBinding v m) s u mid \<longleftrightarrow>
     v = u \<and> m = mid \<and> fst (RevokeBindingByMember E v m s) = Inr ()"
| "revokes (E, OpRevokeMember w m v) s u mid \<longleftrightarrow>
     v = u \<and> m = mid \<and> fst (RevokeMemberByOwner E w m v s) = Inr ()"
| "revokes (E, OpRetireMachine m) s u mid \<longleftrightarrow> m = mid \<and> fst (RetireMachine E m s) = Inr ()"
| "revokes (E, OpRetireMachineByKey k) s u mid \<longleftrightarrow>
     fst (RetireMachineByProviderKeyID E k s) = Inr ()
     \<and> (\<exists>m. List.find (\<lambda>q. m_key q = k) (machines s) = Some m \<and> m_id m = mid)"
| "revokes _ s u mid \<longleftrightarrow> False"

lemma bex_revoked:
  "(\<exists>b \<in> set (upd_where P (\<lambda>b. b\<lparr>b_revoked := Some t\<rparr>) bs). Q b \<and> b_revoked b = None)
    \<longleftrightarrow> (\<exists>b \<in> set bs. \<not> P b \<and> Q b \<and> b_revoked b = None)"
  by (induction bs) auto

lemma member_access_revoked:
  "member_access (s\<lparr>bindings := upd_where P (\<lambda>b. b\<lparr>b_revoked := Some t\<rparr>) bs\<rparr>) u mid
    \<longleftrightarrow> (\<exists>b \<in> set bs. \<not> P b \<and> (b_machine b = mid \<and> b_member b = u) \<and> b_revoked b = None)"
  using bex_revoked [of P t bs "\<lambda>b. b_machine b = mid \<and> b_member b = u"]
  by (simp add: member_access_def conj_assoc)

lemma revoke_binding_denies:
  "fst (revoke_binding E m u s) = Inr () \<Longrightarrow> \<not> member_access (snd (revoke_binding E m u s)) u m"
  by (auto simp: revoke_binding_def Let_def member_access_revoked split: if_splits)

lemma RetireMachine_denies:
  "fst (RetireMachine E m s) = Inr () \<Longrightarrow> \<not> member_access (snd (RetireMachine E m s)) u m"
  by (auto simp: RetireMachine_def Let_def member_access_revoked split: if_splits)

lemma RevokeMember_denies:
  "fst (RevokeMemberByOwner E w m u s) = Inr () \<Longrightarrow>
    \<not> member_access (snd (RevokeMemberByOwner E w m u s)) u m"
  by (auto simp: RevokeMemberByOwner_def dest: revoke_binding_denies
      split: sum.splits option.splits if_splits)

lemma RetireMachineByKey_denies:
  assumes "fst (RetireMachineByProviderKeyID E k s) = Inr ()"
    and "List.find (\<lambda>q. m_key q = k) (machines s) = Some m"
  shows "\<not> member_access (snd (RetireMachineByProviderKeyID E k s)) u (m_id m)"
  using assms RetireMachine_denies
  by (auto simp: RetireMachineByProviderKeyID_def GetMachineByProviderKeyID_def split: if_splits)

lemma revokes_denies: "revokes x s u mid \<Longrightarrow> \<not> member_access (store_step x s) u mid"
  by (induction x s u mid rule: revokes.induct)
    (auto dest: RetireMachine_denies RevokeMember_denies RetireMachineByKey_denies revoke_binding_denies
      simp: RevokeBindingByMember_def)

interpretation store_access: access_interface store_step store_ok member_access grants revokes
proof unfold_locales
  fix s u mid and x :: "hostenv \<times> store_op"
  assume a: "store_ok s" "\<not> member_access s u mid" "member_access (store_step x s) u mid"
  obtain E op where x: "x = (E, op)" by fastforce
  with a show "grants x s u mid"
    using step_grants [of s u mid E op] by (auto simp: grants_def)
next
  fix s u mid and x :: "hostenv \<times> store_op"
  assume "revokes x s u mid"
  then show "\<not> member_access (store_step x s) u mid" by (rule revokes_denies)
qed

section \<open>Runs\<close>

text \<open>
  C20: The invariant holds in every state the store reaches from the empty database by any
  sequence of its operations, with any clock, random bytes and driver failures: ids and
  hashes are unique, uses stay within 1 to 10, invites belong to the machine's owner, each
  binding was admitted by an invite to its machine, and no invite admitted more members than
  it counted uses.
\<close>

theorem reachable_store_ok: "store_ok (fold store_step ops empty_store)"
  by (rule store_system.run_inv) (rule store_ok_empty)

text \<open>
  C6: A revocation is final until the member redeems again. After a member revoked a binding, the
  owner revoked the member, or the machine was retired, with success, any run after which
  the user has access again contains that user's own redemption of an invite to the
  machine that was open at that moment.
\<close>

theorem revocation_final:
  assumes "store_ok s" and "revokes x s u mid"
    and "member_access (fold store_step ops (store_step x s)) u mid"
  shows "\<exists>i < length ops. \<exists>E pin j. ops ! i = (E, OpRedeemPIN u pin)
    \<and> open_invite E (fold store_step (take i ops) (store_step x s)) pin j
    \<and> i_machine j = mid \<and> i_owner j \<noteq> u"
proof -
  obtain i where i: "i < length ops"
    and g: "grants (ops ! i) (fold store_step (take i ops) (store_step x s)) u mid"
    using store_access.revoked_until_granted [OF assms] by blast
  obtain E op where "ops ! i = (E, op)" by fastforce
  with i g show ?thesis by (auto simp: grants_def)
qed

theorem revocation_final_witness:
  "\<exists>i < length [(demo_env, OpRedeemPIN 2 ''3456-789A'')]. \<exists>E pin j.
    [(demo_env, OpRedeemPIN 2 ''3456-789A'')] ! i = (E, OpRedeemPIN 2 pin)
    \<and> open_invite E (fold store_step (take i [(demo_env, OpRedeemPIN 2 ''3456-789A'')])
         (store_step (demo_env, OpRevokeMember 1 ''mch_1'' 2) demo_bound)) pin j
    \<and> i_machine j = ''mch_1'' \<and> i_owner j \<noteq> 2"
proof (rule revocation_final)
  show "store_ok demo_bound" by (rule demo_bound_ok)
  show "revokes (demo_env, OpRevokeMember 1 ''mch_1'' 2) demo_bound 2 ''mch_1''"
    by (simp add: demo_bound_eq demo_store_def RevokeMemberByOwner_def GetMachine_def revoke_binding_def)
  show "member_access (fold store_step [(demo_env, OpRedeemPIN 2 ''3456-789A'')]
      (store_step (demo_env, OpRevokeMember 1 ''mch_1'' 2) demo_bound)) 2 ''mch_1''"
    by (simp add: demo_bound_eq demo_store_def demo_invite_def RevokeMemberByOwner_def GetMachine_def
        revoke_binding_def RedeemPIN_def redeem_lookup_def second_def redeem_commit_def
        upsert_binding_def has_user_def member_access_def rebind_def)
qed

section \<open>Retired machines\<close>

text \<open>A machine is closed when no member binding and no invite of it is left active.\<close>

definition closed_machine :: "store \<Rightarrow> string \<Rightarrow> bool" where
  "closed_machine s mid \<longleftrightarrow> (\<forall>b \<in> set (bindings s). b_machine b = mid \<longrightarrow> b_revoked b \<noteq> None)
     \<and> (\<forall>i \<in> set (invites s). i_machine i = mid \<longrightarrow> i_revoked i \<noteq> None)"

lemma closed_no_access: "closed_machine s mid \<Longrightarrow> \<not> member_access s u mid"
  by (auto simp: closed_machine_def member_access_def)

lemma closed_iff: "closed_machine s mid \<longleftrightarrow> (\<forall>u. \<not> member_access s u mid)
    \<and> (\<forall>i \<in> set (invites s). i_machine i = mid \<longrightarrow> i_revoked i \<noteq> None)"
  by (auto simp: closed_machine_def member_access_def)

lemma RetireMachine_closes:
  "fst (RetireMachine E mid s) = Inr () \<Longrightarrow> closed_machine (snd (RetireMachine E mid s)) mid"
  by (auto simp: closed_machine_def RetireMachine_def Let_def ball_upd_where split: if_splits)

section \<open>The history of an invite\<close>

text \<open>What may happen to an invite: its uses grow and it is revoked, once.\<close>

definition invite_later :: "Invite \<Rightarrow> Invite \<Rightarrow> bool" where
  "invite_later i j \<longleftrightarrow> i_id j = i_id i \<and> i_machine j = i_machine i \<and> i_owner j = i_owner i
     \<and> i_pin_hash j = i_pin_hash i \<and> i_max_uses j = i_max_uses i \<and> i_expires j = i_expires i
     \<and> i_uses i \<le> i_uses j \<and> (i_revoked i \<noteq> None \<longrightarrow> i_revoked j = i_revoked i)"

lemma invite_later_refl [simp]: "invite_later i i"
  by (simp add: invite_later_def)

lemma evolve_refl [simp]: "rows_evolve invite_later N is is"
  by (rule rows_evolve_same) simp

lemma evolve_use [simp]:
  "rows_evolve invite_later N is (upd_where P (\<lambda>i. i\<lparr>i_uses := i_uses i + 1\<rparr>) is)"
  by (rule rows_evolve_update) (simp_all add: invite_later_def)

lemma evolve_revoke:
  "(\<And>i. P i \<Longrightarrow> i_revoked i = None) \<Longrightarrow>
    rows_evolve invite_later N is (upd_where P (\<lambda>i. i\<lparr>i_revoked := Some t\<rparr>) is)"
  by (rule rows_evolve_update) (simp_all add: invite_later_def)

lemma evolve_append: "N i \<Longrightarrow> rows_evolve invite_later N is (is @ [i])"
  by (rule rows_evolve_append) simp_all

fun creates_invite :: "store_op \<Rightarrow> string \<Rightarrow> bool" where
  "creates_invite (OpCreateInvite r m w n d l) mid \<longleftrightarrow> m = mid"
| "creates_invite _ mid \<longleftrightarrow> False"

named_theorems invites_frame "operations that leave the invites alone"

lemma UpsertUser_invites [invites_frame]: "invites (snd (UpsertUser E g l s)) = invites s"
  by (simp add: UpsertUser_def Let_def split: option.split)

lemma CreateSession_invites [invites_frame]: "invites (snd (CreateSession E r u s)) = invites s"
  by (simp add: CreateSession_def split: option.split)

lemma CreateKey_invites [invites_frame]: "invites (snd (CreateKey E r u sc s)) = invites s"
  by (simp add: CreateKey_def Let_def split: option.split)

lemma EnsureConsumerKey_invites [invites_frame]:
  "invites (snd (EnsureConsumerKey E r u s)) = invites s"
  using CreateKey_invites [of "shift 1 E" r u "''consumer''" s]
  by (auto simp: EnsureConsumerKey_def split: sum.split option.split prod.split)

lemma UpsertMachine_invites [invites_frame]:
  "invites (snd (UpsertMachineByProviderKey E r u k n s)) = invites s"
  by (cases rule: UpsertMachine_state [of E r u k n s]) simp_all

lemma revoke_binding_invites [invites_frame]: "invites (snd (revoke_binding E m u s)) = invites s"
  by (simp add: revoke_binding_def Let_def)

lemma RevokeMember_invites [invites_frame]:
  "invites (snd (RevokeMemberByOwner E w m u s)) = invites s"
  by (simp add: RevokeMemberByOwner_def revoke_binding_invites split: sum.split option.split)

lemma RetireMachine_invites: "rows_evolve invite_later N (invites s) (invites (snd (RetireMachine E m s)))"
  by (auto simp: RetireMachine_def Let_def intro!: evolve_revoke)

lemma RetireMachineByKey_invites:
  "rows_evolve invite_later N (invites s) (invites (snd (RetireMachineByProviderKeyID E k s)))"
  by (simp add: RetireMachineByProviderKeyID_def RetireMachine_invites split: sum.split option.split)

lemma CreateInvite_invites:
  assumes "\<And>i. i_machine i = m \<Longrightarrow> N i"
  shows "rows_evolve invite_later N (invites s) (invites (snd (CreateInvite E r m u mx t l s)))"
  by (simp add: CreateInvite_def Let_def evolve_append assms split: sum.split option.split)

lemma RevokeInvite_invites: "rows_evolve invite_later N (invites s) (invites (snd (RevokeInvite E u i s)))"
  by (auto simp: RevokeInvite_def Let_def intro!: evolve_revoke)

lemma RedeemPIN_invites: "rows_evolve invite_later N (invites s) (invites (snd (RedeemPIN E u pin s)))"
  by (simp add: RedeemPIN_def redeem_owner_def redeem_commit_def Let_def
      split: sum.split redeem_plan.split)

lemmas invites_evolves = RetireMachine_invites RetireMachineByKey_invites RevokeInvite_invites
  RedeemPIN_invites

lemma step_invites:
  assumes "\<And>m i. creates_invite op m \<Longrightarrow> i_machine i = m \<Longrightarrow> N i"
  shows "rows_evolve invite_later N (invites s) (invites (store_step (E, op) s))"
  using assms
  by (cases op) (simp_all add: invites_frame invites_evolves DeleteSession_def RevokeKey_def Let_def
      UpdateOwnerStats_def RevokeBindingByMember_def CreateInvite_invites)

interpretation invites_history: row_history store_step invites invite_later
proof unfold_locales
  fix s and x :: "hostenv \<times> store_op"
  obtain E op where "x = (E, op)" by fastforce
  then show "rows_evolve invite_later (\<lambda>_. True) (invites s) (invites (store_step x s))"
    by (simp add: step_invites)
qed (auto simp: invite_later_def)

text \<open>
  C21: The history of an invite. Whatever operations follow, an invite keeps its id, machine,
  owner, PIN hash, limit and expiry; its uses never decrease and never pass its limit of at
  most ten; and once revoked it stays revoked with the same time.
\<close>

theorem invite_history:
  assumes "store_ok s" and "i \<in> set (invites s)"
  shows "\<exists>j \<in> set (invites (fold store_step ops s)). invite_later i j
    \<and> i_uses j \<le> i_max_uses i \<and> i_max_uses i \<le> 10"
proof -
  obtain j where j: "j \<in> set (invites (fold store_step ops s))" "invite_later i j"
    using invites_history.run_later [OF assms(2)] by blast
  have "store_ok (fold store_step ops s)" by (rule store_system.run_inv [OF assms(1)])
  then have "i_uses j \<le> i_max_uses j \<and> i_max_uses j \<le> 10"
    using j(1) by (simp add: store_ok_def invites_ok_def)
  with j show ?thesis by (intro bexI [of _ j]) (auto simp: invite_later_def)
qed

theorem invite_history_witness:
  "\<exists>j \<in> set (invites (fold store_step [(demo_env, OpRevokeInvite 1 1)] demo_store)).
    invite_later demo_invite j \<and> i_uses j \<le> i_max_uses demo_invite \<and> i_max_uses demo_invite \<le> 10"
  by (rule invite_history [OF demo_store_ok]) (simp add: demo_store_def)

section \<open>Closed machines stay closed\<close>

lemma step_closed:
  assumes ok: "store_ok s" and cl: "closed_machine s mid" and nc: "\<not> creates_invite op mid"
  shows "closed_machine (store_step (E, op) s) mid"
  unfolding closed_iff
proof (intro conjI allI ballI impI)
  fix u
  show "\<not> member_access (store_step (E, op) s) u mid"
  proof
    assume "member_access (store_step (E, op) s) u mid"
    with step_grants [OF ok closed_no_access [OF cl]] obtain pin i
      where "open_invite E s pin i" "i_machine i = mid" by blast
    with cl show False by (auto simp: open_invite_def closed_machine_def)
  qed
next
  fix j assume j: "j \<in> set (invites (store_step (E, op) s))" "i_machine j = mid"
  have "rows_evolve invite_later (\<lambda>i. i_machine i \<noteq> mid) (invites s) (invites (store_step (E, op) s))"
    by (rule step_invites) (use nc in auto)
  from rows_evolve_back [OF this j(1)] j(2) obtain i
    where "i \<in> set (invites s)" "invite_later i j" by auto
  with cl j(2) show "i_revoked j \<noteq> None"
    by (auto simp: closed_machine_def invite_later_def)
qed

lemma run_closed:
  assumes "store_ok s" "closed_machine s mid" "\<forall>x \<in> set ops. \<not> creates_invite (snd x) mid"
  shows "closed_machine (fold store_step ops s) mid"
  using assms
proof (induction ops arbitrary: s)
  case (Cons x ops)
  obtain E op where "x = (E, op)" by fastforce
  with Cons show ?case using step_closed [of s mid op E] store_system.step_inv by simp
qed simp

text \<open>
  Retiring a machine shuts it. After a successful \<open>RetireMachine\<close>, and as long as no new
  invite to that machine is created, no run of operations gives any member access to it,
  and redeeming any PIN fails to reach it.
\<close>

theorem retired_stays_closed:
  assumes "store_ok s" and "fst (RetireMachine E mid s) = Inr ()"
    and "\<forall>x \<in> set ops. \<not> creates_invite (snd x) mid"
  defines "s' \<equiv> fold store_step ops (store_step (E, OpRetireMachine mid) s)"
  shows "\<not> member_access s' u mid \<and> fst (RedeemPIN E' u pin s') \<noteq> Inr (mid, iid)"
proof -
  have ok: "store_ok (store_step (E, OpRetireMachine mid) s)"
    by (rule store_system.step_inv [OF assms(1)])
  have cl: "closed_machine s' mid"
    unfolding s'_def by (rule run_closed [OF ok _ assms(3)]) (simp add: RetireMachine_closes assms(2))
  have "fst (RedeemPIN E' u pin s') \<noteq> Inr (mid, iid)"
  proof
    assume r: "fst (RedeemPIN E' u pin s') = Inr (mid, iid)"
    obtain p where p: "redeem_lookup E' u pin s' = Inr p"
      using r by (cases "redeem_lookup E' u pin s'") (auto simp: RedeemPIN_def)
    then obtain i where "open_invite E' s' pin i" "p = AsOwner i \<or> p = AsMember i"
      using redeem_lookup_open by metis
    moreover then have "i_machine i = mid"
      using r p by (auto simp: RedeemPIN_def redeem_owner_def redeem_commit_def Let_def split: if_splits)
    ultimately show False using cl by (auto simp: open_invite_def closed_machine_def)
  qed
  with closed_no_access [OF cl] show ?thesis by blast
qed

theorem retired_stays_closed_witness:
  "\<not> member_access (fold store_step [(demo_env, OpRedeemPIN 2 ''3456-789A'')]
       (store_step (demo_env, OpRetireMachine ''mch_1'') demo_bound)) 2 ''mch_1''
   \<and> fst (RedeemPIN demo_env 2 ''3456-789A'' (fold store_step [(demo_env, OpRedeemPIN 2 ''3456-789A'')]
       (store_step (demo_env, OpRetireMachine ''mch_1'') demo_bound))) \<noteq> Inr (''mch_1'', 1)"
  by (rule retired_stays_closed [OF demo_bound_ok]) (simp_all add: RetireMachine_def)

end
