(* ===== verification/Invites.thy ===== *)
theory Invites
  imports AccessRuns
begin

text \<open>
  What the methods around invites compute: redeeming is all or nothing, an invite made by
  the owner works for another user until it expires, the status shown agrees with what
  redeeming answers, and the life of an invite is exact up to the wrap-around of a 64-bit
  duration.
\<close>

section \<open>Redeeming is all or nothing\<close>

lemma redeem_owner_result:
  "redeem_owner E iv s = (r, s') \<Longrightarrow> r = Inr (i_machine iv, i_id iv) \<and> bindings s' = bindings s"
  by (auto simp: redeem_owner_def)

lemma redeem_effect:
  assumes ok: "store_ok s" and red: "RedeemPIN E u pin s = (r, s')"
  shows "case r of Inl e \<Rightarrow> s' = s
    | Inr (mid, iid) \<Rightarrow> \<exists>i. open_invite E s pin i \<and> i_id i = iid \<and> i_machine i = mid
        \<and> (i_owner i \<noteq> u \<longrightarrow>
             invites s' = upd_where (\<lambda>j. i_id j = iid) (\<lambda>j. j\<lparr>i_uses := i_uses j + 1\<rparr>) (invites s)
             \<and> (\<forall>v m. member_access s' v m \<longleftrightarrow> member_access s v m \<or> (v = u \<and> m = mid))
             \<and> users s' = users s \<and> api_keys s' = api_keys s \<and> machines s' = machines s
             \<and> owner_stats s' = owner_stats s \<and> sessions s' = sessions s)"
proof (cases "redeem_lookup E u pin s")
  case (Inl e)
  with red show ?thesis by (auto simp: RedeemPIN_def)
next
  case (Inr p)
  then obtain i m where i: "open_invite E s pin i" and m: "m \<in> set (machines s)" "m_id m = i_machine i"
    and p: "p = (if m_owner m = u then AsOwner i else AsMember i)"
    using redeem_lookup_open by blast
  have own: "m_owner m = i_owner i"
    using i invite_owner [OF ok _ m] by (simp add: open_invite_def)
  show ?thesis
  proof (cases "m_owner m = u")
    case True
    with red Inr p have "redeem_owner E i s = (r, s')" by (simp add: RedeemPIN_def)
    then have "r = Inr (i_machine i, i_id i)" by (simp add: redeem_owner_def)
    with i True own show ?thesis by auto
  next
    case False
    with red Inr p have c: "redeem_commit E u i s = (r, s')" by (simp add: RedeemPIN_def)
    have hit: "j = i" if "j \<in> set (invites s)" "i_id j = i_id i" for j
      using that i ok distinct_map_eq [of i_id "invites s" j i]
      by (auto simp: open_invite_def store_ok_def invites_ok_def)
    have eq: "upd_where (\<lambda>j. i_id j = i_id i \<and> i_uses j < i_max_uses j \<and> i_revoked j = None) f (invites s)
        = upd_where (\<lambda>j. i_id j = i_id i) f (invites s)" for f
      unfolding upd_where_def
    proof (rule map_cong [OF refl])
      fix j assume "j \<in> set (invites s)"
      then have "i_id j = i_id i \<Longrightarrow> i_uses j < i_max_uses j \<and> i_revoked j = None"
        using hit [of j] i by (simp add: open_invite_def)
      then show "(if i_id j = i_id i \<and> i_uses j < i_max_uses j \<and> i_revoked j = None then f j else j)
          = (if i_id j = i_id i then f j else j)"
        by (cases "i_id j = i_id i") simp_all
    qed
    from redeem_commit_result [OF c] i eq show ?thesis
      by (cases r) (auto simp: upsert_binding_access)
  qed
qed


lemma demo_owner: "i_owner demo_invite \<noteq> 2"
  by (simp add: demo_invite_def)


text \<open>
  The number of members an invite admitted, active or revoked since, is at most its limit,
  which is at most ten, in every state reached from a well-formed one.
\<close>

theorem members_within_limit:
  assumes "store_ok s" and "i \<in> set (invites (fold store_step ops s))"
  shows "int (count_where (\<lambda>b. b_invite b = Some (i_id i)) (bindings (fold store_step ops s)))
    \<le> i_max_uses i \<and> i_max_uses i \<le> 10"
proof -
  have "store_ok (fold store_step ops s)"
    by (rule store_system.run_inv) (rule assms(1))
  with assms have "int (count_where (\<lambda>b. b_invite b = Some (i_id i)) (bindings (fold store_step ops s)))
      \<le> i_uses i" "i_uses i \<le> i_max_uses i" "i_max_uses i \<le> 10"
    by (auto simp: store_ok_def invites_ok_def admission_ok_def)
  then show ?thesis by linarith
qed

theorem members_within_limit_witness:
  "int (count_where (\<lambda>b. b_invite b = Some (i_id (demo_invite\<lparr>i_uses := 1\<rparr>)))
      (bindings (fold store_step [(demo_env, OpRedeemPIN 2 ''3456-789A'')] demo_store)))
    \<le> i_max_uses (demo_invite\<lparr>i_uses := 1\<rparr>) \<and> i_max_uses (demo_invite\<lparr>i_uses := 1\<rparr>) \<le> 10"
proof (rule members_within_limit [OF demo_store_ok])
  have "fold store_step [(demo_env, OpRedeemPIN 2 ''3456-789A'')] demo_store = demo_bound"
    by (simp add: demo_bound_def)
  then show "demo_invite\<lparr>i_uses := 1\<rparr>
      \<in> set (invites (fold store_step [(demo_env, OpRedeemPIN 2 ''3456-789A'')] demo_store))"
    by (simp only: demo_bound_eq) simp
qed

section \<open>The status of an invite\<close>

lemma status_lookup:
  assumes "store_ok s" and "i \<in> set (invites s)" and "validPINFormat E pin"
    and "i_pin_hash i = hashPIN E (normalizePIN E pin)" and "\<not> e_fault E 0" "\<not> e_fault E 1"
  shows "redeem_lookup E u pin s =
    (if InviteStatus E i = ''revoked'' then Inl ErrRevokedPin
     else if InviteStatus E i = ''expired'' then Inl ErrExpiredPin
     else if InviteStatus E i = ''exhausted'' then Inl ErrExhausted
     else if i_owner i = u then Inr (AsOwner i) else Inr (AsMember i))"
proof -
  have "List.find (\<lambda>j. i_pin_hash j = i_pin_hash i) (invites s) = Some i"
    by (rule distinct_find) (use assms in \<open>simp_all add: store_ok_def invites_ok_def\<close>)
  then have f: "List.find (\<lambda>j. i_pin_hash j = hashPIN E (normalizePIN E pin)) (invites s) = Some i"
    by (simp add: assms(4))
  obtain m where m: "m \<in> set (machines s)" "m_id m = i_machine i"
    using assms(1,2) by (auto simp: store_ok_def invites_ok_def owned_by_def)
  have g: "GetMachine (shift (Suc 0) E) (i_machine i) s = Inr (Some m)"
    using find_machine [OF assms(1) m(1)] m(2) assms(6) by (simp add: GetMachine_def)
  have o: "m_owner m = i_owner i" by (rule invite_owner [OF assms(1,2) m])
  have v: "validPINFormat E (normalizePIN E pin)" by (rule valid_valid_normalize [OF assms(3)])
  show ?thesis
    unfolding redeem_lookup_def Let_def InviteStatus_def using v assms(5) by (simp add: f g o)
qed

text \<open>
  The status shown for an invite says what redeeming its PIN answers at the same moment:
  \<open>revoked\<close>, \<open>expired\<close> and \<open>exhausted\<close> mean exactly the respective errors, and an
  \<open>active\<close> invite passes all checks, for every user, up to driver failures.
\<close>

theorem status_agrees:
  assumes "store_ok s" and "i \<in> set (invites s)" and "validPINFormat E pin"
    and "i_pin_hash i = hashPIN E (normalizePIN E pin)" and "\<not> e_fault E 0" "\<not> e_fault E 1"
  shows "redeem_lookup E u pin s =
    (if InviteStatus E i = ''revoked'' then Inl ErrRevokedPin
     else if InviteStatus E i = ''expired'' then Inl ErrExpiredPin
     else if InviteStatus E i = ''exhausted'' then Inl ErrExhausted
     else if i_owner i = u then Inr (AsOwner i) else Inr (AsMember i))"
  by (rule status_lookup [OF assms])

theorem status_agrees_witness:
  "redeem_lookup demo_env 2 ''3456-789A'' demo_store =
    (if InviteStatus demo_env demo_invite = ''revoked'' then Inl ErrRevokedPin
     else if InviteStatus demo_env demo_invite = ''expired'' then Inl ErrExpiredPin
     else if InviteStatus demo_env demo_invite = ''exhausted'' then Inl ErrExhausted
     else if i_owner demo_invite = 2 then Inr (AsOwner demo_invite) else Inr (AsMember demo_invite))"
  by (rule status_agrees [OF demo_store_ok]) (simp_all add: demo_store_def, simp_all add: demo_invite_def)

section \<open>The life of an invite\<close>

lemma ttl_bound: "1 \<le> d \<Longrightarrow> d \<le> 106751 \<Longrightarrow> ttl_duration d = d * 24 * hour"
proof -
  assume d: "1 \<le> d" "d \<le> 106751"
  then have "in_int64 (d * 24)" "in_int64 (d * 24 * hour)"
    by (simp_all add: in_int64_def duration_defs)
  then show ?thesis by (simp add: ttl_duration_def int64_id)
qed

text \<open>
  For 1 to 106751 days the life of an invite is that many days; the first number of days
  beyond, which the request handler does not refuse, wraps around a 64-bit duration
  and gives an invite that expired centuries ago.
\<close>

theorem ttl_exact_until_wrap:
  assumes "1 \<le> d" and "d \<le> 106751"
  shows "ttl_duration d = d * 24 * hour \<and> ttl_duration 106752 < - 106000 * 24 * hour"
proof
  show "ttl_duration d = d * 24 * hour" by (rule ttl_bound [OF assms])
  show "ttl_duration 106752 < - 106000 * 24 * hour"
    by (simp add: ttl_duration_def int64_def duration_defs)
qed

theorem ttl_exact_until_wrap_witness:
  "ttl_duration 7 = 7 * 24 * hour \<and> ttl_duration 106752 < - 106000 * 24 * hour"
  by (rule ttl_exact_until_wrap) simp_all

section \<open>From the invite to the access\<close>

definition no_faults :: "hostenv \<Rightarrow> bool" where
  "no_faults E \<longleftrightarrow> (\<forall>k. \<not> e_fault E k)"

lemma no_faults_shift [simp]: "no_faults E \<Longrightarrow> no_faults (shift n E)"
  by (simp add: no_faults_def)

lemma no_faultsD [simp]: "no_faults E \<Longrightarrow> \<not> e_fault E k"
  by (simp add: no_faults_def)

text \<open>The invite that \<open>CreateInvite\<close> writes.\<close>

definition new_invite :: "hostenv \<Rightarrow> string \<Rightarrow> string \<Rightarrow> int \<Rightarrow> int \<Rightarrow> int \<Rightarrow> string \<Rightarrow> int \<Rightarrow> Invite" where
  "new_invite E pin mid owner n d label iid = \<lparr>i_id = iid, i_machine = mid, i_owner = owner,
     i_pin_hash = hashPIN E pin, i_pin_prefix = take 4 pin, i_max_uses = clamp_uses n, i_uses = 0,
     i_expires = (e_now E + ttl_duration (if d < 1 then 7 else d)) div second, i_revoked = None,
     i_created = db_now E, i_label = nullIfEmpty label\<rparr>"

lemma CreateInvite_success:
  assumes "store_ok s" and "no_faults E" and m: "m \<in> set (machines s)"
    and "generatePIN rnd = Some pin" and "\<forall>i \<in> set (invites s). i_pin_hash i \<noteq> hashPIN E pin"
    and "has_user s (m_owner m)"
    and iv_def: "iv = new_invite E pin (m_id m) (m_owner m) n d label (seq_invites s + 1)"
  shows "CreateInvite E rnd (m_id m) (m_owner m) n d label s
    = (Inr (Some iv, pin), s\<lparr>invites := invites s @ [iv], seq_invites := seq_invites s + 1\<rparr>)"
proof -
  have "\<forall>i \<in> set (invites s). i_id i \<noteq> seq_invites s + 1"
    using assms(1) by (auto simp: store_ok_def invites_ok_def)
  then have "List.find (\<lambda>i. i_id i = seq_invites s + 1) (invites s) = None"
    by (simp add: find_None_iff_ball)
  then show ?thesis
    using assms(2,4-6) find_machine [OF assms(1) m]
    by (auto simp: CreateInvite_def GetMachine_def GetInvite_def Let_def iv_def new_invite_def
        find_append)
qed

lemma RedeemPIN_success:
  assumes ok: "store_ok s" and "no_faults E" and o: "open_invite E s pin i" and v: "validPINFormat E pin"
    and "i_owner i \<noteq> u" and "has_user s u"
  shows "fst (RedeemPIN E u pin s) = Inr (i_machine i, i_id i)"
proof -
  have i: "i \<in> set (invites s)" "i_revoked i = None" "i_uses i < i_max_uses i"
    using o by (simp_all add: open_invite_def)
  have "InviteStatus E i = ''active''"
    using o by (simp add: InviteStatus_def open_invite_def)
  then have "redeem_lookup E u pin s = Inr (AsMember i)"
    using status_lookup [OF ok i(1) v] o assms(2,5) by (simp add: open_invite_def)
  moreover have "0 < count_where (\<lambda>j. i_id j = i_id i \<and> i_uses j < i_max_uses j \<and> i_revoked j = None) (invites s)"
    unfolding count_where_pos using i by blast
  ultimately show ?thesis
    using assms(2,6) by (simp add: RedeemPIN_def redeem_commit_def Let_def)
qed

lemma validPINFormat_cong:
  "normalizePIN E x = normalizePIN E y \<Longrightarrow> validPINFormat E x = validPINFormat E y"
  by (simp add: validPINFormat_def)

lemma hash_same_env: "e_sha E' = e_sha E \<Longrightarrow> e_upper E' = e_upper E \<Longrightarrow>
    hashPIN E' x = hashPIN E x \<and> normalizePIN E' x = normalizePIN E x \<and> validPINFormat E' x = validPINFormat E x"
  by (simp add: hashPIN_def normalizePIN_def validPINFormat_def)

text \<open>
  C26: The invite works from end to end. Without driver failures, the owner's \<open>CreateInvite\<close>
  answers the generated PIN; another user who enters it in any accepted spelling before the last
  second of its life is bound to the machine, and \<open>CanAccessMachine\<close> then answers \<open>True\<close>.
  The state of the machine's provider key plays no part: a retired machine is reopened too.
\<close>

theorem invite_end_to_end:
  assumes ok: "store_ok s" and nf: "no_faults E" "no_faults E'"
    and m: "m \<in> set (machines s)" and pin: "generatePIN (Some bs) = Some pin" "length bs = 8"
    and fresh: "\<forall>i \<in> set (invites s). i_pin_hash i \<noteq> hashPIN E pin"
    and us: "has_user s (m_owner m)" "has_user s u" "u \<noteq> m_owner m"
    and typed: "normalizePIN E typed = pin"
    and env: "e_sha E' = e_sha E" "e_upper E' = e_upper E"
    and d: "1 \<le> d" "d \<le> 106751" and life: "e_now E' \<le> e_now E + d * 24 * hour - second"
  shows "\<exists>iv s1 s2. CreateInvite E (Some bs) (m_id m) (m_owner m) n d label s = (Inr (Some iv, pin), s1)
    \<and> RedeemPIN E' u typed s1 = (Inr (m_id m, i_id iv), s2)
    \<and> CanAccessMachine E' u (m_id m) s2 = Inr True"
proof -
  define iv where "iv = new_invite E pin (m_id m) (m_owner m) n d label (seq_invites s + 1)"
  define s1 where "s1 = s\<lparr>invites := invites s @ [iv], seq_invites := seq_invites s + 1\<rparr>"
  have c: "CreateInvite E (Some bs) (m_id m) (m_owner m) n d label s = (Inr (Some iv, pin), s1)"
    unfolding s1_def by (rule CreateInvite_success [OF ok nf(1) m pin(1) fresh us(1) iv_def])
  have ok1: "store_ok s1"
    using CreateInvite_ok [OF ok, of E "Some bs" "m_id m" "m_owner m" n d label] c by simp
  have vp: "validPINFormat E pin" "normalizePIN E pin = pin"
    using generated_pin_parts [OF pin(2,1), of E] by simp_all
  have v: "validPINFormat E' typed"
    using vp typed validPINFormat_cong [of E typed pin] by (simp add: hash_same_env [OF env])
  have "e_now E' \<le> (e_now E + d * 24 * hour) div second * second"
  proof -
    have "(e_now E + d * 24 * hour) mod second < second" by (simp add: second_def)
    then show ?thesis
      using life div_mult_mod_eq [of "e_now E + d * 24 * hour" second] by linarith
  qed
  then have o: "open_invite E' s1 typed iv"
    using typed vp env d
    by (simp add: open_invite_def s1_def iv_def new_invite_def ttl_bound hash_same_env [OF env]
        clamp_uses_def)
  have h: "i_owner iv \<noteq> u" "has_user s1 u" "i_machine iv = m_id m" "i_owner iv = m_owner m"
    using us by (simp_all add: iv_def new_invite_def s1_def has_user_def)
  obtain r s2 where r: "RedeemPIN E' u typed s1 = (r, s2)" by fastforce
  have r': "r = Inr (m_id m, i_id iv)"
    using RedeemPIN_success [OF ok1 nf(2) o v h(1,2)] r h(3) by simp
  have ok2: "store_ok s2" using RedeemPIN_ok [OF ok1, of E' u typed] r by simp
  obtain i where "open_invite E' s1 typed i" "i_machine i = m_id m" and
    i: "i_owner i \<noteq> u \<longrightarrow> member_access s2 u (m_id m) \<and> machines s2 = machines s1"
    using redeem_effect [OF ok1 r] r' by auto
  moreover have "i_owner i = m_owner m"
    using calculation(1,2) invite_owner [OF ok1, of i m] m by (simp add: open_invite_def s1_def)
  ultimately have "may_use s2 u (m_id m)"
    using us(3) m by (auto simp: may_use_def s1_def)
  then have "CanAccessMachine E' u (m_id m) s2 = Inr True"
    using can_access [OF ok2, of E' u "m_id m"] nf(2) by simp
  with c r r' show ?thesis by blast
qed

theorem invite_end_to_end_witness:
  "\<exists>iv s1 s2. CreateInvite demo_env (Some (map char_of [8::nat, 7, 6, 5, 4, 3, 2, 1])) ''mch_1'' 1 3 7 ''x'' demo_store
      = (Inr (Some iv, ''A987-6543''), s1)
    \<and> RedeemPIN demo_env 2 '' a987-6543'' s1 = (Inr (''mch_1'', i_id iv), s2)
    \<and> CanAccessMachine demo_env 2 ''mch_1'' s2 = Inr True"
proof -
  let ?m = "hd (machines demo_store)"
  have p: "generatePIN (Some (map char_of [8::nat, 7, 6, 5, 4, 3, 2, 1])) = Some ''A987-6543''"
    by (simp add: generatePIN_def pin_char_def pinAlphabet_def)
  have n: "normalizePIN demo_env '' a987-6543'' = ''A987-6543''"
    using pin_typed [OF _ _ p, of "'' a987-6543''" demo_env]
    by (simp add: ascii_def remove_byte_def upper_byte_def char_of_eq_iff)
  have "hashPIN demo_env ''A987-6543'' \<noteq> hashPIN demo_env ''3456-789A''"
    using generatePIN_normal [OF p, of demo_env]
    by (auto simp: hashPIN_def demo_env_def dest!: hex_encode_inj)
  then have "\<forall>i \<in> set (invites demo_store). i_pin_hash i \<noteq> hashPIN demo_env ''A987-6543''"
    by (simp add: demo_store_def demo_invite_def)
  moreover have "no_faults demo_env" by (simp add: no_faults_def)
  moreover have "has_user demo_store 1" "has_user demo_store 2"
    by (simp_all add: has_user_def demo_store_def)
  moreover have "?m \<in> set (machines demo_store)" "m_owner ?m = 1" "m_id ?m = ''mch_1''"
    by (simp_all add: demo_store_def)
  ultimately show ?thesis
    using invite_end_to_end [OF demo_store_ok, of demo_env demo_env ?m _ _ 2 "'' a987-6543''" 7 3 "''x''"] n p
    by (simp add: duration_defs)
qed

end
