(* ===== verification/Keys.thy ===== *)
theory Keys
  imports Invites "HOL-Library.Multiset"
begin

text \<open>
  API keys, machines and sessions over time: a key authenticates from its creation to its
  revocation and never after, a provider key stays tied to one machine, the list of machines
  shown to a user is the access relation, sessions live a day, and the migration from earlier
  releases.
\<close>

section \<open>The history of keys and machines\<close>

definition key_later :: "APIKey \<Rightarrow> APIKey \<Rightarrow> bool" where
  "key_later k j \<longleftrightarrow> k_id j = k_id k \<and> k_user j = k_user k \<and> k_hash j = k_hash k
     \<and> k_scope j = k_scope k \<and> (k_revoked k \<noteq> None \<longrightarrow> k_revoked j = k_revoked k)"

definition machine_later :: "Machine \<Rightarrow> Machine \<Rightarrow> bool" where
  "machine_later m q \<longleftrightarrow> m_id q = m_id m \<and> m_owner q = m_owner m \<and> m_key q = m_key m"

lemma key_evolve_refl [simp]: "rows_evolve key_later N t t"
  by (rule rows_evolve_same) (simp add: key_later_def)

lemma machine_evolve_refl [simp]: "rows_evolve machine_later N t t"
  by (rule rows_evolve_same) (simp add: machine_later_def)

lemma machine_evolve_rename [simp]:
  "rows_evolve machine_later N t (upd_where P (\<lambda>m. m\<lparr>m_name := x, m_updated := y\<rparr>) t)"
  by (rule rows_evolve_update) (simp_all add: machine_later_def)

lemma machine_evolve_append [simp]: "rows_evolve machine_later (\<lambda>_. True) t (t @ [m])"
  by (rule rows_evolve_append) (simp_all add: machine_later_def)

lemma key_evolve_append [simp]: "rows_evolve key_later (\<lambda>_. True) t (t @ [k])"
  by (rule rows_evolve_append) (simp_all add: key_later_def)

lemma key_evolve_revoke:
  "(\<And>k. P k \<Longrightarrow> k_revoked k = None) \<Longrightarrow>
    rows_evolve key_later N t (upd_where P (\<lambda>k. k\<lparr>k_revoked := Some x\<rparr>) t)"
  by (rule rows_evolve_update) (simp_all add: key_later_def)

named_theorems keys_frame "operations that leave keys and machines alone"

lemma UpsertUser_keys [keys_frame]:
  "api_keys (snd (UpsertUser E g l s)) = api_keys s" "machines (snd (UpsertUser E g l s)) = machines s"
  by (simp_all add: UpsertUser_def Let_def split: option.split)

lemma CreateSession_keys [keys_frame]:
  "api_keys (snd (CreateSession E r u s)) = api_keys s" "machines (snd (CreateSession E r u s)) = machines s"
  by (simp_all add: CreateSession_def split: option.split)

lemma small_keys [keys_frame]:
  "api_keys (snd (DeleteSession E t s)) = api_keys s" "machines (snd (DeleteSession E t s)) = machines s"
  "api_keys (snd (UpdateOwnerStats E u a b c s)) = api_keys s"
  "machines (snd (UpdateOwnerStats E u a b c s)) = machines s"
  "machines (snd (RevokeKey E u k s)) = machines s"
  by (simp_all add: DeleteSession_def UpdateOwnerStats_def RevokeKey_def Let_def)

lemma CreateKey_machines [keys_frame]: "machines (snd (CreateKey E r u sc s)) = machines s"
  by (simp add: CreateKey_def Let_def split: option.split)

lemma EnsureConsumerKey_machines [keys_frame]: "machines (snd (EnsureConsumerKey E r u s)) = machines s"
  using CreateKey_machines [of "shift 1 E" r u "''consumer''" s]
  by (auto simp: EnsureConsumerKey_def split: sum.split option.split prod.split)

lemma UpsertMachine_keys [keys_frame]:
  "api_keys (snd (UpsertMachineByProviderKey E r u k n s)) = api_keys s"
  by (cases rule: UpsertMachine_state [of E r u k n s]) simp_all

lemma RetireMachine_keys [keys_frame]:
  "api_keys (snd (RetireMachine E m s)) = api_keys s" "machines (snd (RetireMachine E m s)) = machines s"
  by (simp_all add: RetireMachine_def Let_def)

lemma RetireMachineByKey_keys [keys_frame]:
  "api_keys (snd (RetireMachineByProviderKeyID E k s)) = api_keys s"
  "machines (snd (RetireMachineByProviderKeyID E k s)) = machines s"
  by (simp_all add: RetireMachineByProviderKeyID_def keys_frame split: sum.split option.split)

lemma CreateInvite_keys [keys_frame]:
  "api_keys (snd (CreateInvite E r m u mx t l s)) = api_keys s"
  "machines (snd (CreateInvite E r m u mx t l s)) = machines s"
  by (simp_all add: CreateInvite_def Let_def split: sum.split option.split)

lemma RevokeInvite_keys [keys_frame]:
  "api_keys (snd (RevokeInvite E u i s)) = api_keys s" "machines (snd (RevokeInvite E u i s)) = machines s"
  by (simp_all add: RevokeInvite_def Let_def)

lemma RedeemPIN_keys [keys_frame]:
  "api_keys (snd (RedeemPIN E u pin s)) = api_keys s" "machines (snd (RedeemPIN E u pin s)) = machines s"
  by (simp_all add: RedeemPIN_def redeem_owner_def redeem_commit_def Let_def
      split: sum.split redeem_plan.split)

lemma revoke_binding_keys [keys_frame]:
  "api_keys (snd (revoke_binding E m u s)) = api_keys s" "machines (snd (revoke_binding E m u s)) = machines s"
  by (simp_all add: revoke_binding_def Let_def)

lemma RevokeMember_keys [keys_frame]:
  "api_keys (snd (RevokeMemberByOwner E w m u s)) = api_keys s"
  "machines (snd (RevokeMemberByOwner E w m u s)) = machines s"
  by (simp_all add: RevokeMemberByOwner_def keys_frame split: sum.split option.split)

lemma CreateKey_evolve: "rows_evolve key_later (\<lambda>_. True) (api_keys s) (api_keys (snd (CreateKey E r u sc s)))"
  by (simp add: CreateKey_def Let_def split: option.split)

lemma RevokeKey_evolve: "rows_evolve key_later N (api_keys s) (api_keys (snd (RevokeKey E u k s)))"
  by (auto simp: RevokeKey_def Let_def intro!: key_evolve_revoke)

lemma EnsureConsumerKey_evolve:
  "rows_evolve key_later (\<lambda>_. True) (api_keys s) (api_keys (snd (EnsureConsumerKey E r u s)))"
  using CreateKey_evolve [of s "shift 1 E" r u "''consumer''"]
  by (auto simp: EnsureConsumerKey_def split: sum.split option.split prod.split)

lemma UpsertMachine_evolve:
  "rows_evolve machine_later (\<lambda>_. True) (machines s) (machines (snd (UpsertMachineByProviderKey E r u k n s)))"
  by (cases rule: UpsertMachine_state [of E r u k n s]) simp_all

interpretation keys_history: row_history store_step api_keys key_later
proof unfold_locales
  fix s and x :: "hostenv \<times> store_op"
  obtain E op where x: "x = (E, op)" by fastforce
  show "rows_evolve key_later (\<lambda>_. True) (api_keys s) (api_keys (store_step x s))"
    unfolding x by (cases op) (simp_all add: keys_frame RevokeBindingByMember_def CreateKey_evolve
        RevokeKey_evolve EnsureConsumerKey_evolve)
qed (auto simp: key_later_def)

interpretation machines_history: row_history store_step machines machine_later
proof unfold_locales
  fix s and x :: "hostenv \<times> store_op"
  obtain E op where x: "x = (E, op)" by fastforce
  show "rows_evolve machine_later (\<lambda>_. True) (machines s) (machines (store_step x s))"
    unfolding x by (cases op) (simp_all add: keys_frame RevokeBindingByMember_def UpsertMachine_evolve)
qed (auto simp: machine_later_def)

section \<open>Keys authenticate until they are revoked\<close>

text \<open>
  A new key authenticates. Without driver failures and a hash collision, \<open>CreateKey\<close> answers
  the key in clear and its id; looking it up by its hash finds a row of that id and user whose
  scope is the normalized one, and looking up any earlier key answers as before.
\<close>

theorem new_key_authenticates:
  assumes "store_ok s" and "no_faults E" and "has_user s u"
    and "\<forall>k \<in> set (api_keys s). k_hash k \<noteq> hashKey E (''inf_'' @ hex_encode bs)"
  shows "\<exists>raw kid s1 k. CreateKey E (Some bs) u scope s = (Inr (raw, kid), s1)
    \<and> FindKeyByHash E (hashKey E raw) s1 = Inr (Some k)
    \<and> k_id k = kid \<and> k_user k = u \<and> k_scope k = normalizeScope scope
    \<and> length raw = 4 + 2 * length bs \<and> k_prefix k = take 8 raw
    \<and> (\<forall>q \<in> set (api_keys s). FindKeyByHash E (k_hash q) s1 = FindKeyByHash E (k_hash q) s)"
proof -
  let ?raw = "''inf_'' @ hex_encode bs"
  let ?k = "\<lparr>k_id = seq_keys s + 1, k_user = u, k_hash = hashKey E ?raw, k_prefix = take 8 ?raw,
    k_scope = normalizeScope scope, k_created = db_now E, k_revoked = None\<rparr>"
  let ?s1 = "s\<lparr>api_keys := api_keys s @ [?k], seq_keys := seq_keys s + 1\<rparr>"
  have c: "CreateKey E (Some bs) u scope s = (Inr (?raw, seq_keys s + 1), ?s1)"
    using assms by (auto simp: CreateKey_def generateAPIKey_def Let_def)
  have "List.find (\<lambda>k. k_hash k = hashKey E ?raw) (api_keys s) = None"
    using assms(4) by (simp add: find_None_iff_ball)
  then have f: "FindKeyByHash E (hashKey E ?raw) ?s1 = Inr (Some ?k)"
    using assms(2) by (simp add: FindKeyByHash_def find_append normalizeScope_def)
  have "FindKeyByHash E (k_hash q) ?s1 = FindKeyByHash E (k_hash q) s" if "q \<in> set (api_keys s)" for q
    using assms(4) that by (auto simp: FindKeyByHash_def find_append split: option.split)
  with c f show ?thesis by fastforce
qed

theorem new_key_authenticates_witness:
  "\<exists>raw kid s1 k. CreateKey demo_env (Some ''ab'') 2 ''donor'' demo_store = (Inr (raw, kid), s1)
    \<and> FindKeyByHash demo_env (hashKey demo_env raw) s1 = Inr (Some k)
    \<and> k_id k = kid \<and> k_user k = 2 \<and> k_scope k = normalizeScope ''donor''"
proof -
  have "length (hashKey demo_env (''inf_'' @ hex_encode ''ab'')) \<noteq> length (hashKey demo_env ''inf_00'')"
    by (simp add: hashKey_def demo_env_def)
  then have "hashKey demo_env ''inf_00'' \<noteq> hashKey demo_env (''inf_'' @ hex_encode ''ab'')" by metis
  then have fresh: "\<forall>k \<in> set (api_keys demo_store). k_hash k \<noteq> hashKey demo_env (''inf_'' @ hex_encode ''ab'')"
    by (simp add: demo_store_def)
  have "no_faults demo_env" "has_user demo_store 2"
    by (simp_all add: no_faults_def has_user_def demo_store_def)
  from new_key_authenticates [OF demo_store_ok this fresh, of "''donor''"] show ?thesis by blast
qed

lemma revoked_not_found:
  assumes "store_ok s" and "k \<in> set (api_keys s)" and "k_revoked k \<noteq> None"
  shows "FindKeyByHash E (k_hash k) s \<noteq> Inr (Some q)"
proof -
  have "List.find (\<lambda>j. k_hash j = k_hash k) (api_keys s) = Some k"
    by (rule distinct_find) (use assms in \<open>simp_all add: store_ok_def keys_ok_def\<close>)
  with assms(3) show ?thesis by (simp add: FindKeyByHash_def)
qed

lemma revoked_dead_user:
  assumes ok: "store_ok s" and rev: "fst (RevokeKey E u kid s) = Inr ()"
    and k: "k \<in> set (api_keys s)" "k_id k = kid"
  shows "k_user k = u
    \<and> FindKeyByHash E' (k_hash k) (fold store_step ops (store_step (E, OpRevokeKey u kid) s)) \<noteq> Inr (Some q)"
proof -
  let ?s1 = "store_step (E, OpRevokeKey u kid) s"
  let ?hit = "\<lambda>k. k_id k = kid \<and> k_user k = u \<and> k_revoked k = None"
  have "count_where ?hit (api_keys s) \<noteq> 0"
    using rev by (auto simp: RevokeKey_def Let_def split: if_splits)
  then obtain j where j: "j \<in> set (api_keys s)" "?hit j" by (auto simp: count_where_0)
  have "j = k"
    by (rule distinct_map_eq [of k_id "api_keys s"])
      (use ok j k in \<open>simp_all add: store_ok_def keys_ok_def\<close>)
  with j have hit: "?hit k" by simp
  have a: "api_keys ?s1 = upd_where ?hit (\<lambda>k. k\<lparr>k_revoked := Some (db_now E)\<rparr>) (api_keys s)"
    using rev by (auto simp: RevokeKey_def Let_def split: if_splits)
  have "k\<lparr>k_revoked := Some (db_now E)\<rparr> \<in> set (api_keys ?s1)"
    unfolding a set_upd_where using hit k(1) by blast
  then obtain q' where q': "q' \<in> set (api_keys (fold store_step ops ?s1))"
    "key_later (k\<lparr>k_revoked := Some (db_now E)\<rparr>) q'"
    using keys_history.run_later by blast
  have "store_ok (fold store_step ops ?s1)"
    by (intro store_system.run_inv store_system.step_inv ok)
  from revoked_not_found [OF this q'(1)] q'(2) hit show ?thesis by (simp add: key_later_def)
qed

lemma revoked_dead:
  assumes "store_ok s" and "fst (RevokeKey E u kid s) = Inr ()" and "k \<in> set (api_keys s)" "k_id k = kid"
  shows "FindKeyByHash E' (k_hash k) (fold store_step ops (store_step (E, OpRevokeKey u kid) s)) \<noteq> Inr (Some q)"
  using revoked_dead_user [OF assms] by blast

text \<open>
  C27: A revoked key never authenticates again. When \<open>RevokeKey\<close> reports success, the key with
  that id belonged to the user, and whatever operations follow, no later lookup by its
  hash returns a key.
\<close>

theorem revoked_key_dead:
  assumes "store_ok s" and "fst (RevokeKey E u kid s) = Inr ()"
    and "k \<in> set (api_keys s)" "k_id k = kid"
  shows "k_user k = u
    \<and> FindKeyByHash E' (k_hash k) (fold store_step ops (store_step (E, OpRevokeKey u kid) s)) \<noteq> Inr (Some q)"
  by (rule revoked_dead_user [OF assms])

theorem revoked_key_dead_witness:
  "k_user (hd (api_keys demo_store)) = 1 \<and> FindKeyByHash demo_env (k_hash (hd (api_keys demo_store)))
     (fold store_step [(demo_env, OpCreateKey (Some ''ab'') 1 ''provider'')]
       (store_step (demo_env, OpRevokeKey 1 1) demo_store)) \<noteq> Inr (Some (hd (api_keys demo_store)))"
  by (rule revoked_key_dead [OF demo_store_ok]) (simp_all add: demo_store_def RevokeKey_def)

section \<open>A provider key keeps its machine\<close>

text \<open>
  Once a provider key has a machine, every later registration with that key, under any
  machine name and after any operations, gets the machine of the same id and owner, so
  members keep their access when a provider reconnects or renames itself.
\<close>

theorem reconnect_same_machine:
  assumes ok: "store_ok s" and m: "m \<in> set (machines s)" and nf: "no_faults E"
    and s1: "s1 = fold store_step ops s"
  shows "\<exists>q. fst (UpsertMachineByProviderKey E rnd u (m_key m) name s1) = Inr (Some q)
    \<and> m_id q = m_id m \<and> m_owner q = m_owner m \<and> (name \<noteq> [] \<longrightarrow> m_name q = name)
    \<and> map m_id (machines (snd (UpsertMachineByProviderKey E rnd u (m_key m) name s1))) = map m_id (machines s1)"
proof -
  obtain q where q: "q \<in> set (machines s1)" "machine_later m q"
    using machines_history.run_later [OF m] unfolding s1 by blast
  have "store_ok s1" unfolding s1 by (rule store_system.run_inv [OF ok])
  then have "List.find (\<lambda>m'. m_key m' = m_key q) (machines s1) = Some q"
    using q(1) by (intro distinct_find) (simp_all add: store_ok_def machines_ok_def)
  with q nf show ?thesis
    by (auto simp: UpsertMachineByProviderKey_def GetMachineByProviderKeyID_def machine_later_def
        map_upd_where)
qed

theorem reconnect_same_machine_witness:
  "\<exists>q. fst (UpsertMachineByProviderKey demo_env None 1 1 ''new'' demo_store) = Inr (Some q)
    \<and> m_id q = ''mch_1'' \<and> m_owner q = 1 \<and> m_name q = ''new''"
proof -
  let ?m = "hd (machines demo_store)"
  have m: "?m \<in> set (machines demo_store)" "m_key ?m = 1" "m_id ?m = ''mch_1''" "m_owner ?m = 1"
    by (simp_all add: demo_store_def)
  have "no_faults demo_env" "demo_store = fold store_step [] demo_store"
    by (simp_all add: no_faults_def)
  from reconnect_same_machine [OF demo_store_ok m(1) this, of None 1 "''new''"]
  have "\<exists>q. fst (UpsertMachineByProviderKey demo_env None 1 1 ''new'' demo_store) = Inr (Some q)
      \<and> m_id q = ''mch_1'' \<and> m_owner q = 1 \<and> (''new'' \<noteq> [] \<longrightarrow> m_name q = ''new'')"
    unfolding m by blast
  then show ?thesis by simp
qed

section \<open>The machines a user sees\<close>

lemma mset_newest_first [simp]: "mset (newest_first f t) = mset t"
  by (simp add: newest_first_def)

lemma distinct_newest_first [simp]: "distinct (map g (newest_first f t)) = distinct (map g t)"
  by (rule mset_eq_imp_distinct_iff) simp

lemma distinct_pair_column:
  "distinct (map (\<lambda>r. (f r, g r)) t) \<Longrightarrow> distinct (map f (filter (\<lambda>r. g r = x \<and> P r) t))"
  by (induction t) auto

lemma filter_unique:
  "distinct (map k t) \<Longrightarrow> filter (\<lambda>r. k r = x \<and> P r) t
    = (case List.find (\<lambda>r. k r = x \<and> P r) t of None \<Rightarrow> [] | Some r \<Rightarrow> [r])"
proof (induction t)
  case (Cons a t)
  show ?case
  proof (cases "k a = x \<and> P a")
    case True
    with Cons.prems have "\<forall>r \<in> set t. k r \<noteq> x" by (auto simp: image_iff)
    then have "filter (\<lambda>r. k r = x \<and> P r) t = []" by simp
    with True show ?thesis by simp
  next
    case False
    with Cons show ?thesis by auto
  qed
qed simp

definition member_entries :: "store \<Rightarrow> Binding list \<Rightarrow> BindingInfo list" where
  "member_entries s bs = concat (map (\<lambda>b. map (\<lambda>m. \<lparr>bi_machine = b_machine b, bi_name = m_name m,
       bi_owner = m_owner m, bi_role = ''member'', bi_created = b_created b\<rparr>)
     (filter (\<lambda>m. m_id m = b_machine b \<and> key_active s (m_key m)) (machines s))) bs)"

lemma member_entries_ids:
  assumes "distinct (map m_id (machines s))"
  shows "map bi_machine (member_entries s bs)
    = map b_machine (filter (\<lambda>b. \<exists>m \<in> set (machines s). m_id m = b_machine b \<and> key_active s (m_key m)) bs)"
proof (induction bs)
  case (Cons b bs)
  let ?P = "\<lambda>m. m_id m = b_machine b \<and> key_active s (m_key m)"
  have "map bi_machine (member_entries s [b]) = (if \<exists>m \<in> set (machines s). ?P m then [b_machine b] else [])"
  proof (cases "List.find ?P (machines s)")
    case None
    then have "\<not> (\<exists>m \<in> set (machines s). ?P m)" unfolding find_None_iff_ball by blast
    with None show ?thesis by (simp add: member_entries_def filter_unique [OF assms])
  next
    case (Some m)
    then have "\<exists>m \<in> set (machines s). ?P m" by (blast dest: find_SomeD)
    with Some show ?thesis by (simp add: member_entries_def filter_unique [OF assms])
  qed
  moreover have "member_entries s (b # bs) = member_entries s [b] @ member_entries s bs"
    by (simp add: member_entries_def)
  ultimately show ?case using Cons by simp
qed (simp add: member_entries_def)

definition online_machine :: "store \<Rightarrow> string \<Rightarrow> bool" where
  "online_machine s mid \<longleftrightarrow> (\<exists>m \<in> set (machines s). m_id m = mid \<and> key_active s (m_key m))"

text \<open>
  The list of machines shown to a user has no machine twice and holds exactly those that
  the user may use and whose provider key is active, as owner or as member.
\<close>

theorem listed_machines_exact:
  assumes ok: "store_ok s" and nf: "no_faults E"
  shows "\<exists>l. ListAccessibleMachines E u s = Inr l \<and> distinct (map bi_machine l)
    \<and> (\<forall>mid. mid \<in> bi_machine ` set l \<longleftrightarrow> may_use s u mid \<and> online_machine s mid)"
proof -
  let ?own = "filter (\<lambda>m. m_owner m = u \<and> key_active s (m_key m)) (machines s)"
  let ?bs = "newest_first b_created (filter (\<lambda>b. b_member b = u \<and> b_revoked b = None) (bindings s))"
  let ?l = "map (\<lambda>m. \<lparr>bi_machine = m_id m, bi_name = m_name m, bi_owner = m_owner m,
      bi_role = ''owner'', bi_created = m_created m\<rparr>) (newest_first m_created ?own) @ member_entries s ?bs"
  have dm: "distinct (map m_id (machines s))" and db: "distinct (map (\<lambda>b. (b_machine b, b_member b)) (bindings s))"
    using ok by (simp_all add: store_ok_def machines_ok_def bindings_ok_def)
  have l: "ListAccessibleMachines E u s = Inr ?l"
    using nf by (simp add: ListAccessibleMachines_def ListMachinesByOwner_def member_entries_def)
  have own: "set (map m_id (newest_first m_created ?own))
      = {m_id m | m. m \<in> set (machines s) \<and> m_owner m = u \<and> key_active s (m_key m)}"
    by auto
  have mem: "set (map bi_machine (member_entries s ?bs)) = {mid. member_access s u mid \<and> online_machine s mid}"
    unfolding member_entries_ids [OF dm] by (auto simp: member_access_def online_machine_def)
  have noown: "m_owner m \<noteq> u" if m: "m \<in> set (machines s)" and a: "member_access s u (m_id m)" for m
  proof -
    obtain b where b: "b \<in> set (bindings s)" "b_machine b = m_id m" "b_member b = u"
      using a by (auto simp: member_access_def)
    then have "admits (invites s) b" using ok by (simp add: store_ok_def bindings_ok_def)
    then obtain i where "i \<in> set (invites s)" "i_machine i = m_id m" "i_owner i \<noteq> u"
      using b by (auto simp: admits_def)
    then show ?thesis using invite_owner [OF ok _ m] by auto
  qed
  have "distinct (map m_id ?own)" by (rule distinct_map_filter [OF dm])
  moreover have "distinct (map bi_machine (member_entries s ?bs))"
    unfolding member_entries_ids [OF dm]
    by (rule distinct_map_filter) (simp add: distinct_pair_column [OF db])
  moreover have "set (map m_id (newest_first m_created ?own)) \<inter> set (map bi_machine (member_entries s ?bs)) = {}"
    unfolding own mem using noown by blast
  ultimately have d: "distinct (map bi_machine ?l)"
    by (simp add: o_def)
  have "mid \<in> bi_machine ` set ?l \<longleftrightarrow> may_use s u mid \<and> online_machine s mid" for mid
  proof -
    have "mid \<in> bi_machine ` set ?l \<longleftrightarrow>
        mid \<in> set (map m_id (newest_first m_created ?own)) \<or> mid \<in> set (map bi_machine (member_entries s ?bs))"
      by (simp add: image_Un image_image)
    also have "\<dots> \<longleftrightarrow> may_use s u mid \<and> online_machine s mid"
      unfolding own mem may_use_def online_machine_def
      using noown machine_unique [OF ok] by (auto split: if_splits)
    finally show ?thesis .
  qed
  with l d show ?thesis by blast
qed

theorem listed_machines_exact_witness:
  "\<exists>l. ListAccessibleMachines demo_env 2 demo_bound = Inr l \<and> distinct (map bi_machine l)
    \<and> (\<forall>mid. mid \<in> bi_machine ` set l \<longleftrightarrow> may_use demo_bound 2 mid \<and> online_machine demo_bound mid)"
  by (rule listed_machines_exact [OF demo_bound_ok]) (simp add: no_faults_def)

section \<open>Sessions\<close>

text \<open>
  C28: A session is valid for a day. Without driver failures and a token collision, the token of
  \<open>CreateSession\<close> names its user until 86400 seconds have passed, names nobody from then
  on, and names nobody after \<open>DeleteSession\<close>; other tokens are not affected.
\<close>

theorem session_life:
  assumes nf: "no_faults E" "no_faults E'" and u: "has_user s u"
    and fresh: "\<forall>q \<in> set (sessions s). se_token q \<noteq> hex_encode bs"
  shows "\<exists>s1. CreateSession E (Some bs) u s = (Inr (hex_encode bs), s1)
    \<and> ValidateSession E' (hex_encode bs) s1 = Inr (if db_now E' < db_now E + 86400 then u else 0)
    \<and> ValidateSession E' (hex_encode bs) (snd (DeleteSession E (hex_encode bs) s1)) = Inr 0
    \<and> (\<forall>t. t \<noteq> hex_encode bs \<longrightarrow> ValidateSession E' t s1 = ValidateSession E' t s
         \<and> ValidateSession E' t (snd (DeleteSession E (hex_encode bs) s1)) = ValidateSession E' t s)"
proof -
  let ?q = "\<lparr>se_token = hex_encode bs, se_user = u, se_created = db_now E, se_expires = db_now E + 86400\<rparr>"
  let ?s1 = "s\<lparr>sessions := sessions s @ [?q]\<rparr>"
  have c: "CreateSession E (Some bs) u s = (Inr (hex_encode bs), ?s1)"
    using assms by (auto simp: CreateSession_def generateSessionToken_def)
  have n: "List.find (\<lambda>q. se_token q = hex_encode bs \<and> db_now E' < se_expires q) (sessions s) = None"
    using fresh by (simp add: find_None_iff_ball)
  have "filter (\<lambda>q. se_token q \<noteq> hex_encode bs) (sessions s @ [?q]) = sessions s"
    using fresh by simp
  then have d: "snd (DeleteSession E (hex_encode bs) ?s1) = s"
    using nf by (simp add: DeleteSession_def)
  have o: "ValidateSession E' t ?s1 = ValidateSession E' t s" if "t \<noteq> hex_encode bs" for t
    using that by (simp add: ValidateSession_def find_append split: option.split)
  have "ValidateSession E' (hex_encode bs) ?s1 = Inr (if db_now E' < db_now E + 86400 then u else 0)"
    "ValidateSession E' (hex_encode bs) s = Inr 0"
    using n nf by (simp_all add: ValidateSession_def find_append)
  with c d o show ?thesis by (intro exI [of _ ?s1]) simp
qed

theorem session_life_witness:
  "\<exists>s1. CreateSession demo_env (Some ''k'') 1 demo_store = (Inr (hex_encode ''k''), s1)
    \<and> ValidateSession demo_env (hex_encode ''k'') s1 = Inr 1
    \<and> ValidateSession demo_env (hex_encode ''k'') (snd (DeleteSession demo_env (hex_encode ''k'') s1)) = Inr 0"
proof -
  have "no_faults demo_env" "has_user demo_store 1"
    "\<forall>q \<in> set (sessions demo_store). se_token q \<noteq> hex_encode ''k''"
    by (simp_all add: no_faults_def has_user_def demo_store_def)
  from session_life [OF this(1) this(1) this(2,3)] show ?thesis by (simp, blast)
qed

section \<open>Migration\<close>

lemma insert_or_ignore_keeps: "r \<in> set t \<Longrightarrow> r \<in> set (insert_or_ignore t rs)"
  by (induction t rs rule: insert_or_ignore.induct) simp_all

lemma insert_or_ignore_has:
  "r \<in> set rs \<Longrightarrow> \<exists>q \<in> set (insert_or_ignore t rs). os_user q = os_user r"
proof (induction t rs rule: insert_or_ignore.induct)
  case (2 t a rs)
  show ?case
  proof (cases "r = a")
    case True
    let ?t = "if \<exists>q \<in> set t. os_user q = os_user a then t else t @ [a]"
    have "\<exists>q \<in> set ?t. os_user q = os_user a"
      by (cases "\<exists>q \<in> set t. os_user q = os_user a") simp_all
    then obtain q where "q \<in> set ?t" "os_user q = os_user a" by blast
    then have "q \<in> set (insert_or_ignore ?t rs)" by (intro insert_or_ignore_keeps)
    with \<open>os_user q = os_user a\<close> True show ?thesis
      unfolding insert_or_ignore.simps by blast
  next
    case False
    with 2 show ?thesis by simp
  qed
qed simp

lemma insert_or_ignore_distinct:
  "distinct (map os_user t) \<Longrightarrow> distinct (map os_user (insert_or_ignore t rs))"
proof (induction t rs rule: insert_or_ignore.induct)
  case (2 t a rs)
  have "distinct (map os_user (if \<exists>q \<in> set t. os_user q = os_user a then t else t @ [a]))"
    using 2(2) by (auto simp: image_iff)
  from 2(1) [OF this] show ?case by simp
qed simp

lemma no_donor_scope [simp]:
  "k_scope k \<noteq> ''donor''" if "k \<in> set (upd_where (\<lambda>k. k_scope k = ''donor'') (\<lambda>k. k\<lparr>k_scope := ''provider''\<rparr>) t)"
  using that by (auto simp: upd_where_def split: if_splits)

lemma rename_scope_idem [simp]:
  "upd_where (\<lambda>k. k_scope k = ''donor'') (\<lambda>k. k\<lparr>k_scope := ''provider''\<rparr>)
      (upd_where (\<lambda>k. k_scope k = ''donor'') (\<lambda>k. k\<lparr>k_scope := ''provider''\<rparr>) t)
    = upd_where (\<lambda>k. k_scope k = ''donor'') (\<lambda>k. k\<lparr>k_scope := ''provider''\<rparr>) t"
  by (rule upd_where_none) (rule no_donor_scope)

text \<open>
  The migration. When no statement but possibly the copying \<open>INSERT\<close> fails, it reports success
  with no key of scope \<open>donor\<close> left and the old table gone, and running it again changes nothing.
  If the \<open>INSERT\<close> worked, the statistics already present are unchanged, each user of the old
  table has a row, and no user has two; if it failed, the old statistics are lost.
\<close>

theorem migrate_from_donor:
  assumes "\<forall>k. k \<noteq> 2 \<longrightarrow> \<not> e_fault E k"
  shows "\<exists>s'. migrate E (Some d) s = (Inr (), None, s')
    \<and> (\<forall>k \<in> set (api_keys s'). k_scope k \<noteq> ''donor'')
    \<and> migrate E None s' = (Inr (), None, s')
    \<and> (if e_fault E 2 then owner_stats s' = owner_stats s
       else set (owner_stats s) \<subseteq> set (owner_stats s')
          \<and> (\<forall>r \<in> set d. \<exists>q \<in> set (owner_stats s'). os_user q = os_user r)
          \<and> (distinct (map os_user (owner_stats s)) \<longrightarrow> distinct (map os_user (owner_stats s'))))"
  using assms insert_or_ignore_has [of _ d "owner_stats s"] insert_or_ignore_keeps [of _ "owner_stats s" d]
    insert_or_ignore_distinct [of "owner_stats s" d]
  by (simp add: migrate_def Let_def subset_iff)

theorem migrate_from_donor_witness:
  "\<exists>s'. migrate (demo_env\<lparr>e_fault := \<lambda>k. k = 2\<rparr>) (Some [\<lparr>os_user = 1, os_requests = 5, os_tokens = 6,
        os_uptime = 7, os_last_seen = None\<rparr>]) demo_store = (Inr (), None, s')
    \<and> owner_stats s' = owner_stats demo_store"
  using migrate_from_donor [of "demo_env\<lparr>e_fault := \<lambda>k. k = 2\<rparr>" "[\<lparr>os_user = 1, os_requests = 5,
      os_tokens = 6, os_uptime = 7, os_last_seen = None\<rparr>]" demo_store] by auto

text \<open>
  A database of an earlier release: well formed once its keys of scope \<open>donor\<close> count as provider keys.
\<close>

definition migratable :: "store \<Rightarrow> bool" where
  "migratable s \<longleftrightarrow> store_ok (s\<lparr>api_keys := upd_where (\<lambda>k. k_scope k = ''donor'') (\<lambda>k. k\<lparr>k_scope := ''provider''\<rparr>) (api_keys s)\<rparr>)"

lemma migrate_shape:
  assumes "migrate E donor s = (Inr u, donor', s')" and "\<not> e_fault E 4"
  shows "s' = s\<lparr>owner_stats := owner_stats s',
      api_keys := upd_where (\<lambda>k. k_scope k = ''donor'') (\<lambda>k. k\<lparr>k_scope := ''provider''\<rparr>) (api_keys s)\<rparr>
    \<and> (distinct (map os_user (owner_stats s)) \<longrightarrow> distinct (map os_user (owner_stats s')))"
  using assms insert_or_ignore_distinct [of "owner_stats s"]
  by (cases donor) (auto simp: migrate_def Let_def split: if_splits)

text \<open>
  What \<open>NewStore\<close> opens is well formed, when the statement that renames the scopes works.
\<close>

lemma NewStore_ok:
  assumes "\<And>donor s. opened = Some (donor, s) \<Longrightarrow> migratable s" and "\<not> e_fault E 4" and "NewStore E opened = Inr s'"
  shows "store_ok s'"
proof -
  obtain donor s donor' u where o: "opened = Some (donor, s)" "migrate E donor s = (Inr u, donor', s')"
    using assms(3) by (auto simp: NewStore_def split: option.splits prod.splits sum.splits)
  obtain t where "s' = s\<lparr>owner_stats := t,
      api_keys := upd_where (\<lambda>k. k_scope k = ''donor'') (\<lambda>k. k\<lparr>k_scope := ''provider''\<rparr>) (api_keys s)\<rparr>"
    and "distinct (map os_user (owner_stats s)) \<longrightarrow> distinct (map os_user t)"
    using migrate_shape [OF o(2) assms(2)] by blast
  with assms(1) [OF o(1)] show ?thesis by (simp add: migratable_def store_ok_def)
qed

end
