(* ===== verification/RedeemRace.thy ===== *)
theory RedeemRace
  imports Keys
begin

text \<open>
  Redemptions under concurrency. The server runs each HTTP request in its own goroutine, so
  other operations may run between the two phases of a redemption: its reads (\<open>redeem_lookup\<close>)
  and its write (\<open>redeem_owner\<close>, or the transaction \<open>redeem_commit\<close>, which repeats the
  guards on uses and revocation but not the one on expiry). A state is the database with the
  redemptions in flight; a step starts one, finishes one or runs another operation.
\<close>

record race =
  db :: store
  in_flight :: "(int \<times> redeem_plan) list"

definition redeem_finish :: "hostenv \<Rightarrow> int \<Rightarrow> redeem_plan \<Rightarrow> store \<Rightarrow> (string \<times> int) result \<times> store" where
  "redeem_finish E u p s = (case p of AsOwner iv \<Rightarrow> redeem_owner E iv s | AsMember iv \<Rightarrow> redeem_commit E u iv s)"

lemma RedeemPIN_phases:
  "RedeemPIN E u pin s = (case redeem_lookup E u pin s of Inl e \<Rightarrow> (Inl e, s) | Inr p \<Rightarrow> redeem_finish E u p s)"
  by (simp add: RedeemPIN_def redeem_finish_def split: sum.split redeem_plan.split)

inductive race_step :: "race \<Rightarrow> race \<Rightarrow> bool" where
  start: "redeem_lookup E u pin (db r) = Inr p \<Longrightarrow>
    race_step r (r\<lparr>in_flight := in_flight r @ [(u, p)]\<rparr>)"
| finish: "in_flight r = xs @ (u, p) # ys \<Longrightarrow>
    race_step r (r\<lparr>db := snd (redeem_finish E u p (db r)), in_flight := xs @ ys\<rparr>)"
| other: "race_step r (r\<lparr>db := store_step x (db r)\<rparr>)"

inductive_cases race_stepE: "race_step r r'"

definition race_start :: "store \<Rightarrow> race" where
  "race_start s = \<lparr>db = s, in_flight = []\<rparr>"

section \<open>Plans stay valid\<close>

lemma plan_ok_mono:
  assumes "plan_ok s u p"
    and inv: "\<And>i. i \<in> set (invites s) \<Longrightarrow> \<exists>j \<in> set (invites s'). invite_later i j"
    and mach: "\<And>m. m \<in> set (machines s) \<Longrightarrow> \<exists>q \<in> set (machines s'). machine_later m q"
  shows "plan_ok s' u p"
proof (cases p)
  case (AsOwner iv)
  then obtain i m where i: "i \<in> set (invites s)" "i_id i = i_id iv" "i_machine i = i_machine iv"
    and m: "m \<in> set (machines s)" "m_id m = i_machine iv" "m_owner m = u"
    using assms(1) by (auto simp: plan_ok_def owned_by_def)
  obtain j q where "j \<in> set (invites s')" "invite_later i j" "q \<in> set (machines s')" "machine_later m q"
    using inv [OF i(1)] mach [OF m(1)] by blast
  with i m AsOwner show ?thesis
    by (auto simp: plan_ok_def owned_by_def invite_later_def machine_later_def intro!: bexI [of _ j] bexI [of _ q])
next
  case (AsMember iv)
  then obtain i where i: "i \<in> set (invites s)" "i_id i = i_id iv" "i_machine i = i_machine iv" "i_owner i \<noteq> u"
    using assms(1) by (auto simp: plan_ok_def)
  obtain j where "j \<in> set (invites s')" "invite_later i j" using inv [OF i(1)] by blast
  with i AsMember show ?thesis by (auto simp: plan_ok_def invite_later_def intro!: bexI [of _ j])
qed

lemma plan_ok_step: "plan_ok s u p \<Longrightarrow> plan_ok (store_step x s) u p"
  using invites_history.run_later [of _ s "[x]"] machines_history.run_later [of _ s "[x]"]
  by (auto intro!: plan_ok_mono [of s u p])

lemma redeem_finish_invites:
  "rows_evolve invite_later N (invites s) (invites (snd (redeem_finish E u p s)))"
  by (simp add: redeem_finish_def redeem_owner_def redeem_commit_def Let_def split: redeem_plan.split)

lemma redeem_finish_machines: "machines (snd (redeem_finish E u p s)) = machines s"
  by (simp add: redeem_finish_def redeem_owner_def redeem_commit_def Let_def split: redeem_plan.split)

lemma plan_ok_finish: "plan_ok s v q \<Longrightarrow> plan_ok (snd (redeem_finish E u p s)) v q"
  by (rule plan_ok_mono)
    (auto simp: redeem_finish_machines machine_later_def
      intro: rows_evolve_row [OF redeem_finish_invites [of "\<lambda>_. True"]])

lemma redeem_finish_ok: "store_ok s \<Longrightarrow> plan_ok s u p \<Longrightarrow> store_ok (snd (redeem_finish E u p s))"
  by (cases p) (simp_all add: redeem_finish_def redeem_owner_ok redeem_commit_ok)

section \<open>The invariant of the interleavings\<close>

definition race_ok :: "race \<Rightarrow> bool" where
  "race_ok r \<longleftrightarrow> store_ok (db r) \<and> (\<forall>u p. (u, p) \<in> set (in_flight r) \<longrightarrow> plan_ok (db r) u p)"

lemma race_step_ok: "race_step r r' \<Longrightarrow> race_ok r \<Longrightarrow> race_ok r'"
proof (induction rule: race_step.induct)
  case (start E u pin r p)
  then show ?case by (auto simp: race_ok_def redeem_lookup_plan_ok)
next
  case (finish r xs u p ys E)
  then show ?case by (auto simp: race_ok_def redeem_finish_ok plan_ok_finish)
next
  case (other r x)
  then show ?case by (auto simp: race_ok_def plan_ok_step intro: store_system.step_inv)
qed

lemma race_reach_ok: "race_step\<^sup>*\<^sup>* r r' \<Longrightarrow> race_ok r \<Longrightarrow> race_ok r'"
  by (induction rule: rtranclp_induct) (auto intro: race_step_ok)

lemma race_start_ok: "store_ok s \<Longrightarrow> race_ok (race_start s)"
  by (simp add: race_ok_def race_start_def)

text \<open>
  C5: Concurrent redemptions cannot overdraw an invite. In every state reachable from a
  well-formed store (the empty one, for a start) by any interleaving of the two phases of any number of redemptions with all other operations, the
  store is well formed; in particular an invite's uses stay within its limit of at most ten
  and it has admitted no more members than that.
\<close>

theorem interleaved_redemptions_ok:
  assumes "store_ok s" and "race_step\<^sup>*\<^sup>* (race_start s) r" and "i \<in> set (invites (db r))"
  shows "store_ok (db r) \<and> i_uses i \<le> i_max_uses i \<and> i_max_uses i \<le> 10
    \<and> int (count_where (\<lambda>b. b_invite b = Some (i_id i)) (bindings (db r))) \<le> i_uses i"
  using race_reach_ok [OF assms(2) race_start_ok [OF assms(1)]] assms(3)
  by (auto simp: race_ok_def store_ok_def invites_ok_def admission_ok_def)

text \<open>User 2 redeems twice at once: both look up before the first one commits.\<close>

definition demo_race :: race where
  "demo_race = \<lparr>db = demo_bound, in_flight = [(2, AsMember demo_invite)]\<rparr>"

lemma demo_race_reach: "race_step\<^sup>*\<^sup>* (race_start demo_store) demo_race"
proof -
  let ?r0 = "race_start demo_store"
  let ?r1 = "?r0\<lparr>in_flight := [(2, AsMember demo_invite)]\<rparr>"
  let ?r2 = "?r0\<lparr>in_flight := [(2, AsMember demo_invite), (2, AsMember demo_invite)]\<rparr>"
  have "race_step ?r0 ?r1"
    using race_step.start [of demo_env 2 "''3456-789A''" ?r0 "AsMember demo_invite"]
    by (simp add: race_start_def demo_lookup)
  moreover have "race_step ?r1 ?r2"
    using race_step.start [of demo_env 2 "''3456-789A''" ?r1 "AsMember demo_invite"]
    by (simp add: race_start_def demo_lookup)
  moreover have "race_step ?r2 demo_race"
    using race_step.finish [of ?r2 "[]" 2 "AsMember demo_invite" "[(2, AsMember demo_invite)]" demo_env]
    by (simp add: race_start_def demo_race_def demo_bound_def RedeemPIN_phases demo_lookup)
  ultimately show ?thesis by (meson converse_rtranclp_into_rtranclp rtranclp.rtrancl_refl)
qed

theorem interleaved_redemptions_ok_witness:
  "store_ok (db demo_race) \<and> i_uses (demo_invite\<lparr>i_uses := 1\<rparr>) \<le> i_max_uses (demo_invite\<lparr>i_uses := 1\<rparr>)
    \<and> i_max_uses (demo_invite\<lparr>i_uses := 1\<rparr>) \<le> 10
    \<and> int (count_where (\<lambda>b. b_invite b = Some (i_id (demo_invite\<lparr>i_uses := 1\<rparr>))) (bindings (db demo_race)))
        \<le> i_uses (demo_invite\<lparr>i_uses := 1\<rparr>)"
  by (rule interleaved_redemptions_ok [OF demo_store_ok demo_race_reach])
    (simp add: demo_race_def demo_bound_eq)

text \<open>
  Revoking wins the race. If the invite of a redemption in flight is revoked before the
  redemption commits, the commit reports the invite exhausted or a driver failure, and
  changes nothing.
\<close>

theorem revoked_before_commit:
  assumes "\<forall>i \<in> set (invites s). i_id i = i_id iv \<longrightarrow> i_revoked i \<noteq> None"
  shows "snd (redeem_finish E u (AsMember iv) s) = s
    \<and> fst (redeem_finish E u (AsMember iv) s) \<in> {Inl ErrExhausted, Inl (DbErr ''begin''), Inl (DbErr ''count use'')}"
proof -
  have "count_where (\<lambda>i. i_id i = i_id iv \<and> i_uses i < i_max_uses i \<and> i_revoked i = None) (invites s) = 0"
    unfolding count_where_0 using assms by auto
  then show ?thesis by (simp add: redeem_finish_def redeem_commit_def Let_def)
qed

theorem revoked_before_commit_witness:
  "snd (redeem_finish demo_env 2 (AsMember demo_invite) (snd (RevokeInvite demo_env 1 1 demo_store)))
      = snd (RevokeInvite demo_env 1 1 demo_store)
    \<and> fst (redeem_finish demo_env 2 (AsMember demo_invite) (snd (RevokeInvite demo_env 1 1 demo_store)))
      \<in> {Inl ErrExhausted, Inl (DbErr ''begin''), Inl (DbErr ''count use'')}"
  by (rule revoked_before_commit) (simp add: RevokeInvite_def demo_store_def demo_invite_def)

end
