(* ===== verification/Registry.thy ===== *)
theory Registry
  imports Proto "HOL-Library.AList" "HOL-Library.Monad_Syntax"
begin

text \<open>
  The in-memory registry of connected providers (\<open>internal/coord/registry.go\<close>). Sessions and
  channels are Go pointers that several goroutines hold, so they live in two heaps and are
  named by their index; the registry maps a machine id to the index of its session. A Go map is
  an association list with distinct keys, the \<open>nil\<close> map is \<open>None\<close>.

  The result \<open>None\<close> of an operation is a panic: closing or sending on a closed channel, or
  writing to a \<open>nil\<close> map.
\<close>

section \<open>Sessions and channels\<close>

record ChunkRelay =
  cr_content :: string
  cr_tool_calls :: string
  cr_done :: bool
  cr_err :: string
  cr_tokens :: int

record channel =
  c_buf :: "ChunkRelay list"
  c_cap :: nat
  c_closed :: bool

record MachineSession =
  ms_machine :: string
  ms_session :: string
  ms_user :: int
  ms_models :: "string list"
  ms_max :: int
  ms_load :: int
  ms_description :: string
  ms_hardware :: string
  ms_connected :: int
  ms_token_hash :: string
  ms_heartbeat :: int
  ms_backend_ok :: bool
  ms_failed_at :: "int option"
  ms_requests :: int
  ms_tokens :: int
  ms_chunks :: "(string \<times> nat) list option"

record registry =
  heap :: "MachineSession list"
  chans :: "channel list"
  online :: "(string \<times> nat) list"

definition NewRegistry :: registry where
  "NewRegistry = \<lparr>heap = [], chans = [], online = []\<rparr>"

definition GetSession :: "string \<Rightarrow> registry \<Rightarrow> nat option" where
  "GetSession mid r = map_of (online r) mid"

definition upd_session :: "nat \<Rightarrow> (MachineSession \<Rightarrow> MachineSession) \<Rightarrow> registry \<Rightarrow> registry" where
  "upd_session k f r = r\<lparr>heap := (heap r)[k := f (heap r ! k)]\<rparr>"

text \<open>An update of the session of a machine; nothing happens when it is not connected.\<close>

definition on_machine :: "string \<Rightarrow> (MachineSession \<Rightarrow> MachineSession) \<Rightarrow> registry \<Rightarrow> registry" where
  "on_machine mid f r = (case GetSession mid r of None \<Rightarrow> r | Some k \<Rightarrow> upd_session k f r)"

definition close_chan :: "nat \<Rightarrow> registry \<Rightarrow> registry option" where
  "close_chan c r = (if c_closed (chans r ! c) then None
     else Some (r\<lparr>chans := (chans r)[c := (chans r ! c)\<lparr>c_closed := True\<rparr>]\<rparr>))"

fun close_all :: "nat list \<Rightarrow> registry \<Rightarrow> registry option" where
  "close_all [] r = Some r"
| "close_all (c # cs) r = close_chan c r \<bind> close_all cs"

definition session_chans :: "MachineSession \<Rightarrow> nat list" where
  "session_chans s = (case ms_chunks s of None \<Rightarrow> [] | Some cs \<Rightarrow> map snd cs)"

section \<open>Operations\<close>

definition Register :: "int \<Rightarrow> MachineSession \<Rightarrow> registry \<Rightarrow> registry option" where
  "Register now s r =
     do {
       r1 \<leftarrow> (case GetSession (ms_machine s) r of
               None \<Rightarrow> Some r
             | Some old \<Rightarrow> close_all (session_chans (heap r ! old)) r);
       Some (r1\<lparr>heap := heap r1 @ [s\<lparr>ms_connected := now, ms_heartbeat := now, ms_backend_ok := True,
                  ms_chunks := Some []\<rparr>],
                online := AList.update (ms_machine s) (length (heap r1)) (online r1)\<rparr>)
     }"

definition Unregister :: "string \<Rightarrow> registry \<Rightarrow> ((int \<times> int \<times> int) \<times> registry) option" where
  "Unregister mid r =
    (case GetSession mid r of
       None \<Rightarrow> Some ((0, 0, 0), r)
     | Some k \<Rightarrow>
         do {
           let s = heap r ! k;
           r1 \<leftarrow> close_all (session_chans s) r;
           let r2 = upd_session k (\<lambda>s. s\<lparr>ms_chunks := None\<rparr>) r1;
           Some ((ms_user s, ms_requests s, ms_tokens s), r2\<lparr>online := AList.delete mid (online r2)\<rparr>)
         })"

definition UpdateHeartbeat :: "int \<Rightarrow> string \<Rightarrow> registry \<Rightarrow> registry" where
  "UpdateHeartbeat now mid = on_machine mid (\<lambda>s. s\<lparr>ms_heartbeat := now\<rparr>)"

definition SetBackendOK :: "int \<Rightarrow> string \<Rightarrow> bool \<Rightarrow> registry \<Rightarrow> registry" where
  "SetBackendOK now mid ok = on_machine mid (\<lambda>s. s\<lparr>ms_backend_ok := ok,
     ms_failed_at := (if ok then ms_failed_at s else Some now)\<rparr>)"

definition IncrementLoad :: "string \<Rightarrow> registry \<Rightarrow> bool \<times> registry" where
  "IncrementLoad mid r =
    (case GetSession mid r of
       None \<Rightarrow> (False, r)
     | Some k \<Rightarrow>
         if ms_load (heap r ! k) \<ge> ms_max (heap r ! k) then (False, r)
         else (True, upd_session k (\<lambda>s. s\<lparr>ms_load := ms_load s + 1, ms_requests := ms_requests s + 1\<rparr>) r))"

definition DecrementLoad :: "string \<Rightarrow> registry \<Rightarrow> registry" where
  "DecrementLoad mid = on_machine mid (\<lambda>s. if ms_load s > 0 then s\<lparr>ms_load := ms_load s - 1\<rparr> else s)"

definition AddTokens :: "string \<Rightarrow> int \<Rightarrow> registry \<Rightarrow> registry" where
  "AddTokens mid n = on_machine mid (\<lambda>s. s\<lparr>ms_tokens := ms_tokens s + n\<rparr>)"

definition HasModel :: "string \<Rightarrow> string \<Rightarrow> registry \<Rightarrow> bool" where
  "HasModel mid model r =
    (case GetSession mid r of
       None \<Rightarrow> False
     | Some k \<Rightarrow> ms_backend_ok (heap r ! k) \<and> model \<in> set (ms_models (heap r ! k)))"

text \<open>\<open>make(chan ChunkRelay, cap)\<close>, and the two methods that enter it in a session and remove it.\<close>

definition make_chan :: "nat \<Rightarrow> registry \<Rightarrow> nat \<times> registry" where
  "make_chan cap r = (length (chans r), r\<lparr>chans := chans r @ [\<lparr>c_buf = [], c_cap = cap, c_closed = False\<rparr>]\<rparr>)"

definition RegisterChunkChannel :: "nat \<Rightarrow> string \<Rightarrow> nat \<Rightarrow> registry \<Rightarrow> registry option" where
  "RegisterChunkChannel k rid c r =
    (case ms_chunks (heap r ! k) of
       None \<Rightarrow> None
     | Some cs \<Rightarrow> Some (upd_session k (\<lambda>s. s\<lparr>ms_chunks := Some (AList.update rid c cs)\<rparr>) r))"

definition UnregisterChunkChannel :: "nat \<Rightarrow> string \<Rightarrow> registry \<Rightarrow> registry" where
  "UnregisterChunkChannel k rid r =
     upd_session k (\<lambda>s. s\<lparr>ms_chunks := map_option (AList.delete rid) (ms_chunks s)\<rparr>) r"

definition CancelAllRequests :: "nat \<Rightarrow> registry \<Rightarrow> registry option" where
  "CancelAllRequests k r =
     do {
       r1 \<leftarrow> close_all (session_chans (heap r ! k)) r;
       Some (upd_session k (\<lambda>s. s\<lparr>ms_chunks := map_option (\<lambda>_. []) (ms_chunks s)\<rparr>) r1)
     }"

text \<open>\<open>LoadFraction\<close> as the fraction it stands for: load over capacity.\<close>

definition LoadFraction :: "MachineSession \<Rightarrow> int \<times> int" where
  "LoadFraction s = (if ms_max s \<le> 0 then (0, 1) else (ms_load s, ms_max s))"

definition AllSessions :: "registry \<Rightarrow> MachineSession list" where
  "AllSessions r = map (\<lambda>(mid, k). heap r ! k) (online r)"

definition MachinesForUser :: "int \<Rightarrow> registry \<Rightarrow> MachineSession list" where
  "MachinesForUser u r = filter (\<lambda>s. ms_user s = u) (AllSessions r)"

definition OnlineCount :: "registry \<Rightarrow> nat" where
  "OnlineCount r = length (online r)"

definition model_sessions :: "registry \<Rightarrow> string \<Rightarrow> MachineSession list" where
  "model_sessions r m = concat (map (\<lambda>s. map (\<lambda>_. s) (filter (\<lambda>x. x = m) (ms_models s)))
     (filter ms_backend_ok (AllSessions r)))"

text \<open>
  \<open>Snapshot\<close>: the number of machines, and for each model the number of healthy machines
  that advertise it with their load fractions, of which the page shows the average.
\<close>

definition Snapshot :: "registry \<Rightarrow> nat \<times> (string \<times> nat \<times> (int \<times> int) list) list" where
  "Snapshot r =
    (let names = remdups (concat (map ms_models (filter ms_backend_ok (AllSessions r))))
     in (length (online r),
         map (\<lambda>m. (m, length (model_sessions r m), map LoadFraction (model_sessions r m))) names))"

definition BadgeForTokens :: "int \<Rightarrow> string" where
  "BadgeForTokens tokens =
    (if tokens \<ge> 1000000 then ''platinum''
     else if tokens \<ge> 100000 then ''gold''
     else if tokens \<ge> 10000 then ''silver''
     else if tokens \<ge> 1000 then ''bronze''
     else ''beginner'')"

definition backendUnhealthyEviction :: int where
  "backendUnhealthyEviction = 5 * minute"

definition stale :: "int \<Rightarrow> int \<Rightarrow> MachineSession \<Rightarrow> bool" where
  "stale now timeout s \<longleftrightarrow> now - ms_heartbeat s > timeout
     \<or> (\<not> ms_backend_ok s \<and> (case ms_failed_at s of None \<Rightarrow> False
          | Some t \<Rightarrow> now - t > backendUnhealthyEviction))"

fun evict_list :: "int \<Rightarrow> int \<Rightarrow> (string \<times> nat) list \<Rightarrow> registry \<Rightarrow> registry option" where
  "evict_list now timeout [] r = Some r"
| "evict_list now timeout ((mid, k) # es) r =
     (if stale now timeout (heap r ! k)
      then close_all (session_chans (heap r ! k)) r
             \<bind> (\<lambda>r1. evict_list now timeout es (r1\<lparr>online := AList.delete mid (online r1)\<rparr>))
      else evict_list now timeout es r)"

definition evictStale :: "int \<Rightarrow> int \<Rightarrow> registry \<Rightarrow> registry option" where
  "evictStale now timeout r = evict_list now timeout (online r) r"

text \<open>
  \<open>StartHeartbeatMonitor\<close> after \<open>n\<close> ticks of its ticker, which fires \<open>tick\<close> after \<open>start\<close> and then
  every \<open>tick\<close>; nothing else happens meanwhile.
\<close>

fun StartHeartbeatMonitor :: "int \<Rightarrow> int \<Rightarrow> int \<Rightarrow> nat \<Rightarrow> registry \<Rightarrow> registry option" where
  "StartHeartbeatMonitor timeout tick start 0 r = Some r"
| "StartHeartbeatMonitor timeout tick start (Suc n) r =
     (let now = start + tick in evictStale now timeout r \<bind> StartHeartbeatMonitor timeout tick now n)"

text \<open>
  A send in a \<open>select\<close> with a \<open>default\<close>: on a closed channel it panics, on a full one the
  value is dropped.
\<close>

definition try_send :: "nat \<Rightarrow> ChunkRelay \<Rightarrow> registry \<Rightarrow> (bool \<times> registry) option" where
  "try_send c x r =
    (let ch = chans r ! c in
     if c_closed ch then None
     else if length (c_buf ch) < c_cap ch
     then Some (True, r\<lparr>chans := (chans r)[c := ch\<lparr>c_buf := c_buf ch @ [x]\<rparr>]\<rparr>)
     else Some (False, r))"

datatype 'a received = Got 'a | Closed | Blocked

definition recv :: "nat \<Rightarrow> registry \<Rightarrow> ChunkRelay received \<times> registry" where
  "recv c r =
    (let ch = chans r ! c in
     case c_buf ch of
       x # xs \<Rightarrow> (Got x, r\<lparr>chans := (chans r)[c := ch\<lparr>c_buf := xs\<rparr>]\<rparr>)
     | [] \<Rightarrow> (if c_closed ch then Closed else Blocked, r))"

text \<open>The session that \<open>handleWSProvider\<close> builds; Go zeroes the fields it does not set.\<close>

definition new_session :: "string \<Rightarrow> string \<Rightarrow> int \<Rightarrow> string \<Rightarrow> RegisterMsg \<Rightarrow> MachineSession" where
  "new_session mid sid user hash reg = \<lparr>ms_machine = mid, ms_session = sid, ms_user = user,
     ms_models = rg_models reg, ms_max = (if rg_max_concurrent reg \<le> 0 then 1 else rg_max_concurrent reg),
     ms_load = 0, ms_description = rg_description reg, ms_hardware = rg_hardware reg, ms_connected = 0,
     ms_token_hash = hash, ms_heartbeat = 0, ms_backend_ok = False, ms_failed_at = None,
     ms_requests = 0, ms_tokens = 0, ms_chunks = None\<rparr>"

end
