(* ===== verification/RegistryInv.thy ===== *)
theory RegistryInv
  imports Prelude Registry
begin

text \<open>
  The invariant of the registry, and what follows from it: taken one at a time, the
  operations never panic and the load of a connected machine stays within its capacity; after
  a sweep no connected session is stale. The \<open>guarded_system\<close> and \<open>safe_system\<close> interfaces lift this to runs.
\<close>

locale guarded_system =
  fixes step :: "'op \<Rightarrow> 'st \<Rightarrow> 'st option"
    and iv :: "'st \<Rightarrow> bool"
    and good :: "'op \<Rightarrow> bool"
  assumes guarded_step: "good op \<Longrightarrow> iv s \<Longrightarrow> \<exists>s'. step op s = Some s' \<and> iv s'"
begin

lemma guarded_run:
  "list_all good ops \<Longrightarrow> iv s \<Longrightarrow> \<exists>s'. fold (\<lambda>op t. t \<bind> step op) ops (Some s) = Some s' \<and> iv s'"
proof (induction ops arbitrary: s)
  case (Cons op ops)
  then obtain s1 where "step op s = Some s1" "iv s1" using guarded_step [of op s] by auto
  with Cons show ?case by simp
qed simp

end

text \<open>Where every operation is admitted the runs are unconditional.\<close>

locale safe_system =
  fixes step :: "'op \<Rightarrow> 'st \<Rightarrow> 'st option"
    and iv :: "'st \<Rightarrow> bool"
  assumes step_safe: "iv s \<Longrightarrow> \<exists>s'. step op s = Some s' \<and> iv s'"

sublocale safe_system \<subseteq> guarded_system step iv "\<lambda>_. True"
  by unfold_locales (rule step_safe)

context safe_system
begin

lemma run_safe: "iv s \<Longrightarrow> \<exists>s'. fold (\<lambda>op t. t \<bind> step op) ops (Some s) = Some s' \<and> iv s'"
  by (rule guarded_run) (simp add: list_all_iff)

end

text \<open>
  A property of the state that every operation keeps unless it is one that \<open>breaks\<close> it (in the state where it
  happens) holds through all runs without such an operation.
\<close>

fun unbroken :: "('op \<Rightarrow> 'st \<Rightarrow> 'st option) \<Rightarrow> ('op \<Rightarrow> 'st \<Rightarrow> bool) \<Rightarrow> 'op list \<Rightarrow> 'st \<Rightarrow> bool" where
  "unbroken step breaks [] s \<longleftrightarrow> True"
| "unbroken step breaks (op # ops) s \<longleftrightarrow> \<not> breaks op s
     \<and> (case step op s of None \<Rightarrow> True | Some s1 \<Rightarrow> unbroken step breaks ops s1)"

locale stable_system = safe_system step iv
  for step :: "'op \<Rightarrow> 'st \<Rightarrow> 'st option" and iv :: "'st \<Rightarrow> bool" +
  fixes breaks :: "'op \<Rightarrow> 'st \<Rightarrow> bool"
    and holds :: "'st \<Rightarrow> bool"
  assumes stable: "iv s \<Longrightarrow> \<not> breaks op s \<Longrightarrow> holds s \<Longrightarrow> step op s = Some s' \<Longrightarrow> holds s'"
begin

lemma stable_run:
  "iv s \<Longrightarrow> unbroken step breaks ops s \<Longrightarrow> holds s \<Longrightarrow> fold (\<lambda>op t. t \<bind> step op) ops (Some s) = Some s' \<Longrightarrow> holds s'"
proof (induction ops arbitrary: s)
  case (Cons op ops)
  obtain s1 where s1: "step op s = Some s1" "iv s1" using step_safe [OF Cons.prems(1)] by blast
  moreover have "holds s1" by (rule stable [OF Cons.prems(1) _ Cons.prems(3) s1(1)]) (use Cons.prems(2) in simp)
  ultimately show ?case using Cons by simp
qed simp

end

section \<open>The invariant\<close>

definition chans_open :: "registry \<Rightarrow> nat list \<Rightarrow> bool" where
  "chans_open r cs \<longleftrightarrow> distinct cs \<and> (\<forall>c \<in> set cs. c < length (chans r) \<and> \<not> c_closed (chans r ! c))"

definition session_ok :: "registry \<Rightarrow> MachineSession \<Rightarrow> bool" where
  "session_ok r s \<longleftrightarrow> (\<exists>cs. ms_chunks s = Some cs \<and> distinct (map fst cs)) \<and> chans_open r (session_chans s)
     \<and> 1 \<le> ms_max s \<and> 0 \<le> ms_load s \<and> ms_load s \<le> ms_max s"

definition registry_ok :: "registry \<Rightarrow> bool" where
  "registry_ok r \<longleftrightarrow> distinct (map fst (online r))
     \<and> (\<forall>mid k. GetSession mid r = Some k \<longrightarrow> k < length (heap r) \<and> ms_machine (heap r ! k) = mid
          \<and> session_ok r (heap r ! k))
     \<and> (\<forall>mid mid' k k'. GetSession mid r = Some k \<longrightarrow> GetSession mid' r = Some k' \<longrightarrow> mid \<noteq> mid'
          \<longrightarrow> set (session_chans (heap r ! k)) \<inter> set (session_chans (heap r ! k')) = {})"

lemma registry_ok_New: "registry_ok NewRegistry"
  by (simp add: registry_ok_def NewRegistry_def GetSession_def)

lemma registry_okD:
  assumes "registry_ok r" and "GetSession mid r = Some k"
  shows "k < length (heap r)" "ms_machine (heap r ! k) = mid" "session_ok r (heap r ! k)"
  using assms by (auto simp: registry_ok_def)

lemma registry_ok_apart:
  "registry_ok r \<Longrightarrow> GetSession mid r = Some k \<Longrightarrow> GetSession mid' r = Some k' \<Longrightarrow> mid \<noteq> mid'
    \<Longrightarrow> set (session_chans (heap r ! k)) \<inter> set (session_chans (heap r ! k')) = {}"
  by (simp add: registry_ok_def)

lemma registry_ok_inj:
  "registry_ok r \<Longrightarrow> GetSession mid r = Some k \<Longrightarrow> GetSession mid' r = Some k \<Longrightarrow> mid = mid'"
  by (metis registry_okD(2))

section \<open>Closing channels\<close>

lemma close_all_spec:
  assumes "chans_open r cs"
  shows "\<exists>r'. close_all cs r = Some r' \<and> heap r' = heap r \<and> online r' = online r
    \<and> length (chans r') = length (chans r)
    \<and> (\<forall>c. c \<notin> set cs \<longrightarrow> chans r' ! c = chans r ! c) \<and> (\<forall>c \<in> set cs. c_closed (chans r' ! c))"
  using assms
proof (induction cs arbitrary: r)
  case Nil
  then show ?case by simp
next
  case (Cons c cs)
  let ?r1 = "r\<lparr>chans := (chans r)[c := (chans r ! c)\<lparr>c_closed := True\<rparr>]\<rparr>"
  have c: "close_chan c r = Some ?r1" "c < length (chans r)" "c \<notin> set cs"
    using Cons.prems by (simp_all add: close_chan_def chans_open_def)
  have "chans_open ?r1 cs"
    using Cons.prems c(3) by (auto simp: chans_open_def nth_list_update)
  from Cons.IH [OF this] obtain r' where r': "close_all cs ?r1 = Some r'" "heap r' = heap r"
    "online r' = online r" "length (chans r') = length (chans r)"
    "\<forall>d. d \<notin> set cs \<longrightarrow> chans r' ! d = chans ?r1 ! d" "\<forall>d \<in> set cs. c_closed (chans r' ! d)"
    by auto
  then have "c_closed (chans r' ! c)" using c by simp
  with c r' show ?case by (auto simp: nth_list_update)
qed

lemma session_ok_chans:
  assumes "session_ok r s" and "length (chans r) \<le> length (chans r')"
    and "\<And>c. c \<in> set (session_chans s) \<Longrightarrow> chans r' ! c = chans r ! c"
  shows "session_ok r' s"
proof -
  have "chans_open r' (session_chans s)"
    using assms by (auto simp: session_ok_def chans_open_def)
  with assms(1) show ?thesis by (simp add: session_ok_def)
qed

text \<open>
  A state whose connected sessions were already connected, kept their machine and gained no
  channel is well formed when each of its sessions is.
\<close>

lemma registry_ok_frame:
  assumes ok: "registry_ok r" and d: "distinct (map fst (online r'))"
    and sub: "\<And>mid k. GetSession mid r' = Some k \<Longrightarrow> GetSession mid r = Some k \<and> k < length (heap r')
      \<and> ms_machine (heap r' ! k) = ms_machine (heap r ! k)
      \<and> set (session_chans (heap r' ! k)) \<subseteq> set (session_chans (heap r ! k))
      \<and> session_ok r' (heap r' ! k)"
  shows "registry_ok r'"
  unfolding registry_ok_def
proof (intro conjI allI impI d)
  fix mid k assume k: "GetSession mid r' = Some k"
  from sub [OF k] show "k < length (heap r')" "session_ok r' (heap r' ! k)" by simp_all
  from sub [OF k] registry_okD(2) [OF ok] show "ms_machine (heap r' ! k) = mid" by simp
next
  fix mid mid' k k'
  assume "GetSession mid r' = Some k" "GetSession mid' r' = Some k'" "mid \<noteq> mid'"
  with sub [of mid k] sub [of mid' k'] registry_ok_apart [OF ok, of mid k mid' k']
  show "set (session_chans (heap r' ! k)) \<inter> set (session_chans (heap r' ! k')) = {}" by blast
qed

lemma upd_session_simps [simp]:
  "online (upd_session k f r) = online r" "chans (upd_session k f r) = chans r"
  "length (heap (upd_session k f r)) = length (heap r)"
  "GetSession mid (upd_session k f r) = GetSession mid r"
  by (simp_all add: upd_session_def GetSession_def)

lemma heap_upd_session:
  "j < length (heap r) \<Longrightarrow> heap (upd_session k f r) ! j = (if j = k then f (heap r ! k) else heap r ! j)"
  by (auto simp: upd_session_def nth_list_update)

lemma session_ok_same_chans: "chans r' = chans r \<Longrightarrow> session_ok r' s = session_ok r s"
  by (simp add: session_ok_def chans_open_def)

lemma upd_session_ok:
  assumes ok: "registry_ok r"
    and f: "session_ok r (heap r ! k) \<Longrightarrow> session_ok r (f (heap r ! k))
      \<and> ms_machine (f (heap r ! k)) = ms_machine (heap r ! k)
      \<and> set (session_chans (f (heap r ! k))) \<subseteq> set (session_chans (heap r ! k))"
  shows "registry_ok (upd_session k f r)"
proof (rule registry_ok_frame [OF ok])
  show "distinct (map fst (online (upd_session k f r)))" using ok by (simp add: registry_ok_def)
next
  fix mid j assume "GetSession mid (upd_session k f r) = Some j"
  then have j: "GetSession mid r = Some j" by simp
  with f registry_okD [OF ok j]
  show "GetSession mid r = Some j \<and> j < length (heap (upd_session k f r))
      \<and> ms_machine (heap (upd_session k f r) ! j) = ms_machine (heap r ! j)
      \<and> set (session_chans (heap (upd_session k f r) ! j)) \<subseteq> set (session_chans (heap r ! j))
      \<and> session_ok (upd_session k f r) (heap (upd_session k f r) ! j)"
    by (cases "j = k") (simp_all add: heap_upd_session session_ok_same_chans [of "upd_session k f r" r])
qed

lemma on_machine_ok:
  assumes "registry_ok r"
    and "\<And>s. session_ok r s \<Longrightarrow> session_ok r (f s) \<and> ms_machine (f s) = ms_machine s
      \<and> set (session_chans (f s)) \<subseteq> set (session_chans s)"
  shows "registry_ok (on_machine mid f r)"
  using assms by (auto simp: on_machine_def intro!: upd_session_ok split: option.split)

lemma GetSession_delete: "GetSession mid (r\<lparr>online := AList.delete m (online r)\<rparr>)
    = (if mid = m then None else GetSession mid r)"
  by (simp add: GetSession_def AList.delete_conv)

text \<open>Closing the channels of a machine and taking it out keeps the rest well formed.\<close>

lemma close_session:
  assumes ok: "registry_ok r" and k: "GetSession mid r = Some k"
  obtains r1 where "close_all (session_chans (heap r ! k)) r = Some r1" "heap r1 = heap r" "online r1 = online r"
    "length (chans r1) = length (chans r)" "registry_ok (r1\<lparr>online := AList.delete mid (online r1)\<rparr>)"
    "\<And>s. session_ok r s \<Longrightarrow> set (session_chans s) \<inter> set (session_chans (heap r ! k)) = {} \<Longrightarrow> session_ok r1 s"
proof -
  have co: "chans_open r (session_chans (heap r ! k))"
    using registry_okD(3) [OF ok k] by (simp add: session_ok_def)
  obtain r1 where r1: "close_all (session_chans (heap r ! k)) r = Some r1" "heap r1 = heap r"
    "online r1 = online r" "length (chans r1) = length (chans r)"
    "\<forall>c. c \<notin> set (session_chans (heap r ! k)) \<longrightarrow> chans r1 ! c = chans r ! c"
    using close_all_spec [OF co] by blast
  have keep: "session_ok r1 s"
    if "session_ok r s" "set (session_chans s) \<inter> set (session_chans (heap r ! k)) = {}" for s
    using that r1(4,5) by (intro session_ok_chans [OF that(1)]) auto
  let ?r2 = "r1\<lparr>online := AList.delete mid (online r1)\<rparr>"
  have "registry_ok ?r2"
  proof (rule registry_ok_frame [OF ok])
    show "distinct (map fst (online ?r2))"
      using ok r1(3) by (simp add: registry_ok_def AList.distinct_delete)
  next
    fix mid' j assume "GetSession mid' ?r2 = Some j"
    then have j: "mid' \<noteq> mid" "GetSession mid' r = Some j"
      using r1(3) by (auto simp: GetSession_def AList.delete_conv split: if_splits)
    have "session_ok r1 (heap r ! j)"
      by (rule keep [OF registry_okD(3) [OF ok j(2)]])
        (use registry_ok_apart [OF ok j(2) k j(1)] in simp)
    then have "session_ok ?r2 (heap r ! j)"
      by (simp add: session_ok_same_chans [of ?r2 r1])
    with j registry_okD [OF ok j(2)] r1(2)
    show "GetSession mid' r = Some j \<and> j < length (heap ?r2)
      \<and> ms_machine (heap ?r2 ! j) = ms_machine (heap r ! j)
      \<and> set (session_chans (heap ?r2 ! j)) \<subseteq> set (session_chans (heap r ! j)) \<and> session_ok ?r2 (heap ?r2 ! j)"
      by simp
  qed
  from that [OF r1(1-4) this keep] show thesis .
qed

section \<open>Every operation keeps it\<close>

lemma UpdateHeartbeat_ok: "registry_ok r \<Longrightarrow> registry_ok (UpdateHeartbeat now mid r)"
  unfolding UpdateHeartbeat_def by (rule on_machine_ok) (auto simp: session_ok_def session_chans_def)

lemma SetBackendOK_ok: "registry_ok r \<Longrightarrow> registry_ok (SetBackendOK now mid b r)"
  unfolding SetBackendOK_def by (rule on_machine_ok) (auto simp: session_ok_def session_chans_def)

lemma AddTokens_ok: "registry_ok r \<Longrightarrow> registry_ok (AddTokens mid n r)"
  unfolding AddTokens_def by (rule on_machine_ok) (auto simp: session_ok_def session_chans_def)

lemma DecrementLoad_ok: "registry_ok r \<Longrightarrow> registry_ok (DecrementLoad mid r)"
  unfolding DecrementLoad_def by (rule on_machine_ok) (auto simp: session_ok_def session_chans_def)

lemma IncrementLoad_ok: "registry_ok r \<Longrightarrow> registry_ok (snd (IncrementLoad mid r))"
  by (auto simp: IncrementLoad_def session_ok_def session_chans_def intro!: upd_session_ok split: option.split)

lemma delete_values: "set (map snd (AList.delete x xs)) \<subseteq> set (map snd xs)"
  by (auto simp: AList.delete_eq)

lemma chans_open_subset:
  "chans_open r cs \<Longrightarrow> set ds \<subseteq> set cs \<Longrightarrow> distinct ds \<Longrightarrow> chans_open r ds"
  by (auto simp: chans_open_def)

lemma session_ok_delete:
  assumes "session_ok r s"
  shows "session_ok r (s\<lparr>ms_chunks := map_option (AList.delete rid) (ms_chunks s)\<rparr>)"
    "set (session_chans (s\<lparr>ms_chunks := map_option (AList.delete rid) (ms_chunks s)\<rparr>)) \<subseteq> set (session_chans s)"
proof -
  let ?s = "s\<lparr>ms_chunks := map_option (AList.delete rid) (ms_chunks s)\<rparr>"
  obtain cs where cs: "ms_chunks s = Some cs" "distinct (map fst cs)" "chans_open r (map snd cs)"
    using assms by (auto simp: session_ok_def session_chans_def)
  have "distinct (map snd (AList.delete rid cs))"
    using cs(3) by (simp add: chans_open_def AList.delete_eq distinct_map_filter)
  then have "chans_open r (map snd (AList.delete rid cs))"
    by (rule chans_open_subset [OF cs(3) delete_values])
  with assms cs show "session_ok r ?s"
    by (simp add: session_ok_def session_chans_def AList.distinct_delete)
  show "set (session_chans ?s) \<subseteq> set (session_chans s)"
    using cs(1) delete_values [of rid cs] by (simp add: session_chans_def)
qed

lemma UnregisterChunkChannel_ok: "registry_ok r \<Longrightarrow> registry_ok (UnregisterChunkChannel k rid r)"
  unfolding UnregisterChunkChannel_def
  by (erule upd_session_ok) (simp add: session_ok_delete)

lemma upd_offline_ok:
  assumes "registry_ok r" and "\<And>mid. GetSession mid r \<noteq> Some k"
  shows "registry_ok (upd_session k f r)"
proof (rule registry_ok_frame [OF assms(1)])
  show "distinct (map fst (online (upd_session k f r)))" using assms(1) by (simp add: registry_ok_def)
next
  fix mid j assume j: "GetSession mid (upd_session k f r) = Some j"
  then have g: "GetSession mid r = Some j" "j \<noteq> k" using assms(2) [of mid] by auto
  with registry_okD [OF assms(1) g(1)]
  show "GetSession mid r = Some j \<and> j < length (heap (upd_session k f r))
      \<and> ms_machine (heap (upd_session k f r) ! j) = ms_machine (heap r ! j)
      \<and> set (session_chans (heap (upd_session k f r) ! j)) \<subseteq> set (session_chans (heap r ! j))
      \<and> session_ok (upd_session k f r) (heap (upd_session k f r) ! j)"
    by (simp add: heap_upd_session session_ok_same_chans [of "upd_session k f r" r])
qed

lemma Unregister_ok:
  assumes ok: "registry_ok r"
  shows "\<exists>x r'. Unregister mid r = Some (x, r') \<and> registry_ok r' \<and> GetSession mid r' = None
    \<and> (\<forall>m. m \<noteq> mid \<longrightarrow> GetSession m r' = GetSession m r)"
proof (cases "GetSession mid r")
  case None
  with ok show ?thesis by (simp add: Unregister_def)
next
  case (Some k)
  obtain r1 where r1: "close_all (session_chans (heap r ! k)) r = Some r1" "online r1 = online r"
    and d: "registry_ok (r1\<lparr>online := AList.delete mid (online r1)\<rparr>)"
    by (rule close_session [OF ok Some]) blast
  let ?f = "\<lambda>s. s\<lparr>ms_chunks := None\<rparr> :: MachineSession"
  let ?r' = "(upd_session k ?f r1)\<lparr>online := AList.delete mid (online r1)\<rparr>"
  have eq: "?r' = upd_session k ?f (r1\<lparr>online := AList.delete mid (online r1)\<rparr>)"
    by (simp add: upd_session_def)
  have "GetSession m (r1\<lparr>online := AList.delete mid (online r1)\<rparr>) \<noteq> Some k" for m
    using registry_ok_inj [OF ok Some, of m] r1(2) by (auto simp: GetSession_def AList.delete_conv)
  then have "registry_ok ?r'" unfolding eq by (intro upd_offline_ok [OF d])
  moreover have "Unregister mid r = Some ((ms_user (heap r ! k), ms_requests (heap r ! k), ms_tokens (heap r ! k)), ?r')"
    using Some r1(1) by (simp add: Unregister_def Let_def)
  moreover have "GetSession mid ?r' = None" "\<forall>m. m \<noteq> mid \<longrightarrow> GetSession m ?r' = GetSession m r"
    using r1(2) by (simp_all add: GetSession_def AList.delete_conv)
  ultimately show ?thesis by blast
qed

lemma CancelAllRequests_ok:
  assumes ok: "registry_ok r" and k: "GetSession mid r = Some k"
  shows "\<exists>r'. CancelAllRequests k r = Some r' \<and> registry_ok r'"
proof -
  obtain r1 where r1: "close_all (session_chans (heap r ! k)) r = Some r1" "heap r1 = heap r" "online r1 = online r"
    and keep: "\<And>s. session_ok r s \<Longrightarrow> set (session_chans s) \<inter> set (session_chans (heap r ! k)) = {} \<Longrightarrow> session_ok r1 s"
    by (rule close_session [OF ok k]) blast
  let ?f = "\<lambda>s. s\<lparr>ms_chunks := map_option (\<lambda>_. []) (ms_chunks s)\<rparr> :: MachineSession"
  have "registry_ok (upd_session k ?f r1)"
  proof (rule registry_ok_frame [OF ok])
    show "distinct (map fst (online (upd_session k ?f r1)))" using ok r1(3) by (simp add: registry_ok_def)
  next
    fix mid' j assume "GetSession mid' (upd_session k ?f r1) = Some j"
    then have j: "GetSession mid' r = Some j" using r1(3) by (simp add: GetSession_def)
    note jd = registry_okD [OF ok j]
    show "GetSession mid' r = Some j \<and> j < length (heap (upd_session k ?f r1))
      \<and> ms_machine (heap (upd_session k ?f r1) ! j) = ms_machine (heap r ! j)
      \<and> set (session_chans (heap (upd_session k ?f r1) ! j)) \<subseteq> set (session_chans (heap r ! j))
      \<and> session_ok (upd_session k ?f r1) (heap (upd_session k ?f r1) ! j)"
    proof (cases "j = k")
      case True
      with jd r1(2) j show ?thesis
        by (auto simp: heap_upd_session session_ok_def session_chans_def chans_open_def)
    next
      case False
      with j k have "mid' \<noteq> mid" by auto
      then have "session_ok r1 (heap r ! j)"
        by (intro keep [OF jd(3)]) (use registry_ok_apart [OF ok j k] in simp)
      with False jd r1(2) j show ?thesis
        by (simp add: heap_upd_session session_ok_same_chans [of "upd_session k ?f r1" r1])
    qed
  qed
  with r1(1) show ?thesis by (simp add: CancelAllRequests_def)
qed

lemma add_session_ok:
  assumes ok: "registry_ok (r\<lparr>online := AList.delete mid (online r)\<rparr>)" and d: "distinct (map fst (online r))"
    and s: "ms_machine s = mid" "ms_chunks s = Some []" "1 \<le> ms_max s" "0 \<le> ms_load s" "ms_load s \<le> ms_max s"
  shows "registry_ok (r\<lparr>heap := heap r @ [s], online := AList.update mid (length (heap r)) (online r)\<rparr>)"
    (is "registry_ok ?r'")
proof -
  let ?d = "r\<lparr>online := AList.delete mid (online r)\<rparr>"
  have old: "k < length (heap r) \<and> heap ?r' ! k = heap r ! k \<and> GetSession m ?d = Some k"
    if "GetSession m ?r' = Some k" "m \<noteq> mid" for m k
  proof -
    have g: "GetSession m ?d = Some k"
      using that by (simp add: GetSession_def AList.update_conv AList.delete_conv)
    from registry_okD(1) [OF ok g] have "k < length (heap r)" by simp
    with g show ?thesis by (simp add: nth_append)
  qed
  have new: "k = length (heap r)" if "GetSession mid ?r' = Some k" for k
    using that by (simp add: GetSession_def AList.update_conv)
  have sok: "session_ok ?r' s" using s by (simp add: session_ok_def session_chans_def chans_open_def)
  have c: "session_ok ?r' q = session_ok ?d q" for q by (rule session_ok_same_chans) simp
  show ?thesis
    unfolding registry_ok_def
  proof (intro conjI allI impI)
    show "distinct (map fst (online ?r'))" using d by (simp add: AList.distinct_update)
  next
    fix m k assume k: "GetSession m ?r' = Some k"
    show "k < length (heap ?r')" using k old new by (cases "m = mid") fastforce+
    show "ms_machine (heap ?r' ! k) = m"
      using k old [OF k] new [of k] s(1) registry_okD(2) [OF ok, of m k] by (cases "m = mid") auto
    show "session_ok ?r' (heap ?r' ! k)"
      using k old [OF k] new [of k] sok registry_okD(3) [OF ok, of m k] c by (cases "m = mid") auto
  next
    fix m m' k k' assume k: "GetSession m ?r' = Some k" "GetSession m' ?r' = Some k'" "m \<noteq> m'"
    have e: "session_chans s = []" using s(2) by (simp add: session_chans_def)
    show "set (session_chans (heap ?r' ! k)) \<inter> set (session_chans (heap ?r' ! k')) = {}"
    proof (cases "m = mid \<or> m' = mid")
      case True
      with k new e show ?thesis by auto
    next
      case False
      with old [OF k(1)] old [OF k(2)] registry_ok_apart [OF ok, of m k m' k'] k(3) show ?thesis by auto
    qed
  qed
qed

lemma Register_ok:
  assumes ok: "registry_ok r" and s: "1 \<le> ms_max s" "ms_load s = 0"
  shows "\<exists>r'. Register now s r = Some r' \<and> registry_ok r'
    \<and> (\<exists>k. GetSession (ms_machine s) r' = Some k \<and> k = length (heap r') - 1 \<and> heap r' ! k = s\<lparr>ms_connected := now, ms_heartbeat := now,
         ms_backend_ok := True, ms_chunks := Some []\<rparr>)
    \<and> (\<forall>m. m \<noteq> ms_machine s \<longrightarrow> GetSession m r' = GetSession m r)"
proof -
  let ?s = "s\<lparr>ms_connected := now, ms_heartbeat := now, ms_backend_ok := True, ms_chunks := Some []\<rparr>"
  obtain r1 where r1: "(case GetSession (ms_machine s) r of None \<Rightarrow> Some r
       | Some old \<Rightarrow> close_all (session_chans (heap r ! old)) r) = Some r1"
    "online r1 = online r" "registry_ok (r1\<lparr>online := AList.delete (ms_machine s) (online r1)\<rparr>)"
  proof (cases "GetSession (ms_machine s) r")
    case None
    then have "AList.delete (ms_machine s) (online r) = online r"
      by (simp add: GetSession_def map_of_eq_None_iff)
    with None ok show ?thesis by (intro that [of r]) simp_all
  next
    case (Some k)
    show ?thesis by (rule close_session [OF ok Some]) (auto intro!: that simp: Some)
  qed
  let ?r' = "r1\<lparr>heap := heap r1 @ [?s], online := AList.update (ms_machine s) (length (heap r1)) (online r1)\<rparr>"
  have "registry_ok ?r'"
    by (rule add_session_ok [OF r1(3)]) (use ok s r1(2) in \<open>simp_all add: registry_ok_def\<close>)
  moreover have "Register now s r = Some ?r'" using r1(1) by (simp add: Register_def)
  moreover have "GetSession (ms_machine s) ?r' = Some (length (heap r1)) \<and> length (heap r1) = length (heap ?r') - 1
      \<and> heap ?r' ! length (heap r1) = ?s"
    "\<forall>m. m \<noteq> ms_machine s \<longrightarrow> GetSession m ?r' = GetSession m r"
    using r1(2) by (simp_all add: GetSession_def AList.update_conv)
  ultimately show ?thesis by blast
qed

section \<open>Channels in use\<close>

lemma buffer_ok:
  assumes ok: "registry_ok r" and l: "length cs = length (chans r)"
    and c: "\<And>i. i < length cs \<Longrightarrow> c_closed (cs ! i) = c_closed (chans r ! i)"
  shows "registry_ok (r\<lparr>chans := cs\<rparr>)"
proof (rule registry_ok_frame [OF ok])
  show "distinct (map fst (online (r\<lparr>chans := cs\<rparr>)))" using ok by (simp add: registry_ok_def)
next
  fix mid k assume "GetSession mid (r\<lparr>chans := cs\<rparr>) = Some k"
  then have k: "GetSession mid r = Some k" by (simp add: GetSession_def)
  have "session_ok (r\<lparr>chans := cs\<rparr>) (heap r ! k)"
    using registry_okD(3) [OF ok k] l c by (simp add: session_ok_def chans_open_def)
  with k registry_okD [OF ok k] show "GetSession mid r = Some k \<and> k < length (heap (r\<lparr>chans := cs\<rparr>))
      \<and> ms_machine (heap (r\<lparr>chans := cs\<rparr>) ! k) = ms_machine (heap r ! k)
      \<and> set (session_chans (heap (r\<lparr>chans := cs\<rparr>) ! k)) \<subseteq> set (session_chans (heap r ! k))
      \<and> session_ok (r\<lparr>chans := cs\<rparr>) (heap (r\<lparr>chans := cs\<rparr>) ! k)" by simp
qed

lemma closed_buf: "i < length cs \<Longrightarrow> c_closed (cs[c := (cs ! c)\<lparr>c_buf := b\<rparr>] ! i) = c_closed (cs ! i)"
  by (cases "c = i") simp_all

lemma recv_ok: "registry_ok r \<Longrightarrow> registry_ok (snd (recv c r))"
  by (auto simp: recv_def Let_def closed_buf intro!: buffer_ok split: list.split)

lemma try_send_ok:
  assumes "registry_ok r" and "\<not> c_closed (chans r ! c)"
  shows "\<exists>b r'. try_send c x r = Some (b, r') \<and> registry_ok r' \<and> heap r' = heap r \<and> online r' = online r"
  using assms by (auto simp: try_send_def Let_def closed_buf intro!: buffer_ok)

text \<open>What a handler does when it starts to wait for a request: a new channel under its id.\<close>

definition open_request :: "nat \<Rightarrow> string \<Rightarrow> nat \<Rightarrow> registry \<Rightarrow> (nat \<times> registry) option" where
  "open_request k rid cap r =
    (let (c, r1) = make_chan cap r in RegisterChunkChannel k rid c r1 \<bind> (\<lambda>r2. Some (c, r2)))"

lemma make_chan_ok:
  assumes ok: "registry_ok r"
  shows "registry_ok (snd (make_chan cap r))"
proof (rule registry_ok_frame [OF ok])
  show "distinct (map fst (online (snd (make_chan cap r))))" using ok by (simp add: registry_ok_def make_chan_def)
next
  fix mid k assume "GetSession mid (snd (make_chan cap r)) = Some k"
  then have k: "GetSession mid r = Some k" by (simp add: GetSession_def make_chan_def)
  have "c < length (chans r)" if "c \<in> set (session_chans (heap r ! k))" for c
    using registry_okD(3) [OF ok k] that by (simp add: session_ok_def chans_open_def)
  then have "session_ok (snd (make_chan cap r)) (heap r ! k)"
    by (intro session_ok_chans [OF registry_okD(3) [OF ok k]]) (simp_all add: make_chan_def nth_append)
  with k registry_okD [OF ok k]
  show "GetSession mid r = Some k \<and> k < length (heap (snd (make_chan cap r)))
      \<and> ms_machine (heap (snd (make_chan cap r)) ! k) = ms_machine (heap r ! k)
      \<and> set (session_chans (heap (snd (make_chan cap r)) ! k)) \<subseteq> set (session_chans (heap r ! k))
      \<and> session_ok (snd (make_chan cap r)) (heap (snd (make_chan cap r)) ! k)"
    by (simp add: make_chan_def)
qed

lemma update_values:
  assumes "distinct (map fst cs)"
  shows "set (map snd (AList.update x v cs)) \<subseteq> insert v (set (map snd cs))"
    and "distinct (map snd cs) \<Longrightarrow> v \<notin> set (map snd cs) \<Longrightarrow> distinct (map snd (AList.update x v cs))"
proof -
  show u: "set (map snd (AList.update x v cs)) \<subseteq> insert v (set (map snd cs))" for cs :: "('a \<times> 'b) list"
    by (induction cs) auto
  show "distinct (map snd cs) \<Longrightarrow> v \<notin> set (map snd cs) \<Longrightarrow> distinct (map snd (AList.update x v cs))"
    using assms
  proof (induction cs)
    case (Cons a cs)
    with u [of cs] show ?case by (auto simp: image_iff)
  qed simp
qed

lemma open_request_ok:
  assumes ok: "registry_ok r" and k: "GetSession mid r = Some k"
  shows "\<exists>c r'. open_request k rid cap r = Some (c, r') \<and> registry_ok r'"
proof -
  let ?c = "length (chans r)"
  define r1 where "r1 = snd (make_chan cap r)"
  have ok1: "registry_ok r1" unfolding r1_def by (rule make_chan_ok [OF ok])
  have k1: "GetSession mid r1 = Some k" and h: "heap r1 = heap r" and o: "online r1 = online r"
    using k by (simp_all add: r1_def make_chan_def GetSession_def)
  have c1: "?c < length (chans r1)" "\<not> c_closed (chans r1 ! ?c)"
    by (simp_all add: r1_def make_chan_def)
  obtain cs where cs: "ms_chunks (heap r ! k) = Some cs" "distinct (map fst cs)" "chans_open r1 (map snd cs)"
    using registry_okD(3) [OF ok1 k1] h by (auto simp: session_ok_def session_chans_def)
  have fresh: "?c \<notin> set (session_chans (heap r ! j))" if "GetSession m r = Some j" for m j
    using registry_okD(3) [OF ok that] by (auto simp: session_ok_def chans_open_def)
  have vals: "set (map snd (AList.update rid ?c cs)) \<subseteq> insert ?c (set (map snd cs))"
    "distinct (map snd (AList.update rid ?c cs))"
    using update_values [OF cs(2), where v = ?c] cs fresh [OF k]
    by (simp_all add: chans_open_def session_chans_def)
  let ?f = "\<lambda>s. s\<lparr>ms_chunks := Some (AList.update rid ?c cs)\<rparr> :: MachineSession"
  let ?r2 = "upd_session k ?f r1"
  have "c < length (chans r1) \<and> \<not> c_closed (chans r1 ! c)" if "c \<in> set (map snd (AList.update rid ?c cs))" for c
  proof -
    have "c = ?c \<or> c \<in> set (map snd cs)" using that vals(1) by blast
    with c1 cs(3) show ?thesis by (auto simp: chans_open_def)
  qed
  then have "chans_open r1 (map snd (AList.update rid ?c cs))"
    using vals(2) by (simp add: chans_open_def)
  then have sok: "session_ok r1 (?f (heap r ! k))"
    using registry_okD(3) [OF ok1 k1] h cs(2)
    by (simp add: session_ok_def session_chans_def AList.distinct_update)
  have "registry_ok ?r2"
    unfolding registry_ok_def
  proof (intro conjI allI impI)
    show "distinct (map fst (online ?r2))" using ok o by (simp add: registry_ok_def)
  next
    fix m j assume "GetSession m ?r2 = Some j"
    then have j: "GetSession m r1 = Some j" by simp
    note jd = registry_okD [OF ok1 j]
    then show "j < length (heap ?r2)" by simp
    show "ms_machine (heap ?r2 ! j) = m" using jd by (cases "j = k") (simp_all add: heap_upd_session)
    show "session_ok ?r2 (heap ?r2 ! j)"
      using jd sok h by (auto simp: heap_upd_session session_ok_same_chans [of ?r2 r1])
  next
    fix m m' j j' assume g: "GetSession m ?r2 = Some j" "GetSession m' ?r2 = Some j'" "m \<noteq> m'"
    then have j: "GetSession m r1 = Some j" "GetSession m' r1 = Some j'" by simp_all
    have old: "GetSession m r = Some j" "GetSession m' r = Some j'"
      using j o by (simp_all add: GetSession_def)
    have "j \<noteq> j'" using registry_ok_inj [OF ok1 j(1)] j(2) g(3) by auto
    have sub: "set (session_chans (heap ?r2 ! i)) \<subseteq>
        (if i = k then insert ?c (set (session_chans (heap r ! k))) else set (session_chans (heap r ! i)))"
      if "GetSession n r1 = Some i" for n i
      using registry_okD(1) [OF ok1 that] h vals(1) cs(1) by (simp add: heap_upd_session session_chans_def)
    have "set (session_chans (heap r ! j)) \<inter> set (session_chans (heap r ! j')) = {}"
      using registry_ok_apart [OF ok old g(3)] .
    with sub [OF j(1)] sub [OF j(2)] fresh [OF old(1)] fresh [OF old(2)] \<open>j \<noteq> j'\<close>
    show "set (session_chans (heap ?r2 ! j)) \<inter> set (session_chans (heap ?r2 ! j')) = {}"
      by (cases "j = k"; cases "j' = k"; simp; blast)
  qed
  moreover have "open_request k rid cap r = Some (?c, ?r2)"
    using cs(1) h by (simp add: open_request_def make_chan_def RegisterChunkChannel_def r1_def)
  ultimately show ?thesis by blast
qed

section \<open>The sweep\<close>

definition sweep :: "int \<Rightarrow> int \<Rightarrow> MachineSession list \<Rightarrow> (string \<times> nat) list \<Rightarrow> string \<Rightarrow> nat option \<Rightarrow> nat option" where
  "sweep now timeout h es m g = (case map_of es m of None \<Rightarrow> g
     | Some k \<Rightarrow> if stale now timeout (h ! k) then None else g)"

lemma sweep_Cons: "sweep now timeout h ((mid, k) # es) m g
    = (if m = mid then (if stale now timeout (h ! k) then None else g) else sweep now timeout h es m g)"
  by (simp add: sweep_def)

lemma sweep_absent: "mid \<notin> fst ` set es \<Longrightarrow> sweep now timeout h es mid g = g"
  by (simp add: sweep_def map_of_eq_None_iff [THEN iffD2])

lemma evict_list_ok:
  assumes "registry_ok r" and "distinct (map fst es)"
    and "\<forall>m k. (m, k) \<in> set es \<longrightarrow> GetSession m r = Some k"
  shows "\<exists>r'. evict_list now timeout es r = Some r' \<and> registry_ok r' \<and> heap r' = heap r
    \<and> (\<forall>m. GetSession m r' = sweep now timeout (heap r) es m (GetSession m r))"
  using assms
proof (induction es arbitrary: r)
  case Nil
  then show ?case by (simp add: sweep_def)
next
  case (Cons e es)
  obtain mid k where e: "e = (mid, k)" by fastforce
  have k: "GetSession mid r = Some k" using Cons.prems(3) e by simp
  have mid: "mid \<notin> fst ` set es" and d: "distinct (map fst es)"
    using Cons.prems(2) e by auto
  show ?case
  proof (cases "stale now timeout (heap r ! k)")
    case True
    obtain r1 where r1: "close_all (session_chans (heap r ! k)) r = Some r1" "heap r1 = heap r" "online r1 = online r"
      "registry_ok (r1\<lparr>online := AList.delete mid (online r1)\<rparr>)"
      by (rule close_session [OF Cons.prems(1) k]) blast
    define r2 where "r2 = r1\<lparr>online := AList.delete mid (online r1)\<rparr>"
    have g: "GetSession m r2 = (if m = mid then None else GetSession m r)" for m
      using r1(3) by (simp add: r2_def GetSession_def AList.delete_conv)
    have "m \<noteq> mid" if "(m, j) \<in> set es" for m j using mid that by force
    then have es: "\<forall>m k. (m, k) \<in> set es \<longrightarrow> GetSession m r2 = Some k"
      using Cons.prems(3) g by (metis list.set_intros(2))
    have ok2: "registry_ok r2" using r1(4) by (simp add: r2_def)
    obtain r' where r': "evict_list now timeout es r2 = Some r'" "registry_ok r'" "heap r' = heap r2"
      "\<forall>m. GetSession m r' = sweep now timeout (heap r2) es m (GetSession m r2)"
      using Cons.IH [OF ok2 d es] by blast
    have h: "heap r2 = heap r" using r1(2) by (simp add: r2_def)
    have "evict_list now timeout (e # es) r = Some r'"
      using True r1(1) r'(1) e by (simp add: r2_def)
    moreover have "GetSession m r' = sweep now timeout (heap r) (e # es) m (GetSession m r)" for m
      using r'(4) h g True sweep_absent [OF mid] by (simp add: e sweep_Cons)
    ultimately show ?thesis using r'(2,3) h by auto
  next
    case False
    have es: "\<forall>m k. (m, k) \<in> set es \<longrightarrow> GetSession m r = Some k" using Cons.prems(3) by auto
    obtain r' where r': "evict_list now timeout es r = Some r'" "registry_ok r'" "heap r' = heap r"
      "\<forall>m. GetSession m r' = sweep now timeout (heap r) es m (GetSession m r)"
      using Cons.IH [OF Cons.prems(1) d es] by blast
    moreover have "GetSession m r' = sweep now timeout (heap r) (e # es) m (GetSession m r)" for m
      using r'(4) False sweep_absent [OF mid] by (simp add: e sweep_Cons)
    ultimately show ?thesis using False e by auto
  qed
qed

lemma evictStale_spec:
  assumes ok: "registry_ok r"
  shows "\<exists>r'. evictStale now timeout r = Some r' \<and> registry_ok r' \<and> heap r' = heap r
    \<and> (\<forall>m. GetSession m r' = (case GetSession m r of None \<Rightarrow> None
          | Some k \<Rightarrow> if stale now timeout (heap r ! k) then None else Some k))"
proof -
  have d: "distinct (map fst (online r))" using ok by (simp add: registry_ok_def)
  then have "\<forall>m k. (m, k) \<in> set (online r) \<longrightarrow> GetSession m r = Some k" by (simp add: GetSession_def)
  from evict_list_ok [OF ok d this, of now timeout] obtain r' where
    r': "evictStale now timeout r = Some r'" "registry_ok r'" "heap r' = heap r"
    "\<forall>m. GetSession m r' = sweep now timeout (heap r) (online r) m (GetSession m r)"
    by (auto simp: evictStale_def)
  then show ?thesis
    by (intro exI [of _ r']) (simp add: sweep_def GetSession_def split: option.split)
qed

end
