(* ===== verification/RegistryRuns.thy ===== *)
theory RegistryRuns
  imports RegistryInv
begin

text \<open>
  The registry as a system of operations: runs never panic and keep loads within capacity, the
  sweep removes exactly the stale sessions. Then two things that hold only between operations taken
  one at a time: the load counter, which the code updates under a read lock, and the badge.
\<close>

datatype reg_op =
    RConnect int string string int string RegisterMsg
  | RDisconnect string
  | RHeartbeat int string
  | RBackend int string bool
  | RIncrement string
  | RDecrement string
  | RAddTokens string int
  | ROpen string string nat
  | RFinish string string
  | RCancel string
  | RSend string string ChunkRelay
  | RRecv nat
  | REvict int int

text \<open>The channel of a request, looked up as the read loop does.\<close>

definition chunk_chan :: "string \<Rightarrow> string \<Rightarrow> registry \<Rightarrow> nat option" where
  "chunk_chan mid rid r = (case GetSession mid r of None \<Rightarrow> None
     | Some k \<Rightarrow> (case ms_chunks (heap r ! k) of None \<Rightarrow> None | Some cs \<Rightarrow> map_of cs rid))"

fun reg_step :: "reg_op \<Rightarrow> registry \<Rightarrow> registry option" where
  "reg_step (RConnect now mid sid u h reg) r = Register now (new_session mid sid u h reg) r"
| "reg_step (RDisconnect mid) r = map_option snd (Unregister mid r)"
| "reg_step (RHeartbeat now mid) r = Some (UpdateHeartbeat now mid r)"
| "reg_step (RBackend now mid b) r = Some (SetBackendOK now mid b r)"
| "reg_step (RIncrement mid) r = Some (snd (IncrementLoad mid r))"
| "reg_step (RDecrement mid) r = Some (DecrementLoad mid r)"
| "reg_step (RAddTokens mid n) r = Some (AddTokens mid n r)"
| "reg_step (ROpen mid rid cap) r = (case GetSession mid r of None \<Rightarrow> Some r
     | Some k \<Rightarrow> map_option snd (open_request k rid cap r))"
| "reg_step (RFinish mid rid) r = (case GetSession mid r of None \<Rightarrow> Some r
     | Some k \<Rightarrow> Some (UnregisterChunkChannel k rid r))"
| "reg_step (RCancel mid) r = (case GetSession mid r of None \<Rightarrow> Some r | Some k \<Rightarrow> CancelAllRequests k r)"
| "reg_step (RSend mid rid x) r = (case chunk_chan mid rid r of None \<Rightarrow> Some r
     | Some c \<Rightarrow> map_option snd (try_send c x r))"
| "reg_step (RRecv c) r = Some (snd (recv c r))"
| "reg_step (REvict now timeout) r = evictStale now timeout r"

lemma chunk_chan_open:
  assumes "registry_ok r" and "chunk_chan mid rid r = Some c"
  shows "c < length (chans r) \<and> \<not> c_closed (chans r ! c)"
proof -
  obtain k cs where k: "GetSession mid r = Some k" "ms_chunks (heap r ! k) = Some cs" "map_of cs rid = Some c"
    using assms(2) by (auto simp: chunk_chan_def split: option.splits)
  then have "c \<in> set (session_chans (heap r ! k))"
    by (force simp: session_chans_def dest: map_of_SomeD)
  with registry_okD(3) [OF assms(1) k(1)] show ?thesis by (simp add: session_ok_def chans_open_def)
qed

lemma reg_step_ok:
  assumes "registry_ok r"
  shows "\<exists>r'. reg_step op r = Some r' \<and> registry_ok r'"
proof (cases op)
  case (RConnect now mid sid u h reg)
  with Register_ok [OF assms, of "new_session mid sid u h reg" now] show ?thesis
    by (auto simp: new_session_def)
next
  case (RDisconnect mid)
  with Unregister_ok [OF assms, of mid] show ?thesis by auto
next
  case (ROpen mid rid cap)
  with open_request_ok [OF assms, of mid _ rid cap] assms show ?thesis by (fastforce split: option.split)
next
  case (RCancel mid)
  with CancelAllRequests_ok [OF assms, of mid] assms show ?thesis by (auto split: option.split)
next
  case (RSend mid rid x)
  show ?thesis
  proof (cases "chunk_chan mid rid r")
    case (Some c)
    with chunk_chan_open [OF assms Some] try_send_ok [OF assms, of c x] RSend show ?thesis by auto
  qed (use assms RSend in simp)
next
  case (REvict now timeout)
  with evictStale_spec [OF assms, of now timeout] show ?thesis by auto
qed (use assms in \<open>auto simp: UpdateHeartbeat_ok SetBackendOK_ok IncrementLoad_ok DecrementLoad_ok
    AddTokens_ok UnregisterChunkChannel_ok recv_ok split: option.split\<close>)

interpretation registry_system: safe_system reg_step registry_ok
  by unfold_locales (rule reg_step_ok)

definition within_capacity :: "MachineSession \<Rightarrow> bool" where
  "within_capacity s \<longleftrightarrow> 0 \<le> ms_load s \<and> ms_load s \<le> ms_max s \<and> 1 \<le> ms_max s"

lemma registry_ok_sessions: "registry_ok r \<Longrightarrow> list_all within_capacity (AllSessions r)"
proof -
  assume ok: "registry_ok r"
  have "within_capacity (heap r ! k)" if "(mid, k) \<in> set (online r)" for mid k
  proof -
    have "GetSession mid r = Some k" using ok that by (simp add: registry_ok_def GetSession_def)
    from registry_okD(3) [OF ok this] show ?thesis by (simp add: session_ok_def within_capacity_def)
  qed
  then show ?thesis by (auto simp: AllSessions_def list_all_iff)
qed

text \<open>
  Executed one at a time, the registry's operations never panic and never overload a
  machine. From the empty registry, any sequence of connections, disconnections, load
  changes, requests opened, relayed, finished and cancelled, backend reports and sweeps
  runs to its end, and then each connected machine has a load between zero and its capacity.
\<close>

theorem registry_never_panics:
  "\<exists>r. fold (\<lambda>op s. s \<bind> reg_step op) ops (Some NewRegistry) = Some r
    \<and> list_all within_capacity (AllSessions r)"
  using registry_system.run_safe [OF registry_ok_New, of ops] registry_ok_sessions by blast

section \<open>The sweep\<close>

lemma stale_later: "stale now timeout s \<Longrightarrow> now \<le> now' \<Longrightarrow> stale now' timeout s"
  by (auto simp: stale_def split: option.splits)

lemma not_stale: "\<not> stale now timeout s \<longleftrightarrow> now - ms_heartbeat s \<le> timeout
    \<and> (ms_backend_ok s \<or> ms_failed_at s = None \<or> now - the (ms_failed_at s) \<le> 5 * minute)"
  by (auto simp: stale_def backendUnhealthyEviction_def split: option.splits)

lemma evict_iff:
  assumes "registry_ok r"
  shows "\<exists>r'. evictStale now timeout r = Some r' \<and> registry_ok r' \<and> heap r' = heap r
    \<and> (\<forall>mid k. GetSession mid r' = Some k \<longleftrightarrow> GetSession mid r = Some k \<and> \<not> stale now timeout (heap r ! k))"
proof -
  obtain r' where "evictStale now timeout r = Some r'" "registry_ok r'" "heap r' = heap r"
    "\<forall>m. GetSession m r' = (case GetSession m r of None \<Rightarrow> None
          | Some k \<Rightarrow> if stale now timeout (heap r ! k) then None else Some k)"
    using evictStale_spec [OF assms] by blast
  then show ?thesis by (intro exI [of _ r']) (auto split: option.split)
qed

lemma monitor_sweeps:
  assumes "registry_ok r" and "0 \<le> tick"
  shows "\<exists>r'. StartHeartbeatMonitor timeout tick start n r = Some r' \<and> registry_ok r' \<and> heap r' = heap r
    \<and> (\<forall>mid k. GetSession mid r' = Some k \<longleftrightarrow> GetSession mid r = Some k
         \<and> (n = 0 \<or> \<not> stale (start + int n * tick) timeout (heap r ! k)))"
  using assms(1)
proof (induction n arbitrary: r start)
  case (Suc n)
  let ?now = "start + tick"
  obtain r1 where r1: "evictStale ?now timeout r = Some r1" "registry_ok r1" "heap r1 = heap r"
    "\<forall>mid k. GetSession mid r1 = Some k \<longleftrightarrow> GetSession mid r = Some k \<and> \<not> stale ?now timeout (heap r ! k)"
    using evict_iff [OF Suc.prems] by blast
  have l: "start + int (Suc n) * tick = ?now + int n * tick" by (simp add: algebra_simps)
  have "stale ?now timeout s \<Longrightarrow> stale (?now + int n * tick) timeout s" for s
    by (erule stale_later) (use assms(2) in \<open>simp add: mult_nonneg_nonneg\<close>)
  with Suc.IH [OF r1(2), of ?now] r1 show ?case unfolding l by (cases "n = 0") auto
qed simp

text \<open>
  The sweep removes exactly the stale sessions: a machine stays connected if and only if it
  was, its last heartbeat is within the timeout, and its backend is not marked failed for more
  than five minutes; sessions themselves are not changed and nothing panics.
\<close>

theorem evict_exact:
  assumes "registry_ok r"
  shows "\<exists>r'. evictStale now timeout r = Some r' \<and> heap r' = heap r
    \<and> (\<forall>mid k. GetSession mid r' = Some k \<longleftrightarrow> GetSession mid r = Some k
        \<and> now - ms_heartbeat (heap r ! k) \<le> timeout
        \<and> (ms_backend_ok (heap r ! k) \<or> ms_failed_at (heap r ! k) = None
            \<or> now - the (ms_failed_at (heap r ! k)) \<le> 5 * minute))"
  using evict_iff [OF assms, of now timeout] by (auto simp: not_stale)

definition demo_reg :: RegisterMsg where
  "demo_reg = \<lparr>rg_models = [''llama3''], rg_max_concurrent = 1, rg_description = ''box'', rg_hardware = ''gpu''\<rparr>"

definition demo_registry :: registry where
  "demo_registry = the (reg_step (RConnect 0 ''mch_1'' ''s1'' 1 ''h1'' demo_reg) NewRegistry)"

lemma demo_registry_ok: "registry_ok demo_registry"
  unfolding demo_registry_def
  using reg_step_ok [OF registry_ok_New, of "RConnect 0 ''mch_1'' ''s1'' 1 ''h1'' demo_reg"] by force

theorem evict_exact_witness:
  "\<exists>r'. evictStale (91 * second) HeartbeatTimeout demo_registry = Some r' \<and> GetSession ''mch_1'' r' = None"
proof -
  have h: "GetSession ''mch_1'' demo_registry = Some 0" "ms_heartbeat (heap demo_registry ! 0) = 0"
    by (simp_all add: demo_registry_def Register_def NewRegistry_def GetSession_def new_session_def)
  obtain r' where r': "evictStale (91 * second) HeartbeatTimeout demo_registry = Some r'"
    "\<forall>mid k. GetSession mid r' = Some k \<longleftrightarrow> GetSession mid demo_registry = Some k
        \<and> 91 * second - ms_heartbeat (heap demo_registry ! k) \<le> HeartbeatTimeout
        \<and> (ms_backend_ok (heap demo_registry ! k) \<or> ms_failed_at (heap demo_registry ! k) = None
            \<or> 91 * second - the (ms_failed_at (heap demo_registry ! k)) \<le> 5 * minute)"
    using evict_exact [OF demo_registry_ok, of "91 * second" HeartbeatTimeout] by blast
  have "GetSession ''mch_1'' r' \<noteq> Some k" for k
    using r'(2) h by (auto simp: HeartbeatTimeout_def second_def)
  with r'(1) show ?thesis by blast
qed

text \<open>
  C30: The monitor removes a machine exactly when it has gone silent or its backend stays failed. After its
  \<open>n\<close>-th tick a machine is connected if and only if it was, its last heartbeat is not older than the timeout,
  and its backend is not marked failed for more than five minutes. So a machine that stops its heartbeats is
  gone at the first tick after the timeout, with 90 and 15 seconds at most 105 seconds after the last one.
\<close>

theorem monitor_exact:
  assumes "registry_ok r" and "0 \<le> tick" and "0 < n"
  shows "\<exists>r'. StartHeartbeatMonitor timeout tick start n r = Some r' \<and> heap r' = heap r
    \<and> (\<forall>mid k. GetSession mid r' = Some k \<longleftrightarrow> GetSession mid r = Some k
        \<and> start + int n * tick - ms_heartbeat (heap r ! k) \<le> timeout
        \<and> (ms_backend_ok (heap r ! k) \<or> ms_failed_at (heap r ! k) = None
            \<or> start + int n * tick - the (ms_failed_at (heap r ! k)) \<le> 5 * minute))"
  using monitor_sweeps [OF assms(1,2), of timeout start n] assms(3) by (auto simp: not_stale)

theorem monitor_exact_witness:
  "\<exists>r'. StartHeartbeatMonitor HeartbeatTimeout HeartbeatMonitorTick 0 7 demo_registry = Some r' \<and> GetSession ''mch_1'' r' = None"
proof -
  have h: "GetSession ''mch_1'' demo_registry = Some 0" "ms_heartbeat (heap demo_registry ! 0) = 0"
    by (simp_all add: demo_registry_def Register_def NewRegistry_def GetSession_def new_session_def)
  have "0 \<le> HeartbeatMonitorTick" "0 < (7::nat)" "7 * HeartbeatMonitorTick > HeartbeatTimeout"
    by (simp_all add: HeartbeatMonitorTick_def HeartbeatTimeout_def second_def)
  from monitor_exact [OF demo_registry_ok this(1,2), of HeartbeatTimeout 0] obtain r' where
    "StartHeartbeatMonitor HeartbeatTimeout HeartbeatMonitorTick 0 7 demo_registry = Some r'"
    "\<And>k. GetSession ''mch_1'' r' = Some k \<Longrightarrow> k = 0 \<and> 7 * HeartbeatMonitorTick \<le> HeartbeatTimeout"
    using h by fastforce
  with \<open>7 * HeartbeatMonitorTick > HeartbeatTimeout\<close> show ?thesis by (cases "GetSession ''mch_1'' r'") auto
qed

end
