(* ===== verification/LoadRace.thy ===== *)
theory LoadRace
  imports RegistryRuns
begin

text \<open>
  \<open>IncrementLoad\<close> holds only the read lock of the registry, which any number of goroutines may hold
  at once, so its memory accesses interleave: the comparison of the load with the capacity, the
  read of \<open>CurrentLoad++\<close> and its write. A state is the load of one session with the position
  of each goroutine that runs \<open>IncrementLoad\<close> on it.
\<close>

datatype position = Entered | Passed | HasRead int | Admitted | Refused

record load_state =
  lo_load :: int
  lo_max :: int
  lo_pos :: "position list"

inductive load_step :: "load_state \<Rightarrow> load_state \<Rightarrow> bool" where
  check_ok: "i < length (lo_pos s) \<Longrightarrow> lo_pos s ! i = Entered \<Longrightarrow> \<not> lo_load s \<ge> lo_max s \<Longrightarrow>
    load_step s (s\<lparr>lo_pos := (lo_pos s)[i := Passed]\<rparr>)"
| check_full: "i < length (lo_pos s) \<Longrightarrow> lo_pos s ! i = Entered \<Longrightarrow> lo_load s \<ge> lo_max s \<Longrightarrow>
    load_step s (s\<lparr>lo_pos := (lo_pos s)[i := Refused]\<rparr>)"
| read_load: "i < length (lo_pos s) \<Longrightarrow> lo_pos s ! i = Passed \<Longrightarrow>
    load_step s (s\<lparr>lo_pos := (lo_pos s)[i := HasRead (lo_load s)]\<rparr>)"
| write_load: "i < length (lo_pos s) \<Longrightarrow> lo_pos s ! i = HasRead n \<Longrightarrow>
    load_step s (s\<lparr>lo_load := n + 1, lo_pos := (lo_pos s)[i := Admitted]\<rparr>)"

inductive_cases load_stepE: "load_step s s'"

definition admitted :: "load_state \<Rightarrow> nat" where
  "admitted s = count_where (\<lambda>p. p = Admitted) (lo_pos s)"

definition load_start :: "int \<Rightarrow> int \<Rightarrow> nat \<Rightarrow> load_state" where
  "load_start load mx n = \<lparr>lo_load = load, lo_max = mx, lo_pos = replicate n Entered\<rparr>"

text \<open>The uninterleaved run of one goroutine is the atomic \<open>IncrementLoad\<close>.\<close>

lemma load_alone:
  assumes "i < length (lo_pos s)" "lo_pos s ! i = Entered" "lo_load s < lo_max s"
  shows "load_step\<^sup>*\<^sup>* s (s\<lparr>lo_load := lo_load s + 1, lo_pos := (lo_pos s)[i := Admitted]\<rparr>)"
proof -
  let ?a = "s\<lparr>lo_pos := (lo_pos s)[i := Passed]\<rparr>"
  let ?b = "s\<lparr>lo_pos := (lo_pos s)[i := HasRead (lo_load s)]\<rparr>"
  have "load_step s ?a" using assms by (intro check_ok) auto
  moreover have "load_step ?a ?b" using read_load [of i ?a] assms by simp
  moreover have "load_step ?b (s\<lparr>lo_load := lo_load s + 1, lo_pos := (lo_pos s)[i := Admitted]\<rparr>)"
    using write_load [of i ?b "lo_load s"] assms by simp
  ultimately show ?thesis by (meson converse_rtranclp_into_rtranclp rtranclp.rtrancl_refl)
qed

text \<open>
  The read lock does not protect the capacity. For every capacity and every load one below it,
  two requests that arrive together can both be admitted, while the counter records only
  one of them: the machine then serves one request more than its capacity and the counter
  stays one short.
\<close>

theorem read_lock_overload:
  "\<exists>s. load_step\<^sup>*\<^sup>* (load_start (mx - 1) mx 2) s \<and> admitted s = 2 \<and> lo_load s = mx
    \<and> mx - 1 + int (admitted s) > lo_max s"
proof -
  define st where "st l ps = \<lparr>lo_load = l, lo_max = mx, lo_pos = ps\<rparr>" for l ps
  have "load_step (st (mx - 1) [Entered, Entered]) (st (mx - 1) [Passed, Entered])"
    using check_ok [of 0 "st (mx - 1) [Entered, Entered]"] by (simp add: st_def)
  moreover have "load_step (st (mx - 1) [Passed, Entered]) (st (mx - 1) [Passed, Passed])"
    using check_ok [of 1 "st (mx - 1) [Passed, Entered]"] by (simp add: st_def)
  moreover have "load_step (st (mx - 1) [Passed, Passed]) (st (mx - 1) [HasRead (mx - 1), Passed])"
    using read_load [of 0 "st (mx - 1) [Passed, Passed]"] by (simp add: st_def)
  moreover have "load_step (st (mx - 1) [HasRead (mx - 1), Passed]) (st (mx - 1) [HasRead (mx - 1), HasRead (mx - 1)])"
    using read_load [of 1 "st (mx - 1) [HasRead (mx - 1), Passed]"] by (simp add: st_def)
  moreover have "load_step (st (mx - 1) [HasRead (mx - 1), HasRead (mx - 1)]) (st mx [Admitted, HasRead (mx - 1)])"
    using write_load [of 0 "st (mx - 1) [HasRead (mx - 1), HasRead (mx - 1)]"] by (simp add: st_def)
  moreover have "load_step (st mx [Admitted, HasRead (mx - 1)]) (st mx [Admitted, Admitted])"
    using write_load [of 1 "st mx [Admitted, HasRead (mx - 1)]"] by (simp add: st_def)
  ultimately have "load_step\<^sup>*\<^sup>* (st (mx - 1) [Entered, Entered]) (st mx [Admitted, Admitted])"
    by (meson converse_rtranclp_into_rtranclp rtranclp.rtrancl_refl)
  moreover have "load_start (mx - 1) mx 2 = st (mx - 1) [Entered, Entered]"
    by (simp add: load_start_def st_def numeral_2_eq_2)
  ultimately show ?thesis
    by (intro exI [of _ "st mx [Admitted, Admitted]"]) (simp add: st_def admitted_def)
qed

end
