(* ===== verification/Relay.thy ===== *)
theory Relay
  imports RedeemRace LoadRace
begin

text \<open>
  The provider side of the coordinator (\<open>internal/coord/ws.go\<close>): authenticating a WebSocket
  connection, registering its session, reading its messages and relaying chunks, responses and
  errors to the waiting request handlers, and the clean-up when the connection ends.

  The state \<open>coord\<close> joins the registry, the database, the two daily counters and the log of
  messages sent to providers. A frame is what \<open>ReadMessage\<close> and the JSON decoder make of it:
  an error, an undecodable frame, an unknown type, or one of the protocol's messages. The number
  of completion tokens in a usage object is decoded by the parameter \<open>usage\<close>. As in
  the registry, \<open>None\<close> is a panic.
\<close>

record coord =
  reg :: registry
  dbs :: store
  requests_today :: int
  tokens_today :: int
  sent :: "(nat \<times> coord_msg) list"

definition SendWS :: "nat \<Rightarrow> coord_msg \<Rightarrow> coord \<Rightarrow> coord" where
  "SendWS k m st = st\<lparr>sent := sent st @ [(k, m)]\<rparr>"

section \<open>Relaying\<close>

definition relayChunk :: "hostenv \<Rightarrow> string \<Rightarrow> ChunkMsg \<Rightarrow> coord \<Rightarrow> coord option" where
  "relayChunk E mid msg st =
    (case GetSession mid (reg st) of
       None \<Rightarrow> Some st
     | Some k \<Rightarrow>
         (case chunk_chan mid (ch_request_id msg) (reg st) of
            None \<Rightarrow> Some st
          | Some c \<Rightarrow>
              do {
                (_, r1) \<leftarrow> try_send c \<lparr>cr_content = ch_content msg, cr_tool_calls = ch_tool_calls msg,
                             cr_done = ch_done msg, cr_err = '''', cr_tokens = 0\<rparr> (reg st);
                let r2 = (if ch_done msg then UnregisterChunkChannel k (ch_request_id msg) r1 else r1);
                Some (st\<lparr>reg := AddTokens mid 1 r2, tokens_today := tokens_today st + 1,
                        dbs := snd (UpdateOwnerStats E (ms_user (heap (reg st) ! k)) 0 1 0 (dbs st))\<rparr>)
              }))"

definition relayResponse :: "hostenv \<Rightarrow> (string \<Rightarrow> int) \<Rightarrow> string \<Rightarrow> ResponseMsg \<Rightarrow> coord \<Rightarrow> coord option" where
  "relayResponse E usage mid msg st =
    (case GetSession mid (reg st) of
       None \<Rightarrow> Some st
     | Some k \<Rightarrow>
         (let tokens = (if rs_usage msg = '''' then 0 else usage (rs_usage msg)) in
          case chunk_chan mid (rs_request_id msg) (reg st) of
            None \<Rightarrow> Some st
          | Some c \<Rightarrow>
              do {
                (_, r1) \<leftarrow> try_send c \<lparr>cr_content = rs_content msg, cr_tool_calls = rs_tool_calls msg,
                             cr_done = False, cr_err = '''', cr_tokens = tokens\<rparr> (reg st);
                let r2 = UnregisterChunkChannel k (rs_request_id msg) r1;
                Some (if tokens > 0
                      then st\<lparr>reg := AddTokens mid tokens r2, tokens_today := tokens_today st + tokens,
                              dbs := snd (UpdateOwnerStats E (ms_user (heap (reg st) ! k)) 1 tokens 0 (dbs st))\<rparr>
                      else st\<lparr>reg := r2\<rparr>)
              }))"

definition relayError :: "string \<Rightarrow> ErrorMsg \<Rightarrow> coord \<Rightarrow> coord option" where
  "relayError mid msg st =
    (case GetSession mid (reg st) of
       None \<Rightarrow> Some st
     | Some k \<Rightarrow>
         (case chunk_chan mid (er_request_id msg) (reg st) of
            None \<Rightarrow> Some st
          | Some c \<Rightarrow>
              do {
                (_, r1) \<leftarrow> try_send c \<lparr>cr_content = '''', cr_tool_calls = '''', cr_done = False,
                             cr_err = er_code msg @ '': '' @ er_message msg, cr_tokens = 0\<rparr> (reg st);
                Some (st\<lparr>reg := UnregisterChunkChannel k (er_request_id msg) r1\<rparr>)
              }))"

section \<open>The read loop\<close>

datatype ws_event = WsError | WsMalformed | WsUnknown | WsMsg provider_msg

text \<open>One turn of the loop for the session \<open>k\<close>; \<open>False\<close> ends it.\<close>

definition read_step :: "hostenv \<Rightarrow> (string \<Rightarrow> int) \<Rightarrow> nat \<Rightarrow> ws_event \<Rightarrow> coord \<Rightarrow> (bool \<times> coord) option" where
  "read_step E usage k ev st =
    (let s = heap (reg st) ! k in
     case ev of
       WsError \<Rightarrow> Some (False, st)
     | WsMalformed \<Rightarrow> Some (True, st)
     | WsUnknown \<Rightarrow> Some (True, st)
     | WsMsg (PRegister _) \<Rightarrow> Some (True, st)
     | WsMsg PHeartbeat \<Rightarrow>
         (if ms_token_hash s \<noteq> '''' \<and> (case FindKeyByHash E (ms_token_hash s) (dbs st) of
               Inr (Some _) \<Rightarrow> False | _ \<Rightarrow> True)
          then Some (False, st)
          else Some (True, SendWS k CHeartbeatAck (st\<lparr>reg := UpdateHeartbeat (e_now E) (ms_machine s) (reg st)\<rparr>)))
     | WsMsg (PChunk m) \<Rightarrow> map_option (Pair True) (relayChunk E (ms_machine s) m st)
     | WsMsg (PResponse m) \<Rightarrow> map_option (Pair True) (relayResponse E usage (ms_machine s) m st)
     | WsMsg (PError m) \<Rightarrow>
         do {
           st1 \<leftarrow> relayError (ms_machine s) m st;
           Some (True, if er_code m = ErrBackendUnavailable
                       then st1\<lparr>reg := SetBackendOK (e_now E) (ms_machine s) False (reg st1)\<rparr> else st1)
         })"

fun readLoop :: "(string \<Rightarrow> int) \<Rightarrow> nat \<Rightarrow> (hostenv \<times> ws_event) list \<Rightarrow> coord \<Rightarrow> (bool \<times> coord) option" where
  "readLoop usage k [] st = Some (True, st)"
| "readLoop usage k ((E, ev) # evs) st =
     do {
       (go, st1) \<leftarrow> read_step E usage k ev st;
       if go then readLoop usage k evs st1 else Some (False, st1)
     }"

section \<open>Connecting and disconnecting\<close>

datatype connect_result = HttpError nat | Dropped | Connected nat string

definition accept_provider :: "hostenv \<Rightarrow> string \<Rightarrow> store \<Rightarrow> nat + APIKey" where
  "accept_provider E token s =
    (if token = '''' then Inl 401
     else case FindKeyByHash E (hashKey E token) s of
            Inl e \<Rightarrow> Inl 500
          | Inr None \<Rightarrow> Inl 401
          | Inr (Some key) \<Rightarrow> if IsProviderScope (k_scope key) then Inr key else Inl 403)"

text \<open>The id of a session, for logs, from the 8 bytes that \<open>rand.Read\<close> left in the buffer.\<close>

definition generateSessionID :: "string \<Rightarrow> string" where
  "generateSessionID b = hex_encode b"

text \<open>
  \<open>handleWSProvider\<close> up to the start of the read loop: \<open>up\<close> says whether the upgrade worked, \<open>first\<close>
  is the first frame, \<open>sid\<close> the session id, \<open>ok\<close> whether the answer could be sent.
\<close>

definition connect_provider :: "hostenv \<Rightarrow> string option \<Rightarrow> bool \<Rightarrow> string \<Rightarrow> string \<Rightarrow> ws_event \<Rightarrow> bool
    \<Rightarrow> coord \<Rightarrow> (connect_result \<times> coord) option" where
  "connect_provider E rnd up sid token first ok st =
    (case accept_provider E token (dbs st) of
       Inl code \<Rightarrow> Some (HttpError code, st)
     | Inr key \<Rightarrow>
         if \<not> up then Some (Dropped, st)
         else (case first of
           WsMsg (PRegister rg) \<Rightarrow>
             (case UpsertMachineByProviderKey (shift 1 E) rnd (k_user key) (k_id key) (rg_description rg) (dbs st) of
                (Inl e, s1) \<Rightarrow> Some (Dropped, st\<lparr>dbs := s1\<rparr>)
              | (Inr None, s1) \<Rightarrow> None
              | (Inr (Some m), s1) \<Rightarrow>
                  do {
                    r1 \<leftarrow> Register (e_now E) (new_session (m_id m) sid (k_user key) (hashKey E token) rg) (reg st);
                    let k = length (heap r1) - 1;
                    let st1 = st\<lparr>dbs := s1, reg := r1\<rparr>;
                    if ok then Some (Connected k (m_id m),
                                     SendWS k (CRegistered \<lparr>rd_machine_id = m_id m, rd_provider_id = sid\<rparr>) st1)
                    else do { (_, r2) \<leftarrow> Unregister (m_id m) r1; Some (Dropped, st1\<lparr>reg := r2\<rparr>) }
                  })
         | _ \<Rightarrow> Some (Dropped, st)))"

text \<open>The end of \<open>handleWSProvider\<close>, in the goroutine that connected session \<open>k\<close> of machine \<open>mid\<close>.\<close>

definition disconnect_provider :: "hostenv \<Rightarrow> nat \<Rightarrow> string \<Rightarrow> coord \<Rightarrow> coord option" where
  "disconnect_provider E k mid st =
     do {
       ((userID, reqs, toks), r1) \<leftarrow> Unregister mid (reg st);
       let st1 = st\<lparr>reg := r1\<rparr>;
       let uptime = (e_now E - ms_connected (heap (reg st) ! k)) div second;
       Some (if userID > 0 \<and> (reqs > 0 \<or> toks > 0)
             then st1\<lparr>dbs := snd (UpdateOwnerStats E userID reqs toks uptime (dbs st))\<rparr>
             else st1)
     }"

text \<open>The 60-second ticker of \<open>ListenAndServe\<close>.\<close>

definition uptime_tick :: "hostenv \<Rightarrow> coord \<Rightarrow> coord" where
  "uptime_tick E st = st\<lparr>dbs := fold (\<lambda>s d. snd (UpdateOwnerStats E (ms_user s) 0 0 60 d))
     (AllSessions (reg st)) (dbs st)\<rparr>"

section \<open>Pings\<close>

definition pongWait :: int where "pongWait = 90 * second"
definition pingPeriod :: int where "pingPeriod = 30 * second"

text \<open>The ping goroutine: the instants at which pings went out, given whether each write works; the end of the list is \<open>pingDone\<close>.\<close>

fun ping_loop :: "int \<Rightarrow> bool list \<Rightarrow> int list" where
  "ping_loop start [] = []"
| "ping_loop start (ok # oks) = (let now = start + pingPeriod in if ok then now # ping_loop now oks else [])"

text \<open>The read deadline \<open>d\<close> after the pongs of a connection: each moves it on, unless reading had failed at it before.\<close>

fun read_deadline :: "int \<Rightarrow> int list \<Rightarrow> int" where
  "read_deadline d [] = d"
| "read_deadline d (pong # pongs) = (if pong \<le> d then read_deadline (pong + pongWait) pongs else d)"

end
