(* ===== verification/RelayProps.thy ===== *)
theory RelayProps
  imports Relay
begin

text \<open>
  What the provider side guarantees: handled one frame at a time it never panics and keeps the
  store and the registry well formed; a revoked token ends its connection at the next
  heartbeat and is refused afterwards. And what it does not: the clean-up of an old connection
  takes the machine's new session with it, and relayed tokens are counted twice.
\<close>

section \<open>Safety\<close>

definition coord_ok :: "coord \<Rightarrow> bool" where
  "coord_ok st \<longleftrightarrow> store_ok (dbs st) \<and> registry_ok (reg st)"

lemma coord_ok_simps [simp]:
  "coord_ok (SendWS k m st) = coord_ok st" "coord_ok (st\<lparr>tokens_today := n\<rparr>) = coord_ok st"
  "coord_ok (st\<lparr>requests_today := n\<rparr>) = coord_ok st"
  by (simp_all add: coord_ok_def SendWS_def)

lemma relay_send:
  assumes "registry_ok r" and "chunk_chan mid rid r = Some c"
  shows "\<exists>b r'. try_send c x r = Some (b, r') \<and> registry_ok r' \<and> heap r' = heap r \<and> online r' = online r"
  using try_send_ok [OF assms(1)] chunk_chan_open [OF assms] by blast

lemma relayChunk_ok:
  assumes "coord_ok st"
  shows "\<exists>st'. relayChunk E mid msg st = Some st' \<and> coord_ok st'"
proof (cases "chunk_chan mid (ch_request_id msg) (reg st)")
  case None
  with assms show ?thesis by (simp add: relayChunk_def split: option.split)
next
  case (Some c)
  let ?x = "\<lparr>cr_content = ch_content msg, cr_tool_calls = ch_tool_calls msg, cr_done = ch_done msg, cr_err = [], cr_tokens = 0\<rparr>"
  obtain k where k: "GetSession mid (reg st) = Some k"
    using Some by (auto simp: chunk_chan_def split: option.splits)
  obtain b r' where "try_send c ?x (reg st) = Some (b, r')" "registry_ok r'"
    using relay_send [of "reg st" mid "ch_request_id msg" c ?x] assms Some by (auto simp: coord_ok_def)
  with k Some assms show ?thesis
    by (simp add: relayChunk_def coord_ok_def AddTokens_ok UnregisterChunkChannel_ok UpdateOwnerStats_ok)
qed

lemma relayResponse_ok:
  assumes "coord_ok st"
  shows "\<exists>st'. relayResponse E usage mid msg st = Some st' \<and> coord_ok st'"
proof (cases "chunk_chan mid (rs_request_id msg) (reg st)")
  case None
  with assms show ?thesis by (simp add: relayResponse_def split: option.split)
next
  case (Some c)
  let ?x = "\<lparr>cr_content = rs_content msg, cr_tool_calls = rs_tool_calls msg, cr_done = False, cr_err = [],
    cr_tokens = (if rs_usage msg = [] then 0 else usage (rs_usage msg))\<rparr>"
  obtain k where k: "GetSession mid (reg st) = Some k"
    using Some by (auto simp: chunk_chan_def split: option.splits)
  obtain b r' where "try_send c ?x (reg st) = Some (b, r')" "registry_ok r'"
    using relay_send [of "reg st" mid "rs_request_id msg" c ?x] assms Some by (auto simp: coord_ok_def)
  with k Some assms show ?thesis
    by (simp add: relayResponse_def coord_ok_def Let_def AddTokens_ok UnregisterChunkChannel_ok UpdateOwnerStats_ok)
qed

lemma relayError_ok:
  assumes "coord_ok st"
  shows "\<exists>st'. relayError mid msg st = Some st' \<and> coord_ok st'"
proof (cases "chunk_chan mid (er_request_id msg) (reg st)")
  case None
  with assms show ?thesis by (simp add: relayError_def split: option.split)
next
  case (Some c)
  let ?x = "\<lparr>cr_content = [], cr_tool_calls = [], cr_done = False, cr_err = er_code msg @ '': '' @ er_message msg, cr_tokens = 0\<rparr>"
  obtain k where k: "GetSession mid (reg st) = Some k"
    using Some by (auto simp: chunk_chan_def split: option.splits)
  obtain b r' where "try_send c ?x (reg st) = Some (b, r')" "registry_ok r'"
    using relay_send [of "reg st" mid "er_request_id msg" c ?x] assms Some by (auto simp: coord_ok_def)
  with k Some assms show ?thesis
    by (simp add: relayError_def coord_ok_def UnregisterChunkChannel_ok)
qed

lemma read_step_ok:
  assumes "coord_ok st"
  shows "\<exists>go st'. read_step E usage k ev st = Some (go, st') \<and> coord_ok st'"
proof (cases ev)
  case (WsMsg m)
  show ?thesis
  proof (cases m)
    case (PChunk x)
    with relayChunk_ok [OF assms] WsMsg show ?thesis by (fastforce simp: read_step_def)
  next
    case (PResponse x)
    with relayResponse_ok [OF assms] WsMsg show ?thesis by (fastforce simp: read_step_def)
  next
    case (PError x)
    obtain st1 where "relayError (ms_machine (heap (reg st) ! k)) x st = Some st1" "coord_ok st1"
      using relayError_ok [OF assms] by blast
    with PError WsMsg show ?thesis by (auto simp: read_step_def coord_ok_def SetBackendOK_ok)
  next
    case PHeartbeat
    with assms WsMsg show ?thesis
      by (auto simp: read_step_def Let_def) (simp_all add: coord_ok_def UpdateHeartbeat_ok)
  qed (use assms WsMsg in \<open>auto simp: read_step_def\<close>)
qed (use assms in \<open>auto simp: read_step_def\<close>)

lemma readLoop_ok: "coord_ok st \<Longrightarrow> \<exists>go st'. readLoop usage k evs st = Some (go, st') \<and> coord_ok st'"
proof (induction evs arbitrary: st)
  case (Cons x evs)
  obtain E ev where x: "x = (E, ev)" by fastforce
  obtain go st1 where "read_step E usage k ev st = Some (go, st1)" "coord_ok st1"
    using read_step_ok [OF Cons.prems] by blast
  with Cons.IH x show ?case by (cases go) auto
qed auto

text \<open>A successful registration of a machine always yields one.\<close>

lemma UpsertMachine_some: "fst (UpsertMachineByProviderKey E r u k n s) \<noteq> Inr None"
proof -
  have g: "GetMachine E' mid (s\<lparr>machines := machines s @ [m]\<rparr>) \<noteq> Inr None" if "m_id m = mid" for E' mid m
    using that by (auto simp: GetMachine_def find_append split: option.splits)
  show ?thesis
    by (simp add: UpsertMachineByProviderKey_def Let_def g split: sum.split option.split)
qed

lemma new_session_load: "1 \<le> ms_max (new_session mid sid u h rg) \<and> ms_load (new_session mid sid u h rg) = 0"
  by (simp add: new_session_def)

lemma connect_ok:
  assumes "coord_ok st"
  shows "\<exists>x st'. connect_provider E rnd up sid token first ok st = Some (x, st') \<and> coord_ok st'"
proof (cases "accept_provider E token (dbs st)")
  case (Inl code)
  with assms show ?thesis by (simp add: connect_provider_def)
next
  case (Inr key)
  show ?thesis
  proof (cases "\<exists>rg. first = WsMsg (PRegister rg) \<and> up")
    case False
    with Inr assms show ?thesis
      by (auto simp: connect_provider_def split: ws_event.split provider_msg.split)
  next
    case True
    then obtain rg where rg: "first = WsMsg (PRegister rg)" "up" by blast
    obtain x s1 where u: "UpsertMachineByProviderKey (shift 1 E) rnd (k_user key) (k_id key) (rg_description rg) (dbs st) = (x, s1)"
      by fastforce
    have ok1: "store_ok s1"
      using UpsertMachineByProviderKey_ok [of "dbs st" "shift 1 E" rnd "k_user key" "k_id key" "rg_description rg"] u assms
      by (simp add: coord_ok_def)
    have r: "registry_ok (reg st)" using assms by (simp add: coord_ok_def)
    show ?thesis
    proof (cases x)
      case (Inl e)
      with u rg Inr ok1 r show ?thesis by (simp add: connect_provider_def) (simp add: coord_ok_def)
    next
      case xr: (Inr mo)
      obtain m where mo: "mo = Some m"
        using UpsertMachine_some [of "shift 1 E" rnd "k_user key" "k_id key" "rg_description rg" "dbs st"] u xr
        by (cases mo) auto
      let ?s = "new_session (m_id m) sid (k_user key) (hashKey E token) rg"
      obtain r1 where r1: "Register (e_now E) ?s (reg st) = Some r1" "registry_ok r1"
        using Register_ok [OF r, of ?s "e_now E"] new_session_load [of "m_id m" sid "k_user key" "hashKey E token" rg]
        by blast
      obtain y r2 where r2: "Unregister (m_id m) r1 = Some (y, r2)" "registry_ok r2"
        using Unregister_ok [OF r1(2)] by blast
      show ?thesis
        using u rg Inr xr mo r1 r2 ok1
        by (cases ok) (simp_all add: connect_provider_def coord_ok_def SendWS_def Let_def split: prod.split)
    qed
  qed
qed

lemma disconnect_ok:
  assumes "coord_ok st"
  shows "\<exists>st'. disconnect_provider E k mid st = Some st' \<and> coord_ok st'"
proof -
  obtain u q t r1 where "Unregister mid (reg st) = Some ((u, q, t), r1)" "registry_ok r1"
    using Unregister_ok [of "reg st" mid] assms by (auto simp: coord_ok_def)
  with assms show ?thesis
    by (simp add: disconnect_provider_def coord_ok_def UpdateOwnerStats_ok Let_def)
qed

lemma fold_stats_ok: "store_ok d \<Longrightarrow> store_ok (fold (\<lambda>s d. snd (UpdateOwnerStats E (f s) 0 0 60 d)) ss d)"
  by (induction ss arbitrary: d) (simp_all add: UpdateOwnerStats_ok)

datatype coord_op =
    CConnect hostenv "string option" bool string string ws_event bool
  | CFrame hostenv "string \<Rightarrow> int" nat ws_event
  | CGone hostenv nat string
  | CTick hostenv
  | CStore "hostenv \<times> store_op"
  | CRegistry reg_op

fun coord_step :: "coord_op \<Rightarrow> coord \<Rightarrow> coord option" where
  "coord_step (CConnect E rnd up sid token first ok) st =
     map_option snd (connect_provider E rnd up sid token first ok st)"
| "coord_step (CFrame E usage k ev) st = map_option snd (read_step E usage k ev st)"
| "coord_step (CGone E k mid) st = disconnect_provider E k mid st"
| "coord_step (CTick E) st = Some (uptime_tick E st)"
| "coord_step (CStore x) st = Some (st\<lparr>dbs := store_step x (dbs st)\<rparr>)"
| "coord_step (CRegistry op) st = map_option (\<lambda>r. st\<lparr>reg := r\<rparr>) (reg_step op (reg st))"

lemma coord_step_ok: "coord_ok st \<Longrightarrow> \<exists>st'. coord_step op st = Some st' \<and> coord_ok st'"
proof (cases op)
  case (CConnect E rnd up sid token first ok)
  then show "coord_ok st \<Longrightarrow> ?thesis" using connect_ok [of st E rnd up sid token first ok] by auto
next
  case (CFrame E usage k ev)
  then show "coord_ok st \<Longrightarrow> ?thesis" using read_step_ok [of st E usage k ev] by auto
next
  case (CGone E k mid)
  then show "coord_ok st \<Longrightarrow> ?thesis" using disconnect_ok [of st E k mid] by auto
next
  case (CRegistry op)
  then show "coord_ok st \<Longrightarrow> ?thesis" using reg_step_ok [of "reg st" op] by (auto simp: coord_ok_def)
qed (auto simp: coord_ok_def uptime_tick_def fold_stats_ok intro: store_system.step_inv)

interpretation coord_system: safe_system coord_step coord_ok
  by unfold_locales (rule coord_step_ok)

definition coord_start :: "store \<Rightarrow> coord" where
  "coord_start s = \<lparr>reg = NewRegistry, dbs = s, requests_today = 0, tokens_today = 0, sent = []\<rparr>"

text \<open>
  The coordinator's provider side never panics when it handles its events one at a time.
  Any sequence of connection attempts, frames from any session, disconnections, ticks, store
  operations and registry operations, with any driver failures, runs to its end from a
  well-formed store, keeps the store well formed and every connected machine within its capacity.
\<close>

theorem coordinator_never_panics:
  assumes "store_ok s"
  shows "\<exists>st. fold (\<lambda>op t. t \<bind> coord_step op) ops (Some (coord_start s)) = Some st
    \<and> store_ok (dbs st) \<and> list_all within_capacity (AllSessions (reg st))"
proof -
  have "coord_ok (coord_start s)"
    using assms by (simp add: coord_ok_def coord_start_def registry_ok_New)
  from coord_system.run_safe [OF this, of ops] show ?thesis
    using registry_ok_sessions by (auto simp: coord_ok_def)
qed

theorem coordinator_never_panics_witness:
  "\<exists>st. fold (\<lambda>op t. t \<bind> coord_step op)
      [CConnect demo_env None True ''s1'' ''inf_00'' (WsMsg (PRegister demo_reg)) True,
       CFrame demo_env (\<lambda>_. 0) 0 (WsMsg PHeartbeat), CGone demo_env 0 ''mch_1''] (Some (coord_start demo_store)) = Some st
    \<and> store_ok (dbs st) \<and> list_all within_capacity (AllSessions (reg st))"
  by (rule coordinator_never_panics) (rule demo_store_ok)

section \<open>Revoked tokens\<close>

text \<open>
  C32: Revoking a provider key cuts its machine off. Once \<open>RevokeKey\<close> succeeded, whatever store
  operations follow, the next heartbeat of a session opened with that key ends its read loop
  without an answer, and a new connection with the key's token is refused with 401, or 500 when
  the lookup fails.
\<close>

theorem revoked_token_cut_off:
  assumes ok: "store_ok s" and rev: "fst (RevokeKey E u kid s) = Inr ()"
    and key: "q \<in> set (api_keys s)" "k_id q = kid"
    and st: "dbs st = fold store_step ops (store_step (E, OpRevokeKey u kid) s)"
    and j: "ms_token_hash (heap (reg st) ! j) = k_hash q" "k_hash q \<noteq> []"
    and tok: "hashKey E' token = k_hash q"
  shows "read_step E' usage j (WsMsg PHeartbeat) st = Some (False, st)
    \<and> connect_provider E' rnd up sid token first ok2 st
      \<in> {Some (HttpError 401, st), Some (HttpError 500, st)}"
proof -
  have dead: "FindKeyByHash E' (k_hash q) (dbs st) \<noteq> Inr (Some x)" for x
    using revoked_dead [OF ok rev key] st by simp
  then have "read_step E' usage j (WsMsg PHeartbeat) st = Some (False, st)"
    using j by (auto simp: read_step_def Let_def split: sum.split option.split)
  moreover have "accept_provider E' token (dbs st) \<in> {Inl 401, Inl 500}"
    using dead tok by (auto simp: accept_provider_def split: sum.split option.split)
  ultimately show ?thesis by (auto simp: connect_provider_def)
qed

section \<open>Reconnecting\<close>

text \<open>
  The clean-up of an old connection removes the machine's new session. When a provider has
  reconnected (the old connection not yet noticed as dead), the end of the old connection's
  handler unregisters the machine by its id: the new session is dropped from the registry
  although its connection is open, and from then on its chunks are discarded and no
  request finds its models.
\<close>

theorem old_cleanup_drops_new_session:
  assumes "coord_ok st" and "connect_provider E rnd up sid token first ok st = Some (Connected k mid, st1)"
  shows "GetSession mid (reg st1) = Some k
    \<and> (\<exists>st2. disconnect_provider E' old mid st1 = Some st2 \<and> GetSession mid (reg st2) = None
         \<and> (\<forall>E'' msg. relayChunk E'' mid msg st2 = Some st2) \<and> (\<forall>m. \<not> HasModel mid m (reg st2)))"
proof -
  have "\<exists>rg u h. k = length (heap (reg st1)) - 1
    \<and> Register (e_now E) (new_session mid sid u h rg) (reg st) = Some (reg st1)"
    using assms(2)
    by (auto simp: connect_provider_def Let_def SendWS_def
        split: sum.splits option.splits if_splits prod.splits ws_event.splits provider_msg.splits bind_splits)
      blast
  then obtain r1 rg u h where c: "k = length (heap r1) - 1" "reg st1 = r1"
    "Register (e_now E) (new_session mid sid u h rg) (reg st) = Some r1"
    by blast
  have r: "registry_ok (reg st)" using assms(1) by (simp add: coord_ok_def)
  have ok1: "registry_ok r1"
    using Register_ok [OF r, of "new_session mid sid u h rg" "e_now E"] new_session_load c(3) by fastforce
  have g: "GetSession mid r1 = Some k"
    using Register_ok [OF r, of "new_session mid sid u h rg" "e_now E"] new_session_load c
    by (fastforce simp: new_session_def)
  obtain x r2 where u: "Unregister mid r1 = Some (x, r2)" "GetSession mid r2 = None"
    using Unregister_ok [OF ok1, of mid] by blast
  obtain st2 where d: "disconnect_provider E' old mid st1 = Some st2" "reg st2 = r2"
    using u c(2) by (cases x) (auto simp: disconnect_provider_def Let_def)
  have "relayChunk E'' mid msg st2 = Some st2" for E'' msg
    using d(2) u(2) by (simp add: relayChunk_def)
  moreover have "\<not> HasModel mid mo (reg st2)" for mo
    using d(2) u(2) by (simp add: HasModel_def)
  ultimately show ?thesis using d u(2) g c(2) by blast
qed

definition demo_coord :: coord where
  "demo_coord = coord_start demo_store"

lemma demo_coord_ok: "coord_ok demo_coord"
  by (simp add: demo_coord_def coord_ok_def coord_start_def demo_store_ok registry_ok_New)

lemma demo_connect: "\<exists>st1. connect_provider demo_env None True ''s1'' ''inf_00'' (WsMsg (PRegister demo_reg)) True demo_coord
    = Some (Connected 0 ''mch_1'', st1)"
  by (simp add: connect_provider_def accept_provider_def FindKeyByHash_def demo_coord_def coord_start_def
      demo_store_def normalizeScope_def IsProviderScope_def ScopeProvider_def UpsertMachineByProviderKey_def
      GetMachineByProviderKeyID_def Register_def NewRegistry_def GetSession_def demo_reg_def Let_def
      new_session_def SendWS_def)

theorem old_cleanup_drops_new_session_witness:
  "\<exists>st1 st2. connect_provider demo_env None True ''s1'' ''inf_00'' (WsMsg (PRegister demo_reg)) True demo_coord
      = Some (Connected 0 ''mch_1'', st1)
    \<and> GetSession ''mch_1'' (reg st1) = Some 0
    \<and> disconnect_provider demo_env 7 ''mch_1'' st1 = Some st2 \<and> GetSession ''mch_1'' (reg st2) = None"
proof -
  obtain st1 where c: "connect_provider demo_env None True ''s1'' ''inf_00'' (WsMsg (PRegister demo_reg)) True demo_coord
      = Some (Connected 0 ''mch_1'', st1)"
    using demo_connect by blast
  from old_cleanup_drops_new_session [OF demo_coord_ok c] c show ?thesis by blast
qed

theorem revoked_token_cut_off_witness:
  "read_step demo_env (\<lambda>_. 0) 0 (WsMsg PHeartbeat)
      (demo_coord\<lparr>dbs := store_step (demo_env, OpRevokeKey 1 1) demo_store, reg := NewRegistry\<lparr>heap :=
         [new_session ''mch_1'' ''s1'' 1 (hashKey demo_env ''inf_00'') demo_reg]\<rparr>\<rparr>)
    = Some (False, demo_coord\<lparr>dbs := store_step (demo_env, OpRevokeKey 1 1) demo_store, reg := NewRegistry\<lparr>heap :=
         [new_session ''mch_1'' ''s1'' 1 (hashKey demo_env ''inf_00'') demo_reg]\<rparr>\<rparr>)"
proof -
  let ?q = "hd (api_keys demo_store)"
  have k: "fst (RevokeKey demo_env 1 1 demo_store) = Inr ()" "?q \<in> set (api_keys demo_store)" "k_id ?q = 1"
    by (simp_all add: demo_store_def RevokeKey_def)
  have h: "k_hash ?q = hashKey demo_env ''inf_00''" by (simp add: demo_store_def)
  have "length (hashKey demo_env ''inf_00'') \<noteq> 0" by (simp add: hashKey_def demo_env_def)
  then have n: "k_hash ?q \<noteq> []" using h by auto
  show ?thesis
    by (rule revoked_token_cut_off [OF demo_store_ok k _ _ n, where ops = "[]" and E' = demo_env
          and token = "''inf_00''", THEN conjunct1])
      (simp_all add: h new_session_def)
qed

section \<open>Counting tokens\<close>

definition tokens_of :: "int \<Rightarrow> store \<Rightarrow> int" where
  "tokens_of u s = (case List.find (\<lambda>r. os_user r = u) (owner_stats s) of None \<Rightarrow> 0 | Some r \<Rightarrow> os_tokens r)"

lemma UpdateOwnerStats_tokens:
  assumes "\<not> e_fault E 0" and "has_user s u"
  shows "tokens_of u (snd (UpdateOwnerStats E u a n b s)) = tokens_of u s + n"
    and "has_user (snd (UpdateOwnerStats E u a n b s)) u"
proof -
  show "tokens_of u (snd (UpdateOwnerStats E u a n b s)) = tokens_of u s + n"
  proof (cases "List.find (\<lambda>r. os_user r = u) (owner_stats s)")
    case None
    then have "\<not> (\<exists>r \<in> set (owner_stats s). os_user r = u)" by (simp add: find_None_iff_ball)
    with None assms show ?thesis by (simp add: UpdateOwnerStats_def tokens_of_def find_append)
  next
    case (Some r)
    then have "\<exists>r \<in> set (owner_stats s). os_user r = u" by (blast dest: find_SomeD)
    moreover have "os_user r = u" using Some by (blast dest: find_SomeD)
    ultimately show ?thesis
      using Some assms by (simp add: UpdateOwnerStats_def tokens_of_def find_upd_where)
  qed
  show "has_user (snd (UpdateOwnerStats E u a n b s)) u"
    using assms by (auto simp: UpdateOwnerStats_def has_user_def)
qed

text \<open>A chunk that is not the last, relayed to a waiting request.\<close>

lemma relayChunk_counts:
  assumes ok: "coord_ok st" and k: "GetSession mid (reg st) = Some k"
    and c: "chunk_chan mid (ch_request_id msg) (reg st) = Some c" and nd: "\<not> ch_done msg"
    and E: "\<not> e_fault E 0" and u: "has_user (dbs st) (ms_user (heap (reg st) ! k))"
  shows "\<exists>st'. relayChunk E mid msg st = Some st' \<and> coord_ok st'
    \<and> GetSession mid (reg st') = Some k \<and> chunk_chan mid (ch_request_id msg) (reg st') = Some c
    \<and> ms_user (heap (reg st') ! k) = ms_user (heap (reg st) ! k)
    \<and> ms_tokens (heap (reg st') ! k) = ms_tokens (heap (reg st) ! k) + 1
    \<and> has_user (dbs st') (ms_user (heap (reg st) ! k))
    \<and> tokens_of (ms_user (heap (reg st) ! k)) (dbs st') = tokens_of (ms_user (heap (reg st) ! k)) (dbs st) + 1"
proof -
  let ?x = "\<lparr>cr_content = ch_content msg, cr_tool_calls = ch_tool_calls msg, cr_done = False, cr_err = [], cr_tokens = 0\<rparr>"
  obtain b r' where r': "try_send c ?x (reg st) = Some (b, r')" "heap r' = heap (reg st)" "online r' = online (reg st)"
    using relay_send [of "reg st" mid "ch_request_id msg" c ?x] ok c by (auto simp: coord_ok_def)
  obtain st' where st': "relayChunk E mid msg st = Some st'" "coord_ok st'" using relayChunk_ok [OF ok] by blast
  have kl: "k < length (heap (reg st))" using registry_okD(1) [OF _ k] ok by (simp add: coord_ok_def)
  have eq: "reg st' = upd_session k (\<lambda>s. s\<lparr>ms_tokens := ms_tokens s + 1\<rparr>) r'"
    "dbs st' = snd (UpdateOwnerStats E (ms_user (heap (reg st) ! k)) 0 1 0 (dbs st))"
    using st'(1) k c nd r' by (auto simp: relayChunk_def AddTokens_def on_machine_def GetSession_def)
  have g: "GetSession mid (reg st') = Some k" using eq(1) k r'(3) by (simp add: GetSession_def upd_session_def)
  have "ms_chunks (heap (reg st') ! k) = ms_chunks (heap (reg st) ! k)"
    using eq(1) kl r'(2) by (simp add: upd_session_def)
  then have "chunk_chan mid (ch_request_id msg) (reg st') = Some c"
    using c k g by (simp add: chunk_chan_def)
  then show ?thesis
    using st' g eq kl r'(2) UpdateOwnerStats_tokens [OF E u, of 0 1 0] by (simp add: upd_session_def)
qed

lemma relay_all_counts:
  assumes "coord_ok st" and "GetSession mid (reg st) = Some k"
    and "chunk_chan mid rid (reg st) = Some c" and "list_all (\<lambda>m. ch_request_id m = rid \<and> \<not> ch_done m) msgs"
    and "\<not> e_fault E 0" and "has_user (dbs st) (ms_user (heap (reg st) ! k))"
  shows "\<exists>st'. fold (\<lambda>m t. t \<bind> relayChunk E mid m) msgs (Some st) = Some st' \<and> coord_ok st'
    \<and> GetSession mid (reg st') = Some k \<and> ms_user (heap (reg st') ! k) = ms_user (heap (reg st) ! k)
    \<and> ms_tokens (heap (reg st') ! k) = ms_tokens (heap (reg st) ! k) + int (length msgs)
    \<and> has_user (dbs st') (ms_user (heap (reg st) ! k))
    \<and> tokens_of (ms_user (heap (reg st) ! k)) (dbs st')
        = tokens_of (ms_user (heap (reg st) ! k)) (dbs st) + int (length msgs)"
  using assms
proof (induction msgs arbitrary: st)
  case (Cons m msgs)
  have m: "ch_request_id m = rid" "\<not> ch_done m" using Cons.prems(4) by simp_all
  obtain st1 where st1: "relayChunk E mid m st = Some st1" "coord_ok st1" "GetSession mid (reg st1) = Some k"
    "chunk_chan mid rid (reg st1) = Some c" "ms_user (heap (reg st1) ! k) = ms_user (heap (reg st) ! k)"
    "ms_tokens (heap (reg st1) ! k) = ms_tokens (heap (reg st) ! k) + 1"
    "has_user (dbs st1) (ms_user (heap (reg st) ! k))"
    "tokens_of (ms_user (heap (reg st) ! k)) (dbs st1) = tokens_of (ms_user (heap (reg st) ! k)) (dbs st) + 1"
    using relayChunk_counts [OF Cons.prems(1,2) _ m(2) Cons.prems(5,6)] Cons.prems(3) m(1) by auto
  from Cons.IH [OF st1(2-4) _ Cons.prems(5)] Cons.prems(4) st1(5,7)
  obtain st' where "fold (\<lambda>m t. t \<bind> relayChunk E mid m) msgs (Some st1) = Some st'" "coord_ok st'"
    "GetSession mid (reg st') = Some k" "ms_user (heap (reg st') ! k) = ms_user (heap (reg st) ! k)"
    "ms_tokens (heap (reg st') ! k) = ms_tokens (heap (reg st1) ! k) + int (length msgs)"
    "has_user (dbs st') (ms_user (heap (reg st) ! k))"
    "tokens_of (ms_user (heap (reg st) ! k)) (dbs st')
        = tokens_of (ms_user (heap (reg st) ! k)) (dbs st1) + int (length msgs)"
    by auto
  with st1(1,6,8) show ?case by auto
qed simp

text \<open>
  Relayed tokens are counted twice. If a new session relays \<open>n\<close> chunks to a waiting request and
  then its connection ends, the owner's lifetime token count has grown by \<open>2 n\<close>: once per
  chunk when it was relayed, and once more by the session total at the disconnection.
\<close>

theorem tokens_counted_twice:
  assumes ok: "coord_ok st" and k: "GetSession mid (reg st) = Some k" "ms_tokens (heap (reg st) ! k) = 0"
    and c: "chunk_chan mid rid (reg st) = Some c"
    and msgs: "list_all (\<lambda>m. ch_request_id m = rid \<and> \<not> ch_done m) msgs" "msgs \<noteq> []"
    and E: "\<not> e_fault E 0" "\<not> e_fault E' 0"
    and u: "ms_user (heap (reg st) ! k) = u" "0 < u" "has_user (dbs st) u"
  shows "\<exists>st1 st2. fold (\<lambda>m t. t \<bind> relayChunk E mid m) msgs (Some st) = Some st1
    \<and> disconnect_provider E' k mid st1 = Some st2
    \<and> tokens_of u (dbs st2) = tokens_of u (dbs st) + 2 * int (length msgs)"
proof -
  obtain st1 where st1: "fold (\<lambda>m t. t \<bind> relayChunk E mid m) msgs (Some st) = Some st1" "coord_ok st1"
    "GetSession mid (reg st1) = Some k" "ms_user (heap (reg st1) ! k) = u"
    "ms_tokens (heap (reg st1) ! k) = int (length msgs)" "has_user (dbs st1) u"
    "tokens_of u (dbs st1) = tokens_of u (dbs st) + int (length msgs)"
    using relay_all_counts [OF ok k(1) c msgs(1) E(1)] k(2) u by auto
  obtain x r2 where r2: "Unregister mid (reg st1) = Some (x, r2)"
    using Unregister_ok [of "reg st1" mid] st1(2) by (auto simp: coord_ok_def)
  have x: "x = (u, ms_requests (heap (reg st1) ! k), int (length msgs))"
    using r2 st1(3-5) by (auto simp: Unregister_def Let_def split: bind_splits)
  have "0 < int (length msgs)" using msgs(2) by simp
  with r2 x st1 u(2) UpdateOwnerStats_tokens(1) [OF E(2) st1(6)] show ?thesis
    by (simp add: disconnect_provider_def Let_def)
qed

theorem tokens_counted_twice_witness:
  "\<exists>st st1 st2. fold (\<lambda>m t. t \<bind> relayChunk demo_env ''mch_1'' m)
        [\<lparr>ch_request_id = ''r'', ch_content = ''a'', ch_tool_calls = [], ch_done = False\<rparr>] (Some st) = Some st1
    \<and> disconnect_provider demo_env 0 ''mch_1'' st1 = Some st2
    \<and> tokens_of 1 (dbs st2) = tokens_of 1 (dbs st) + 2"
proof -
  let ?r = "the (reg_step (ROpen ''mch_1'' ''r'' 32) demo_registry)"
  let ?st = "demo_coord\<lparr>reg := ?r\<rparr>"
  obtain r' where r': "reg_step (ROpen ''mch_1'' ''r'' 32) demo_registry = Some r'" "registry_ok r'"
    using reg_step_ok [OF demo_registry_ok] by blast
  then have ok: "coord_ok ?st"
    using demo_coord_ok by (simp add: coord_ok_def)
  have g: "GetSession ''mch_1'' (reg ?st) = Some 0" "ms_tokens (heap (reg ?st) ! 0) = 0"
    "chunk_chan ''mch_1'' ''r'' (reg ?st) = Some 0" "ms_user (heap (reg ?st) ! 0) = 1"
    by (simp_all add: demo_registry_def Register_def NewRegistry_def GetSession_def new_session_def
        open_request_def make_chan_def RegisterChunkChannel_def upd_session_def chunk_chan_def)
  have u: "has_user (dbs ?st) 1"
    by (simp add: demo_coord_def coord_start_def demo_store_def has_user_def)
  let ?msgs = "[\<lparr>ch_request_id = ''r'', ch_content = ''a'', ch_tool_calls = [], ch_done = False\<rparr>]"
  have m: "list_all (\<lambda>m. ch_request_id m = ''r'' \<and> \<not> ch_done m) ?msgs" "?msgs \<noteq> []"
    and e: "\<not> e_fault demo_env 0" and n: "0 < (1::int)" and two: "2 * int (length ?msgs) = 2"
    by simp_all
  show ?thesis
    by (rule exI [of _ ?st]) (rule tokens_counted_twice [OF ok g(1,2,3) m e e g(4) n u, unfolded two])
qed

end
