(* ===== verification/RateLimiter.thy ===== *)
theory RateLimiter
  imports Complex_Main Prelude "HOL-Library.Log_Nat"
begin

text \<open>
  The token bucket of the consumer API (\<open>internal/coord/ratelimit.go\<close>). A Go \<open>float64\<close> is the
  rational number it denotes, and \<open>rnd64\<close> rounds the exact result of an operation to
  the nearest one, ties to even, with 53 significant bits (the subnormal range included; the
  values here never reach the overflow threshold). Times are nanoseconds of the monotonic clock.
\<close>

section \<open>Rounding\<close>

definition round_even :: "rat \<Rightarrow> int" where
  "round_even y = (let f = \<lfloor>y\<rfloor>; d = y - of_int f in
     if d < 1 / 2 then f else if d > 1 / 2 then f + 1 else if even f then f else f + 1)"

text \<open>The exponent of the leading bit of a positive rational.\<close>

definition lead_bit :: "rat \<Rightarrow> int" where
  "lead_bit x = (let (n, d) = quotient_of x; k = int (nat (bitlen n)) - int (nat (bitlen d))
     in if x < 2 powi k then k - 1 else k)"

definition rnd64 :: "rat \<Rightarrow> rat" where
  "rnd64 x = (if x = 0 then 0
     else let e = max (lead_bit \<bar>x\<bar> - 52) (- 1074)
          in sgn x * of_int (round_even (\<bar>x\<bar> / 2 powi e)) * 2 powi e)"

lemma round_even_int [simp]: "round_even (of_int n) = n"
  by (simp add: round_even_def)

lemma round_even_nonneg: "0 \<le> y \<Longrightarrow> 0 \<le> round_even y"
  by (simp add: round_even_def Let_def)

lemma rnd64_0 [simp]: "rnd64 0 = 0"
  by (simp add: rnd64_def)

lemma rnd64_nonneg: "0 \<le> x \<Longrightarrow> 0 \<le> rnd64 x"
  by (simp add: rnd64_def Let_def round_even_nonneg)

text \<open>Integers of at most 53 bits are represented exactly.\<close>

lemma lead_bit_lower:
  assumes "0 < x"
  shows "2 powi (lead_bit x) \<le> x"
proof -
  obtain n d where q: "quotient_of x = (n, d)" by fastforce
  have x: "x = of_int n / of_int d" and d: "0 < d" using q quotient_of_div quotient_of_denom_pos by blast+
  then have n: "0 < n" using assms by (simp add: zero_less_divide_iff)
  let ?a = "bitlen n" and ?b = "bitlen d"
  have ab: "0 < ?a" "0 < ?b"
    using n d bitlen_eq_zero_iff [of n] bitlen_eq_zero_iff [of d] bitlen_nonneg [of n] bitlen_nonneg [of d] by linarith+
  have "(2::int) ^ nat (?a - 1) \<le> n" "d \<le> 2 ^ nat ?b" using bitlen_bounds [OF n] bitlen_bounds [OF d] by auto
  then have "(of_int (2 ^ nat (?a - 1)) :: rat) \<le> of_int n" "(of_int d :: rat) \<le> of_int (2 ^ nat ?b)"
    by (simp_all only: of_int_le_iff)
  then have "(2::rat) powi (?a - 1) \<le> of_int n" "of_int d \<le> (2::rat) powi ?b"
    using ab by (simp_all add: power_int_def)
  then have "(2::rat) powi (?a - 1) / 2 powi ?b \<le> of_int n / of_int d"
    using d n by (intro frac_le) auto
  then have "(2::rat) powi (?a - 1 - ?b) \<le> x" by (simp add: x power_int_diff)
  then show ?thesis
    using q ab by (simp add: lead_bit_def Let_def) (simp add: algebra_simps)
qed

lemma lead_bit_less: "0 < x \<Longrightarrow> x < 2 ^ 53 \<Longrightarrow> lead_bit x \<le> 52"
proof (rule ccontr)
  assume x: "0 < x" "x < 2 ^ 53" "\<not> lead_bit x \<le> 52"
  then have "(2::rat) powi 53 \<le> 2 powi (lead_bit x)" by (intro power_int_increasing) auto
  with lead_bit_lower [OF x(1)] x(2) show False by (simp add: power_int_def)
qed

lemma round_even_le: "of_int (round_even y) \<le> y + 1 / 2"
  by (auto simp: round_even_def Let_def) linarith+

text \<open>Below \<open>2^53\<close> rounding moves a number by at most one half.\<close>

lemma rnd64_le: "0 \<le> x \<Longrightarrow> x < 2 ^ 53 \<Longrightarrow> rnd64 x \<le> x + 1 / 2"
proof (cases "x = 0")
  case False
  assume x: "0 \<le> x" "x < 2 ^ 53"
  with False have pos: "0 < x" by simp
  let ?e = "max (lead_bit x - 52) (- 1074)"
  have e: "?e \<le> 0" using lead_bit_less [OF pos x(2)] by simp
  then have p: "(2::rat) powi ?e \<le> 2 powi 0" by (intro power_int_increasing) auto
  have "of_int (round_even (x / 2 powi ?e)) * 2 powi ?e \<le> (x / 2 powi ?e + 1 / 2) * 2 powi ?e"
    by (intro mult_right_mono round_even_le) simp
  also have "\<dots> = x + 1 / 2 * 2 powi ?e" by (simp add: algebra_simps)
  also have "\<dots> \<le> x + 1 / 2" using p by simp
  finally show ?thesis using pos by (simp add: rnd64_def Let_def)
qed simp

lemma powi_minus_int: "e \<le> 0 \<Longrightarrow> \<exists>m::int. 1 / (2::rat) powi e = of_int m"
proof -
  assume "e \<le> 0"
  then have "1 / (2::rat) powi e = 2 ^ nat (- e)"
    by (simp add: power_int_def field_simps split: if_splits)
  then have "1 / (2::rat) powi e = of_int (2 ^ nat (- e))" by simp
  then show ?thesis by blast
qed

lemma rnd64_int:
  assumes "\<bar>n\<bar> < 2 ^ 53"
  shows "rnd64 (of_int n) = of_int n"
proof (cases "n = 0")
  case False
  let ?e = "max (lead_bit \<bar>of_int n :: rat\<bar> - 52) (- 1074)"
  have "lead_bit (of_int \<bar>n\<bar>) \<le> 52"
    by (rule lead_bit_less) (use False assms in \<open>simp_all flip: of_int_abs of_int_less_iff\<close>)
  then have e: "?e \<le> 0" by simp
  obtain m where m: "1 / (2::rat) powi ?e = of_int m" using powi_minus_int [OF e] by blast
  have "\<bar>of_int n :: rat\<bar> / 2 powi ?e = of_int \<bar>n\<bar> * (1 / (2::rat) powi ?e)" by simp
  also have "\<dots> = of_int (\<bar>n\<bar> * m)" by (simp only: m of_int_mult)
  finally have q: "\<bar>of_int n :: rat\<bar> / 2 powi ?e = of_int (\<bar>n\<bar> * m)" .
  have "rnd64 (of_int n) = sgn (of_int n) * of_int (round_even (\<bar>of_int n\<bar> / 2 powi ?e)) * 2 powi ?e"
    using False by (simp add: rnd64_def Let_def)
  also have "\<dots> = sgn (of_int n) * (\<bar>of_int n\<bar> / 2 powi ?e) * 2 powi ?e"
    by (simp only: q round_even_int)
  also have "\<dots> = of_int n" by (simp add: sgn_mult_abs mult.commute sgn_if abs_if)
  finally show ?thesis .
qed simp

section \<open>The limiter\<close>

record tokenBucket =
  tb_tokens :: rat
  tb_last :: int

record RateLimiter =
  rl_buckets :: "string \<Rightarrow> tokenBucket option"
  rl_rate :: rat
  rl_burst :: rat

definition RateLimitHourly :: "int \<Rightarrow> RateLimiter" where
  "RateLimitHourly perHour = \<lparr>rl_buckets = (\<lambda>_. None), rl_rate = rnd64 (rnd64 (of_int perHour) / 3600),
     rl_burst = rnd64 (of_int perHour)\<rparr>"

text \<open>\<open>Duration.Seconds\<close>: whole seconds plus the rest over \<open>1e9\<close>.\<close>

definition Seconds :: "int \<Rightarrow> rat" where
  "Seconds d = sgn (of_int d) * rnd64 (of_int (\<bar>d\<bar> div second) + rnd64 (of_int (\<bar>d\<bar> mod second) / 1000000000))"

definition refill :: "int \<Rightarrow> RateLimiter \<Rightarrow> tokenBucket \<Rightarrow> rat" where
  "refill now rl b = rnd64 (tb_tokens b + rnd64 (Seconds (now - tb_last b) * rl_rate rl))"

definition Allow :: "int \<Rightarrow> string \<Rightarrow> RateLimiter \<Rightarrow> (bool \<times> int) \<times> RateLimiter" where
  "Allow now key rl =
    (let b = (case rl_buckets rl key of None \<Rightarrow> \<lparr>tb_tokens = rl_burst rl, tb_last = now\<rparr> | Some b \<Rightarrow> b);
         t = refill now rl b;
         tokens = (if t > rl_burst rl then rl_burst rl else t)
     in if tokens < 1
        then ((False, \<lfloor>tokens\<rfloor>), rl\<lparr>rl_buckets := (rl_buckets rl)(key \<mapsto> \<lparr>tb_tokens = tokens, tb_last = now\<rparr>)\<rparr>)
        else ((True, \<lfloor>rnd64 (tokens - 1)\<rfloor>),
              rl\<lparr>rl_buckets := (rl_buckets rl)(key \<mapsto> \<lparr>tb_tokens = rnd64 (tokens - 1), tb_last = now\<rparr>)\<rparr>))"

definition Burst :: "RateLimiter \<Rightarrow> int" where
  "Burst rl = \<lfloor>rl_burst rl\<rfloor>"

definition Remaining :: "int \<Rightarrow> string \<Rightarrow> RateLimiter \<Rightarrow> int" where
  "Remaining now key rl = (case rl_buckets rl key of None \<Rightarrow> \<lfloor>rl_burst rl\<rfloor>
     | Some b \<Rightarrow> \<lfloor>min (refill now rl b) (rl_burst rl)\<rfloor>)"

definition Reset :: "string \<Rightarrow> RateLimiter \<Rightarrow> RateLimiter" where
  "Reset key rl = rl\<lparr>rl_buckets := (rl_buckets rl)(key := None)\<rparr>"

text \<open>One turn of the clean-up: buckets that are nearly full again are dropped.\<close>

definition cleanup :: "int \<Rightarrow> RateLimiter \<Rightarrow> RateLimiter" where
  "cleanup now rl = rl\<lparr>rl_buckets := (\<lambda>k. case rl_buckets rl k of None \<Rightarrow> None
     | Some b \<Rightarrow> if refill now rl b \<ge> rnd64 (rl_burst rl * rnd64 (9 / 10)) then None else Some b)\<rparr>"

section \<open>Bounds and bursts\<close>

definition buckets_ok :: "RateLimiter \<Rightarrow> bool" where
  "buckets_ok rl \<longleftrightarrow> 0 \<le> rl_rate rl \<and> 0 \<le> rl_burst rl \<and> rl_burst rl < 2 ^ 53
     \<and> (\<forall>k b. rl_buckets rl k = Some b \<longrightarrow> 0 \<le> tb_tokens b \<and> tb_tokens b \<le> rl_burst rl)"

lemma Seconds_nonneg: "0 \<le> d \<Longrightarrow> 0 \<le> Seconds d"
  by (auto simp: Seconds_def second_def sgn_if pos_imp_zdiv_nonneg_iff
      intro!: mult_nonneg_nonneg rnd64_nonneg add_nonneg_nonneg)

lemma Seconds_0 [simp]: "Seconds 0 = 0"
  by (simp add: Seconds_def)

text \<open>The tokens of a bucket when a call reads it.\<close>

definition level :: "int \<Rightarrow> string \<Rightarrow> RateLimiter \<Rightarrow> rat" where
  "level now key rl = (let b = (case rl_buckets rl key of None \<Rightarrow> \<lparr>tb_tokens = rl_burst rl, tb_last = now\<rparr> | Some b \<Rightarrow> b);
     t = refill now rl b in if t > rl_burst rl then rl_burst rl else t)"

lemma Allow_level: "Allow now key rl =
    (if level now key rl < 1
     then ((False, \<lfloor>level now key rl\<rfloor>), rl\<lparr>rl_buckets := (rl_buckets rl)(key \<mapsto> \<lparr>tb_tokens = level now key rl, tb_last = now\<rparr>)\<rparr>)
     else ((True, \<lfloor>rnd64 (level now key rl - 1)\<rfloor>),
           rl\<lparr>rl_buckets := (rl_buckets rl)(key \<mapsto> \<lparr>tb_tokens = rnd64 (level now key rl - 1), tb_last = now\<rparr>)\<rparr>))"
  by (simp add: Allow_def level_def Let_def)

lemma level_bounds:
  assumes ok: "buckets_ok rl" and t: "\<forall>b. rl_buckets rl key = Some b \<longrightarrow> tb_last b \<le> now"
  shows "0 \<le> level now key rl \<and> level now key rl \<le> rl_burst rl"
proof -
  let ?b = "case rl_buckets rl key of None \<Rightarrow> \<lparr>tb_tokens = rl_burst rl, tb_last = now\<rparr> | Some b \<Rightarrow> b"
  have "tb_last ?b \<le> now" "0 \<le> tb_tokens ?b"
    using ok t by (auto simp: buckets_ok_def split: option.split)
  then have "0 \<le> refill now rl ?b"
    using ok by (auto simp: refill_def buckets_ok_def
        intro!: rnd64_nonneg add_nonneg_nonneg mult_nonneg_nonneg Seconds_nonneg)
  with ok show ?thesis by (simp add: level_def Let_def buckets_ok_def)
qed

text \<open>
  The token bucket stays within its bounds under floating point. On a clock that does not go
  back, \<open>Allow\<close> keeps every bucket between zero and the burst, touches no other key, grants
  exactly when at least one whole token is there, and reports a remainder between zero and the
  burst.
\<close>

theorem allow_within_burst:
  assumes ok: "buckets_ok rl" and t: "\<forall>b. rl_buckets rl key = Some b \<longrightarrow> tb_last b \<le> now"
  shows "buckets_ok (snd (Allow now key rl))
    \<and> (fst (fst (Allow now key rl)) \<longleftrightarrow> 1 \<le> level now key rl)
    \<and> 0 \<le> snd (fst (Allow now key rl)) \<and> snd (fst (Allow now key rl)) \<le> Burst rl
    \<and> (\<forall>k. k \<noteq> key \<longrightarrow> rl_buckets (snd (Allow now key rl)) k = rl_buckets rl k)"
proof -
  note lv = level_bounds [OF ok t]
  have b: "rl_burst rl < 2 ^ 53" using ok by (simp add: buckets_ok_def)
  have m: "0 \<le> rnd64 (level now key rl - 1) \<and> rnd64 (level now key rl - 1) \<le> rl_burst rl" if "1 \<le> level now key rl"
    using that lv b rnd64_nonneg [of "level now key rl - 1"] rnd64_le [of "level now key rl - 1"] by auto
  show ?thesis
    using ok lv m by (auto simp: Allow_level buckets_ok_def Burst_def not_less intro!: floor_mono)
qed

lemma buckets_ok_start: "0 \<le> n \<Longrightarrow> n < 2 ^ 53 \<Longrightarrow> buckets_ok (RateLimitHourly n)"
  by (simp add: buckets_ok_def RateLimitHourly_def rnd64_int rnd64_nonneg)

theorem allow_within_burst_witness:
  "fst (fst (Allow 5 ''k'' (RateLimitHourly 100))) \<longleftrightarrow> 1 \<le> level 5 ''k'' (RateLimitHourly 100)"
  using allow_within_burst [OF buckets_ok_start, of 100 "''k''" 5] by (simp add: RateLimitHourly_def)

section \<open>Cold start\<close>

lemma level_still:
  assumes "rl_buckets rl key = Some \<lparr>tb_tokens = of_int m, tb_last = now\<rparr>" and "rl_burst rl = of_int n"
    and "0 \<le> m" "m \<le> n" "n < 2 ^ 53"
  shows "level now key rl = of_int m"
  using assms by (simp add: level_def refill_def rnd64_int)

lemma level_fresh:
  assumes "rl_buckets rl key = None" and "rl_burst rl = of_int n" and "0 \<le> n" "n < 2 ^ 53"
  shows "level now key rl = of_int n"
  using assms by (simp add: level_def refill_def rnd64_int)

lemma Allow_int:
  assumes "level now key r = of_int m" and "0 \<le> m" "m < 2 ^ 53"
  shows "Allow now key r = (if 1 \<le> m
    then ((True, m - 1), r\<lparr>rl_buckets := (rl_buckets r)(key \<mapsto> \<lparr>tb_tokens = of_int (m - 1), tb_last = now\<rparr>)\<rparr>)
    else ((False, m), r\<lparr>rl_buckets := (rl_buckets r)(key \<mapsto> \<lparr>tb_tokens = of_int m, tb_last = now\<rparr>)\<rparr>))"
proof (cases "1 \<le> m")
  case True
  have "\<not> (of_int m :: rat) < 1" using True by simp
  moreover have "rnd64 (of_int m - 1) = of_int (m - 1)"
    using rnd64_int [of "m - 1"] True assms(3) by simp
  ultimately show ?thesis using True by (simp add: Allow_level assms(1))
next
  case False
  then show ?thesis by (simp add: Allow_level assms(1))
qed

lemma burst_state:
  assumes "0 \<le> n" "n < 2 ^ 53" and "int k \<le> n"
  shows "level now key (((\<lambda>r. snd (Allow now key r)) ^^ k) (RateLimitHourly n)) = of_int (n - int k)
    \<and> rl_burst (((\<lambda>r. snd (Allow now key r)) ^^ k) (RateLimitHourly n)) = of_int n
    \<and> (k = 0 \<or> rl_buckets (((\<lambda>r. snd (Allow now key r)) ^^ k) (RateLimitHourly n)) key
         = Some \<lparr>tb_tokens = of_int (n - int k), tb_last = now\<rparr>)"
  using assms(3)
proof (induction k)
  case 0
  show ?case using assms(1,2) by (simp add: level_fresh RateLimitHourly_def rnd64_int)
next
  case (Suc k)
  let ?r = "((\<lambda>r. snd (Allow now key r)) ^^ k) (RateLimitHourly n)"
  have ih: "level now key ?r = of_int (n - int k)" "rl_burst ?r = of_int n" using Suc by simp_all
  have "snd (Allow now key ?r) = ?r\<lparr>rl_buckets := (rl_buckets ?r)(key \<mapsto>
      \<lparr>tb_tokens = of_int (n - int (Suc k)), tb_last = now\<rparr>)\<rparr>"
    using Allow_int [OF ih(1)] Suc.prems assms(1,2) by (simp add: algebra_simps)
  then show ?case
    using Suc.prems assms(1,2) ih(2) by (simp add: level_still [of _ key "n - int (Suc k)" now n])
qed



text \<open>
  The clean-up gives tokens away. It drops a bucket that is back to nine tenths of the burst, and a
  dropped bucket starts full: with 100 requests per hour, ten requests just before the
  ten-minute clean-up are forgotten, and the key has 100 tokens again at once.
\<close>

theorem cleanup_forgets_requests:
  "Remaining now key (((\<lambda>r. snd (Allow now key r)) ^^ 10) (RateLimitHourly 100)) = 90
    \<and> Remaining now key (cleanup now (((\<lambda>r. snd (Allow now key r)) ^^ 10) (RateLimitHourly 100))) = 100"
proof -
  let ?r = "((\<lambda>r. snd (Allow now key r)) ^^ 10) (RateLimitHourly 100)"
  have r: "rl_burst ?r = 100" "rl_buckets ?r key = Some \<lparr>tb_tokens = 90, tb_last = now\<rparr>"
    using burst_state [of 100 10 now key] by simp_all
  have "rnd64 90 = 90" using rnd64_int [of 90] by simp
  then have f: "refill now ?r \<lparr>tb_tokens = 90, tb_last = now\<rparr> = 90" by (simp add: refill_def)
  have th: "rnd64 (100 * rnd64 (9 / 10)) = 90" by code_simp
  have "Remaining now key ?r = 90" by (simp add: Remaining_def r f)
  moreover have "Remaining now key (cleanup now ?r) = 100"
    unfolding Remaining_def cleanup_def by (simp add: r f th)
  ultimately show ?thesis by blast
qed

end
