(* ===== verification/PinLimiter.thy ===== *)
theory PinLimiter
  imports Prelude GoStrings
begin

text \<open>
  The limiter of PIN attempts (\<open>pinLimiter\<close> of \<open>internal/coord/invites.go\<close>): at most \<open>limit\<close>
  attempts per key (the user and the client address) in any 15 minutes. The map of attempts is a
  function, an absent key holds no time. Times are nanoseconds of a clock that does not
  go back.
\<close>

record pinLimiter =
  pl_limit :: int
  pl_window :: int
  pl_attempts :: "string \<Rightarrow> int list"

definition newPinLimiter :: "int \<Rightarrow> pinLimiter" where
  "newPinLimiter limit = \<lparr>pl_limit = (if limit \<le> 0 then 10 else limit), pl_window = 15 * minute,
     pl_attempts = (\<lambda>_. [])\<rparr>"

text \<open>First loop: drop the old attempts of each key; \<open>False\<close> at the first key that is full.\<close>

fun prune_keys :: "int \<Rightarrow> string list \<Rightarrow> pinLimiter \<Rightarrow> bool \<times> pinLimiter" where
  "prune_keys cutoff [] p = (True, p)"
| "prune_keys cutoff (key # keys) p =
     (if key = [] then prune_keys cutoff keys p
      else
        let filtered = filter (\<lambda>t. t > cutoff) (pl_attempts p key);
            p1 = p\<lparr>pl_attempts := (pl_attempts p)(key := filtered)\<rparr>
        in if int (length filtered) \<ge> pl_limit p then (False, p1) else prune_keys cutoff keys p1)"

text \<open>Second loop: record the attempt for each key.\<close>

fun record_keys :: "int \<Rightarrow> string list \<Rightarrow> pinLimiter \<Rightarrow> pinLimiter" where
  "record_keys now [] p = p"
| "record_keys now (key # keys) p =
     record_keys now keys
       (if key = [] then p else p\<lparr>pl_attempts := (pl_attempts p)(key := pl_attempts p key @ [now])\<rparr>)"

definition allow :: "int \<Rightarrow> string list \<Rightarrow> pinLimiter \<Rightarrow> bool \<times> pinLimiter" where
  "allow now keys p =
    (case prune_keys (now - pl_window p) keys p of
       (False, p1) \<Rightarrow> (False, p1)
     | (True, p1) \<Rightarrow> (True, record_keys now keys p1))"

text \<open>
  The address an attempt is counted under: the first entry of \<open>X-Forwarded-For\<close>, else the host of the
  peer address, as \<open>net.SplitHostPort\<close> gives it (\<open>None\<close> is its error).
\<close>

definition clientIP :: "string \<Rightarrow> string \<Rightarrow> string option \<Rightarrow> string" where
  "clientIP xff remoteAddr host =
    (if xff \<noteq> [] then TrimSpace (hd (Split1 (CHR '','') xff))
     else case host of None \<Rightarrow> remoteAddr | Some h \<Rightarrow> h)"

section \<open>What the loops do\<close>

definition recent :: "int \<Rightarrow> string \<Rightarrow> pinLimiter \<Rightarrow> int list" where
  "recent cutoff key p = filter (\<lambda>t. t > cutoff) (pl_attempts p key)"

lemma prune_frame: "prune_keys cutoff keys p = (b, p') \<Longrightarrow>
    pl_limit p' = pl_limit p \<and> pl_window p' = pl_window p \<and> (\<forall>key. recent cutoff key p' = recent cutoff key p)"
  by (induction cutoff keys p rule: prune_keys.induct)
    (auto simp: Let_def recent_def split: if_splits)

lemma recent_later: "cutoff \<le> c \<Longrightarrow> recent cutoff key p = recent cutoff key q \<Longrightarrow> recent c key p = recent c key q"
proof -
  assume le: "cutoff \<le> c" and eq: "recent cutoff key p = recent cutoff key q"
  have "recent c key x = filter (\<lambda>t. t > c) (recent cutoff key x)" for x
    using le by (auto simp: recent_def intro!: filter_cong)
  then show ?thesis using eq by simp
qed

lemma prune_passed: "prune_keys cutoff keys p = (True, p') \<Longrightarrow> key \<in> set keys \<Longrightarrow> key \<noteq> [] \<Longrightarrow>
    int (length (recent cutoff key p)) < pl_limit p"
proof (induction cutoff keys p rule: prune_keys.induct)
  case (2 cutoff k keys p)
  let ?p1 = "p\<lparr>pl_attempts := (pl_attempts p)(k := filter (\<lambda>t. t > cutoff) (pl_attempts p k))\<rparr>"
  show ?case
  proof (cases "k = []")
    case True
    with 2 show ?thesis by simp
  next
    case False
    with 2(3) have nf: "int (length (recent cutoff k p)) < pl_limit p"
      and next1: "prune_keys cutoff keys ?p1 = (True, p')"
      by (simp_all add: Let_def recent_def split: if_splits)
    show ?thesis
    proof (cases "key = k")
      case True
      with nf show ?thesis by simp
    next
      case neq: False
      with 2(4) have "key \<in> set keys" by simp
      with 2(2) [OF False refl refl] next1 nf 2(5)
      have "int (length (recent cutoff key ?p1)) < pl_limit ?p1"
        by (simp add: recent_def)
      with neq show ?thesis by (simp add: recent_def)
    qed
  qed
qed simp

lemma record_attempts: "key \<noteq> [] \<Longrightarrow>
    pl_attempts (record_keys now keys p) key
      = pl_attempts p key @ replicate (count_where (\<lambda>k. k = key) keys) now"
  by (induction now keys p rule: record_keys.induct) (auto simp: replicate_append_same [symmetric])

lemma record_frame [simp]:
  "pl_limit (record_keys now keys p) = pl_limit p" "pl_window (record_keys now keys p) = pl_window p"
  by (induction now keys p rule: record_keys.induct) auto

section \<open>The sliding window\<close>

text \<open>A run of calls, and the times at which a key was granted.\<close>

fun pin_run :: "(int \<times> string list) list \<Rightarrow> pinLimiter \<Rightarrow> (int \<times> string list \<times> bool) list \<times> pinLimiter" where
  "pin_run [] p = ([], p)"
| "pin_run ((now, keys) # calls) p =
     (let (b, p1) = allow now keys p; (gs, p2) = pin_run calls p1 in ((now, keys, b) # gs, p2))"

definition grants_of :: "string \<Rightarrow> (int \<times> string list \<times> bool) list \<Rightarrow> int list" where
  "grants_of key gs = map fst (filter (\<lambda>(t, keys, b). b \<and> key \<in> set keys) gs)"

definition in_window :: "int \<Rightarrow> int \<Rightarrow> int list \<Rightarrow> nat" where
  "in_window w T ts = count_where (\<lambda>t. T - w < t \<and> t \<le> T) ts"

definition window_inv :: "string \<Rightarrow> pinLimiter \<Rightarrow> int list \<Rightarrow> int \<Rightarrow> bool" where
  "window_inv key p hist L \<longleftrightarrow> 0 < pl_window p \<and> (\<forall>t \<in> set hist. t \<le> L)
     \<and> recent (L - pl_window p) key p = filter (\<lambda>t. t > L - pl_window p) hist
     \<and> (\<forall>T. int (in_window (pl_window p) T hist) \<le> pl_limit p)"

lemma allow_cases:
  assumes "allow now keys p = (b, p')"
  obtains p1 where "prune_keys (now - pl_window p) keys p = (b, p1)"
    "p' = (if b then record_keys now keys p1 else p1)"
  using assms by (auto simp: allow_def split: prod.splits bool.splits)

lemma filter_mono_cutoff: "c \<le> d \<Longrightarrow> filter (\<lambda>t. t > d) (filter (\<lambda>t. t > c) xs) = filter (\<lambda>t::int. t > d) xs"
  by (auto intro!: filter_cong)

lemma in_window_bound:
  assumes "\<forall>t \<in> set hist. t \<le> L" "L \<le> now" "now \<le> T"
  shows "in_window w T hist \<le> length (filter (\<lambda>t. t > now - w) hist)"
proof -
  have "in_window w T hist \<le> count_where (\<lambda>t. t > now - w) hist"
    unfolding in_window_def by (rule count_where_mono) (use assms in auto)
  then show ?thesis by (simp add: count_where_def)
qed

lemma allow_window:
  assumes i: "window_inv key p hist L" and L: "L \<le> now" and k: "key \<noteq> []" and d: "distinct keys"
    and a: "allow now keys p = (b, p')"
  shows "window_inv key p' (if b \<and> key \<in> set keys then hist @ [now] else hist) now"
proof -
  obtain p1 where p1: "prune_keys (now - pl_window p) keys p = (b, p1)"
    and p': "p' = (if b then record_keys now keys p1 else p1)"
    by (rule allow_cases [OF a])
  note fr = prune_frame [OF p1]
  have same: "pl_window p' = pl_window p" "pl_limit p' = pl_limit p"
    using fr p' by simp_all
  have "recent (now - pl_window p) key p = filter (\<lambda>t. t > now - pl_window p) (recent (L - pl_window p) key p)"
    using L unfolding recent_def by (subst filter_mono_cutoff) simp_all
  also have "\<dots> = filter (\<lambda>t. t > now - pl_window p) hist"
    using i L unfolding window_inv_def by (simp only:) (rule filter_mono_cutoff, simp)
  finally have r: "recent (now - pl_window p) key p = filter (\<lambda>t. t > now - pl_window p) hist" .
  then have r1: "recent (now - pl_window p) key p1 = filter (\<lambda>t. t > now - pl_window p) hist"
    using fr by simp
  show ?thesis
  proof (cases "b \<and> key \<in> set keys")
    case True
    have "count_where (\<lambda>k. k = key) keys = 1"
      using True d count_where_unique [of "\<lambda>x. x" keys key "\<lambda>_. True"] count_where_pos [of "\<lambda>k. k = key" keys]
      by force
    then have "pl_attempts p' key = pl_attempts p1 key @ [now]"
      using True record_attempts [OF k, of now keys p1] p' by simp
    then have rec: "recent (now - pl_window p) key p' = filter (\<lambda>t. t > now - pl_window p) (hist @ [now])"
      using r1 by (simp add: recent_def)
    have full: "int (length (filter (\<lambda>t. t > now - pl_window p) hist)) < pl_limit p"
      using prune_passed [of "now - pl_window p" keys p p1 key] p1 True k r by simp
    have "int (in_window (pl_window p) T (hist @ [now])) \<le> pl_limit p" for T
    proof (cases "T < now")
      case True
      then show ?thesis using i by (simp add: in_window_def window_inv_def)
    next
      case False
      then have "in_window (pl_window p) T hist \<le> length (filter (\<lambda>t. t > now - pl_window p) hist)"
        using i L in_window_bound [of hist L now T "pl_window p"] by (simp add: window_inv_def)
      with full show ?thesis by (simp add: in_window_def)
    qed
    with True i L rec same show ?thesis by (auto simp: window_inv_def)
  next
    case False
    have "pl_attempts p' key = pl_attempts p1 key"
    proof (cases b)
      case True
      with False have "count_where (\<lambda>k. k = key) keys = 0" by (auto simp: count_where_0)
      with True record_attempts [OF k, of now keys p1] p' show ?thesis by simp
    qed (simp add: p')
    then have "recent (now - pl_window p) key p' = filter (\<lambda>t. t > now - pl_window p) hist"
      using r1 by (simp add: recent_def)
    with False i L same show ?thesis by (auto simp: window_inv_def)
  qed
qed

lemma pin_run_window:
  assumes "window_inv key p hist L" and "key \<noteq> []" and "sorted (L # map fst calls)"
    and "list_all (\<lambda>(t, keys). distinct keys) calls"
  shows "int (in_window (pl_window p) T (hist @ grants_of key (fst (pin_run calls p)))) \<le> pl_limit p"
  using assms
proof (induction calls arbitrary: p hist L)
  case Nil
  then show ?case by (simp add: window_inv_def grants_of_def)
next
  case (Cons c calls)
  obtain now keys where c: "c = (now, keys)" by fastforce
  obtain b p1 where a: "allow now keys p = (b, p1)" by fastforce
  have w: "window_inv key p1 (if b \<and> key \<in> set keys then hist @ [now] else hist) now"
    by (rule allow_window [OF Cons.prems(1) _ Cons.prems(2) _ a]) (use Cons.prems(3,4) c in simp_all)
  have same: "pl_window p1 = pl_window p" "pl_limit p1 = pl_limit p"
    using a prune_frame by (auto elim!: allow_cases)
  from Cons.IH [OF w Cons.prems(2)] Cons.prems(3,4) c same a show ?case
    by (auto simp: grants_of_def split: prod.splits if_splits)
qed

text \<open>
  A sliding window. Whatever the calls, in the order of a clock that does not go back, each with
  distinct keys, in every window of 15 minutes, wherever it begins, a key is granted at most
  \<open>limit\<close> attempts (10 when the configured limit is not positive).
\<close>

theorem pin_attempts_bounded:
  assumes "sorted (map fst calls)" and "list_all (\<lambda>(t, keys). distinct keys) calls" and "key \<noteq> []"
  shows "int (in_window (15 * minute) T (grants_of key (fst (pin_run calls (newPinLimiter limit)))))
    \<le> (if limit \<le> 0 then 10 else limit)"
proof -
  let ?L = "case calls of [] \<Rightarrow> 0 | c # _ \<Rightarrow> fst c"
  have "window_inv key (newPinLimiter limit) [] ?L"
    by (simp add: window_inv_def newPinLimiter_def recent_def in_window_def duration_defs)
  moreover have "sorted (?L # map fst calls)" using assms(1) by (cases calls) auto
  ultimately show ?thesis
    using pin_run_window [of key "newPinLimiter limit" "[]" ?L calls T] assms(2,3)
    by (simp add: newPinLimiter_def split: if_splits)
qed

theorem pin_attempts_bounded_witness:
  "int (in_window (15 * minute) 7 (grants_of ''user:1'' (fst (pin_run
      [(1, [''user:1'', ''ip:a'']), (2, [''user:1'', ''ip:b'']), (3, [''user:1'', ''ip:c''])] (newPinLimiter 2)))))
    \<le> 2"
  using pin_attempts_bounded [of "[(1, [''user:1'', ''ip:a'']), (2, [''user:1'', ''ip:b'']),
      (3, [''user:1'', ''ip:c''])]" "''user:1''" 7 2] by simp

text \<open>
  A refused attempt costs nothing, and the limiter recovers: a call is refused exactly when one
  of its keys already has \<open>limit\<close> granted attempts in the last 15 minutes, and no attempt is
  recorded for it.
\<close>

theorem pin_refusal_exact:
  assumes "0 < pl_limit p"
  shows "fst (allow now keys p) = list_all (\<lambda>key. key = [] \<or> int (length (recent (now - pl_window p) key p)) < pl_limit p) keys
    \<and> (fst (allow now keys p) \<or> (\<forall>key. recent (now - pl_window p) key (snd (allow now keys p)) = recent (now - pl_window p) key p))"
proof -
  have "fst (prune_keys c keys p)
      = list_all (\<lambda>key. key = [] \<or> int (length (recent c key p)) < pl_limit p) keys" for c
  proof (induction c keys p rule: prune_keys.induct)
    case (2 c k keys p)
    let ?p1 = "p\<lparr>pl_attempts := (pl_attempts p)(k := filter (\<lambda>t. t > c) (pl_attempts p k))\<rparr>"
    have same: "recent c key ?p1 = recent c key p" "pl_limit ?p1 = pl_limit p" for key
      by (simp_all add: recent_def)
    show ?case
    proof (cases "k = []")
      case True
      with 2 show ?thesis by simp
    next
      case False
      with 2(2) [OF False refl refl] same show ?thesis
        by (simp add: Let_def recent_def not_le)
    qed
  qed simp
  note exact = this [of "now - pl_window p"]
  obtain b p1 where p1: "prune_keys (now - pl_window p) keys p = (b, p1)" by fastforce
  have "\<forall>key. recent (now - pl_window p) key p1 = recent (now - pl_window p) key p"
    using prune_frame [OF p1] by blast
  with exact p1 show ?thesis by (cases b) (simp_all add: allow_def)
qed

theorem pin_refusal_exact_witness:
  "\<not> fst (allow 3 [''user:1'', ''ip:c''] (snd (pin_run [(1, [''user:1'']), (2, [''user:1''])] (newPinLimiter 2))))"
  using pin_refusal_exact [of "snd (pin_run [(1, [''user:1'']), (2, [''user:1''])] (newPinLimiter 2))" 3
      "[''user:1'', ''ip:c'']"]
  by (simp add: newPinLimiter_def allow_def recent_def Let_def duration_defs)

end
