(* ===== verification/Chat.thy ===== *)
theory Chat
  imports RelayProps RateLimiter PinLimiter Json
begin

text \<open>
  The consumer API (\<open>internal/coord/api.go\<close>): authentication by API key, the model lists, the
  checks before a chat completion, the streaming loop and the non-streaming retries.

  The state is the \<open>Server\<close> struct. A response is its status with a JSON body or a stream of server-sent
  events. What the network and the clock do while a handler waits is a list of events that the
  loop consumes, one per turn of its \<open>select\<close>.
\<close>

record server =
  sv_coord :: coord
  sv_limiter :: "RateLimiter option"
  sv_pins :: pinLimiter
  sv_base_url :: string
  sv_invite_ttl :: int
  sv_invite_uses :: int

datatype sse = SseData json | SseDone

datatype response = JsonBody nat json | Stream "sse list"

section \<open>Errors\<close>

definition openaiErrorBody :: "string \<Rightarrow> string \<Rightarrow> json" where
  "openaiErrorBody code message0 =
    (let message = (if message0 = [] then code else message0) in
     JObj [(''error'', JObj [(''message'', JStr message), (''type'', JStr ''api_error''), (''code'', JStr code)])])"

definition writeAPIError :: "nat \<Rightarrow> string \<Rightarrow> string \<Rightarrow> response" where
  "writeAPIError status code message = JsonBody status (openaiErrorBody code message)"

definition writeError :: "nat \<Rightarrow> string \<Rightarrow> response" where
  "writeError status msg = writeAPIError status msg msg"

definition writeSSEError :: "string \<Rightarrow> string \<Rightarrow> sse list" where
  "writeSSEError code message = [SseData (openaiErrorBody code message), SseDone]"

definition handleLegacyChatCompletions :: response where
  "handleLegacyChatCompletions = writeAPIError 410 ''gone''
     (''Use POST /v1/machines/{machine_id}/chat/completions '' @ [CHR 0xE2, CHR 0x80, CHR 0x94]
       @ '' pool routing was removed in v2'')"

section \<open>Authentication\<close>

definition requireAPIKey :: "hostenv \<Rightarrow> string \<Rightarrow> store \<Rightarrow> response + (string \<times> int)" where
  "requireAPIKey E authHeader s =
    (if authHeader = [] then Inl (writeError 401 ''missing Authorization header'')
     else if \<not> HasPrefix authHeader ''Bearer '' then Inl (writeError 401 ''missing Authorization header'')
     else
       let keyHash = hashKey E (TrimPrefix authHeader ''Bearer '')
       in case FindKeyByHash E keyHash s of
            Inl e \<Rightarrow> Inl (writeError 500 ''internal error'')
          | Inr None \<Rightarrow> Inl (writeError 401 ''invalid API key'')
          | Inr (Some key) \<Rightarrow> Inr (keyHash, k_user key))"

text \<open>The limiter in front of a handler; \<open>None\<close> when the configured rate is zero.\<close>

definition rate_gate :: "hostenv \<Rightarrow> string \<Rightarrow> server \<Rightarrow> bool \<times> server" where
  "rate_gate E keyHash sv =
    (case sv_limiter sv of
       None \<Rightarrow> (True, sv)
     | Some rl \<Rightarrow> (let ((ok, _), rl1) = Allow (e_now E) keyHash rl in (ok, sv\<lparr>sv_limiter := Some rl1\<rparr>)))"

section \<open>Model lists\<close>

definition models_of :: "registry \<Rightarrow> BindingInfo \<Rightarrow> ModelEntry list" where
  "models_of r bi =
    (case GetSession (bi_machine bi) r of
       None \<Rightarrow> []
     | Some k \<Rightarrow>
         let s = heap r ! k in
         if \<not> ms_backend_ok s then []
         else map (\<lambda>name. \<lparr>me_id = name, me_object = ''model'', me_owned_by = bi_machine bi,
                    me_machine_id = bi_machine bi, me_machine_name = bi_name bi, me_online = True,
                    me_load = LoadFraction s\<rparr>) (ms_models s))"

definition handleAPIModels :: "hostenv \<Rightarrow> string \<Rightarrow> int \<Rightarrow> server \<Rightarrow> (nat + ModelEntry list) \<times> server" where
  "handleAPIModels E keyHash userID sv =
    (let (ok, sv1) = (if keyHash = [] then (True, sv) else rate_gate E keyHash sv) in
     if \<not> ok then (Inl 429, sv1)
     else case ListAccessibleMachines E userID (dbs (sv_coord sv1)) of
            Inl e \<Rightarrow> (Inl 500, sv1)
          | Inr accessible \<Rightarrow>
              (Inr (sort_key (\<lambda>e. (me_machine_id e @ [CHR 0x00]) @ me_id e)
                     (concat (map (models_of (reg (sv_coord sv1))) accessible))), sv1))"

definition handleMachineModels :: "hostenv \<Rightarrow> string \<Rightarrow> string \<Rightarrow> int \<Rightarrow> server
    \<Rightarrow> (nat + ModelEntry list) \<times> server" where
  "handleMachineModels E machineID keyHash userID sv =
    (case CanAccessMachine E userID machineID (dbs (sv_coord sv)) of
       Inl e \<Rightarrow> (Inl 500, sv)
     | Inr False \<Rightarrow> (Inl 403, sv)
     | Inr True \<Rightarrow>
         let (ok, sv1) = (if keyHash = [] then (True, sv) else rate_gate E keyHash sv) in
         if \<not> ok then (Inl 429, sv1)
         else case GetSession machineID (reg (sv_coord sv1)) of
                None \<Rightarrow> (Inr [], sv1)
              | Some k \<Rightarrow>
                  let s = heap (reg (sv_coord sv1)) ! k in
                  (Inr (map (\<lambda>name. \<lparr>me_id = name, me_object = ''model'', me_owned_by = ''owner'',
                          me_machine_id = [], me_machine_name = [], me_online = ms_backend_ok s,
                          me_load = LoadFraction s\<rparr>) (ms_models s)), sv1))"

section \<open>The request\<close>

record ChatCompletionRequest =
  cq_model :: string
  cq_messages :: string
  cq_stream :: bool
  cq_temperature :: rat
  cq_top_p :: rat
  cq_max_tokens :: int
  cq_tools :: string
  cq_tool_choice :: string

definition provider_prefixes :: "string list" where
  "provider_prefixes = [''openai/'', ''anthropic/'', ''ollama/'']"

fun strip_prefix :: "string list \<Rightarrow> string \<Rightarrow> string" where
  "strip_prefix [] model = model"
| "strip_prefix (p # ps) model = (case CutPrefix model p of (after, True) \<Rightarrow> after | (_, False) \<Rightarrow> strip_prefix ps model)"

definition buildOptions :: "ChatCompletionRequest \<Rightarrow> json option" where
  "buildOptions req =
    (let opts = (if cq_temperature req \<noteq> 0 then [(''temperature'', JNum (cq_temperature req))] else [])
              @ (if cq_top_p req \<noteq> 0 then [(''top_p'', JNum (cq_top_p req))] else [])
              @ (if cq_max_tokens req \<noteq> 0 then [(''num_predict'', jint (cq_max_tokens req))] else [])
     in if opts = [] then None else Some (JObj opts))"

section \<open>The report endpoint\<close>

record report =
  rp_request_id :: string
  rp_reason :: string
  rp_machine_id :: string

definition handleReport :: "string \<Rightarrow> report option \<Rightarrow> response" where
  "handleReport meth body =
    (if meth \<noteq> ''POST'' then writeError 405 ''method not allowed''
     else case body of
       None \<Rightarrow> writeError 400 ''invalid request body''
     | Some rp \<Rightarrow>
         if rp_request_id rp = [] then writeError 400 ''request_id is required''
         else if rp_reason rp = [] then writeError 400 ''reason is required''
         else JsonBody 202 (JObj [(''status'', JStr ''ok'')]))"

section \<open>Admission\<close>

text \<open>What precedes the relaying: every refusal in the order of the checks, or the session to use.\<close>

definition chat_admit :: "hostenv \<Rightarrow> string \<Rightarrow> string \<Rightarrow> int \<Rightarrow> ChatCompletionRequest option \<Rightarrow> server
    \<Rightarrow> (response + (nat \<times> ChatCompletionRequest)) \<times> server" where
  "chat_admit E machineID keyHash userID body sv =
    (case CanAccessMachine E userID machineID (dbs (sv_coord sv)) of
       Inl e \<Rightarrow> (Inl (writeError 500 ''internal error''), sv)
     | Inr False \<Rightarrow> (Inl (writeError 403 ''access denied''), sv)
     | Inr True \<Rightarrow>
         let (ok, sv1) = rate_gate E keyHash sv in
         if \<not> ok then (Inl (writeError 429 ''rate limit exceeded''), sv1)
         else case body of
           None \<Rightarrow> (Inl (writeError 400 ''invalid request body''), sv1)
         | Some req0 \<Rightarrow>
             if cq_model req0 = [] then (Inl (writeError 400 ''model is required''), sv1)
             else if cq_messages req0 = [] \<or> hd (cq_messages req0) \<noteq> CHR ''['' \<or> cq_messages req0 = ''[]''
             then (Inl (writeError 400 ''messages must be a non-empty array''), sv1)
             else
               let req = req0\<lparr>cq_model := strip_prefix provider_prefixes (cq_model req0)\<rparr>;
                   co = (sv_coord sv1)\<lparr>requests_today := requests_today (sv_coord sv1) + 1\<rparr>;
                   sv2 = sv1\<lparr>sv_coord := co\<rparr>
               in case GetSession machineID (reg co) of
                    None \<Rightarrow> (Inl (writeAPIError 503 ''machine_offline'' ''machine_offline''), sv2)
                  | Some k \<Rightarrow>
                      let s = heap (reg co) ! k in
                      if \<not> ms_backend_ok s
                      then (Inl (writeAPIError 503 ''backend_unavailable'' ''backend_unavailable''), sv2)
                      else if ms_load s \<ge> ms_max s
                      then (Inl (writeAPIError 503 ''machine_busy'' ''machine_busy''), sv2)
                      else if \<not> HasModel machineID (cq_model req) (reg co)
                      then (Inl (writeAPIError 404 ''model_not_found'' ''model_not_found''), sv2)
                      else (Inr (k, req), sv2))"

end
