(* ===== verification/ChatStream.thy ===== *)
theory ChatStream
  imports Chat
begin

text \<open>
  The two ways a chat completion is answered (\<open>handleStreamingCompletion\<close> and
  \<open>handleNonStreamingCompletion\<close> of \<open>internal/coord/api.go\<close>).

  The streaming loop is a function of one event per turn of its \<open>select\<close> to the effects of
  the chosen case, in their order, and the new local state. A timer is the instant at which
  it fires, if it is armed; \<open>event_ready\<close> says which cases the \<open>select\<close> can choose.
  The decoding of raw JSON is the parameter \<open>parse\<close>.
\<close>

section \<open>Chunks\<close>

definition with_index :: "nat \<Rightarrow> json \<Rightarrow> json" where
  "with_index i item = (case as_object item of
       None \<Rightarrow> item
     | Some fs \<Rightarrow> if jfield ''index'' item = None then jput ''index'' (jint (int i)) item else item)"

definition normalizeStreamToolCallDeltas :: "json \<Rightarrow> json" where
  "normalizeStreamToolCallDeltas toolCalls = (case toolCalls of
       JArr arr \<Rightarrow> JArr (map (\<lambda>(i, item). with_index i item) (enumerate 0 arr))
     | _ \<Rightarrow> toolCalls)"

record chat_call =
  cl_rid :: string
  cl_model :: string
  cl_created :: int

definition completion_chunk :: "chat_call \<Rightarrow> (string \<times> json) list \<Rightarrow> json \<Rightarrow> json" where
  "completion_chunk cl delta finish = JObj [
     (''id'', JStr (''chatcmpl-'' @ cl_rid cl)),
     (''object'', JStr ''chat.completion.chunk''),
     (''created'', jint (cl_created cl)),
     (''model'', JStr (cl_model cl)),
     (''choices'', JArr [JObj [(''index'', jint 0), (''delta'', JObj delta), (''finish_reason'', finish)]])]"

definition chunk_delta :: "(string \<Rightarrow> json option) \<Rightarrow> ChunkRelay \<Rightarrow> (string \<times> json) list" where
  "chunk_delta parse cr =
     (if cr_content cr \<noteq> [] then [(''content'', JStr (cr_content cr))] else [])
   @ (if cr_tool_calls cr \<noteq> [] then
        (case parse (cr_tool_calls cr) of
           Some v \<Rightarrow> [(''tool_calls'', normalizeStreamToolCallDeltas v)]
         | None \<Rightarrow> [])
      else [])"

section \<open>The streaming loop\<close>

record stream_loop =
  sl_first :: bool
  sl_tools :: bool
  sl_ttft :: "int option"
  sl_inter :: "int option"

datatype stream_event =
    TotalDone
  | ClientDone
  | TtftFired
  | InterFired
  | FromChannel "ChunkRelay option"

datatype stream_effect = Emit sse | SendCancel | DecLoad

definition stream_init :: "int \<Rightarrow> stream_loop" where
  "stream_init now = \<lparr>sl_first = False, sl_tools = False, sl_ttft = Some (now + TTFTTimeout), sl_inter = None\<rparr>"

text \<open>
  When a case of the \<open>select\<close> is ready at the instant \<open>now\<close> of a request that started at \<open>t0\<close>; \<open>gone\<close>
  says that the client has disconnected, which ends the derived context too. What the channel
  holds is decided by the other goroutines.
\<close>

fun event_ready :: "int \<Rightarrow> int \<Rightarrow> bool \<Rightarrow> stream_loop \<Rightarrow> stream_event \<Rightarrow> bool" where
  "event_ready t0 now gone lp TotalDone \<longleftrightarrow> t0 + TotalRequestTimeout \<le> now \<or> gone"
| "event_ready t0 now gone lp ClientDone \<longleftrightarrow> gone"
| "event_ready t0 now gone lp TtftFired \<longleftrightarrow> (case sl_ttft lp of None \<Rightarrow> False | Some d \<Rightarrow> d \<le> now)"
| "event_ready t0 now gone lp InterFired \<longleftrightarrow> (case sl_inter lp of None \<Rightarrow> False | Some d \<Rightarrow> d \<le> now)"
| "event_ready t0 now gone lp (FromChannel _) \<longleftrightarrow> True"

text \<open>A chunk: the timers, the flags, then the delta, unless it is an empty keepalive.\<close>

definition on_chunk :: "(string \<Rightarrow> json option) \<Rightarrow> chat_call \<Rightarrow> int \<Rightarrow> ChunkRelay \<Rightarrow> stream_loop
    \<Rightarrow> stream_effect list \<times> stream_loop \<times> bool" where
  "on_chunk parse cl now cr lp =
    (let lp1 = lp\<lparr>sl_first := True, sl_ttft := (if sl_first lp then sl_ttft lp else None),
                  sl_inter := Some (now + InterTokenTimeout)\<rparr>;
         lp2 = (if cr_tool_calls cr \<noteq> [] then lp1\<lparr>sl_tools := True\<rparr> else lp1)
     in if \<not> cr_done cr \<and> cr_content cr = [] \<and> cr_tool_calls cr = [] then ([], lp2, True)
        else
          let finish = (if cr_done cr then JStr (if sl_tools lp2 then ''tool_calls'' else ''stop'') else JNull);
              chunk = Emit (SseData (completion_chunk cl (chunk_delta parse cr) finish))
          in if cr_done cr then ([chunk, Emit SseDone, DecLoad], lp2, False)
             else ([chunk], lp2, True))"

fun stream_step :: "(string \<Rightarrow> json option) \<Rightarrow> chat_call \<Rightarrow> int \<Rightarrow> stream_event \<Rightarrow> stream_loop
    \<Rightarrow> stream_effect list \<times> stream_loop \<times> bool" where
  "stream_step parse cl now TotalDone lp =
     ([SendCancel]
      @ (if sl_first lp then [Emit (SseData (completion_chunk cl [] (JStr ''length'')))] else [])
      @ [Emit SseDone, DecLoad], lp, False)"
| "stream_step parse cl now ClientDone lp = ([SendCancel, DecLoad], lp, False)"
| "stream_step parse cl now TtftFired lp =
     ([SendCancel] @ map Emit (writeSSEError ''timeout'' ''timeout waiting for first token'') @ [DecLoad], lp, False)"
| "stream_step parse cl now InterFired lp =
     ([SendCancel] @ map Emit (writeSSEError ''inter_token_timeout'' ''inter-token timeout'') @ [DecLoad], lp, False)"
| "stream_step parse cl now (FromChannel None) lp =
     (map Emit (writeSSEError ''machine_offline'' ''machine_offline'') @ [DecLoad], lp, False)"
| "stream_step parse cl now (FromChannel (Some cr)) lp =
     (if cr_err cr \<noteq> [] then (map Emit (writeSSEError ''provider_error'' (cr_err cr)) @ [DecLoad], lp, False)
      else on_chunk parse cl now cr lp)"

text \<open>The loop over the events of its turns, each with its instant; the flag says it still runs.\<close>

fun stream_loop_run :: "(string \<Rightarrow> json option) \<Rightarrow> chat_call \<Rightarrow> (int \<times> stream_event) list \<Rightarrow> stream_loop
    \<Rightarrow> stream_effect list \<times> stream_loop \<times> bool" where
  "stream_loop_run parse cl [] lp = ([], lp, True)"
| "stream_loop_run parse cl ((now, ev) # evs) lp =
    (case stream_step parse cl now ev lp of
       (effs, lp1, False) \<Rightarrow> (effs, lp1, False)
     | (effs, lp1, True) \<Rightarrow> (case stream_loop_run parse cl evs lp1 of (effs2, lp2, go) \<Rightarrow> (effs @ effs2, lp2, go)))"

section \<open>How a stream ends\<close>

definition stream_ending :: "stream_effect list \<Rightarrow> bool" where
  "stream_ending e \<longleftrightarrow> e = [SendCancel, DecLoad]
     \<or> (\<exists>c \<in> {[], [SendCancel]}. \<exists>j. e = c @ [Emit (SseData j), Emit SseDone, DecLoad])
     \<or> e = [SendCancel, Emit SseDone, DecLoad]"

lemma stream_step_ends:
  assumes "stream_step parse cl now ev lp = (effs, lp1, go)"
  shows "if go then \<exists>ds. effs = map (Emit \<circ> SseData) ds else stream_ending effs"
proof (cases ev)
  case (FromChannel r)
  then show ?thesis
    using assms by (cases r) (auto simp: on_chunk_def Let_def stream_ending_def writeSSEError_def
        intro: exI [of _ "[]"] exI [of _ "[_]"] split: if_splits)
qed (use assms in \<open>auto simp: stream_ending_def writeSSEError_def split: if_splits\<close>)

lemma stream_run_ends:
  "stream_loop_run parse cl evs lp = (effs, lp1, go) \<Longrightarrow>
     \<exists>ds e. effs = map (Emit \<circ> SseData) ds @ e \<and> (if go then e = [] else stream_ending e)"
proof (induction evs arbitrary: lp effs lp1 go)
  case (Cons x evs)
  obtain now ev where x: "x = (now, ev)" by fastforce
  obtain e1 lp2 go1 where s: "stream_step parse cl now ev lp = (e1, lp2, go1)" by (metis prod_cases3)
  show ?case
  proof (cases go1)
    case True
    obtain e2 lp3 go2 where r: "stream_loop_run parse cl evs lp2 = (e2, lp3, go2)" by (metis prod_cases3)
    obtain ds where ds: "e1 = map (Emit \<circ> SseData) ds" using stream_step_ends [OF s] True by auto
    have eq: "effs = e1 @ e2" "go2 = go" using Cons.prems x s True r by simp_all
    from Cons.IH [OF r] obtain ds2 e where "e2 = map (Emit \<circ> SseData) ds2 @ e"
      "if go2 then e = [] else stream_ending e" by blast
    with ds eq show ?thesis by (intro exI [of _ "ds @ ds2"] exI [of _ e]) auto
  next
    case False
    then have "effs = e1" "\<not> go" "stream_ending e1" using Cons.prems x s stream_step_ends [OF s] by auto
    then show ?thesis by (intro exI [of _ "[]"] exI [of _ e1]) simp
  qed
qed simp

section \<open>Time\<close>

text \<open>The loop states that a request started at \<open>t0\<close> can be in, with the instant of the last turn.\<close>

inductive stream_reach :: "(string \<Rightarrow> json option) \<Rightarrow> chat_call \<Rightarrow> int \<Rightarrow> int \<Rightarrow> stream_loop \<Rightarrow> bool"
  for parse cl t0 where
  start: "t0 \<le> t1 \<Longrightarrow> stream_reach parse cl t0 t1 (stream_init t1)"
| turn: "stream_reach parse cl t0 now lp \<Longrightarrow> now \<le> now' \<Longrightarrow> event_ready t0 now' gone lp ev \<Longrightarrow>
    stream_step parse cl now' ev lp = (effs, lp', True) \<Longrightarrow> stream_reach parse cl t0 now' lp'"

lemma stream_step_goes:
  assumes "stream_step parse cl now ev lp = (effs, lp1, True)"
  shows "\<exists>cr. ev = FromChannel (Some cr) \<and> cr_err cr = [] \<and> \<not> cr_done cr
    \<and> lp1 = lp\<lparr>sl_first := True, sl_tools := sl_tools lp \<or> cr_tool_calls cr \<noteq> [],
              sl_ttft := (if sl_first lp then sl_ttft lp else None), sl_inter := Some (now + InterTokenTimeout)\<rparr>"
proof (cases ev)
  case (FromChannel r)
  then show ?thesis
    using assms by (cases r) (auto simp: on_chunk_def Let_def split: if_splits)
qed (use assms in auto)

lemma stream_reach_timers:
  "stream_reach parse cl t0 now lp \<Longrightarrow> t0 \<le> now
     \<and> (case sl_inter lp of None \<Rightarrow> \<not> sl_first lp | Some d \<Rightarrow> sl_first lp \<and> t0 + InterTokenTimeout \<le> d)
     \<and> (if sl_first lp then sl_ttft lp = None
        else (case sl_ttft lp of None \<Rightarrow> False | Some d \<Rightarrow> t0 + TTFTTimeout \<le> d))"
proof (induction rule: stream_reach.induct)
  case (turn now lp now' gone ev effs lp')
  then show ?case using stream_step_goes [OF turn.hyps(4)] by (auto split: if_splits option.splits)
qed (simp add: stream_init_def)

section \<open>What a stream says\<close>

text \<open>The text and the finish reason that a client reads from an event.\<close>

fun first_choice :: "sse \<Rightarrow> json option" where
  "first_choice (SseData j) = (case jfield ''choices'' j of Some (JArr (c # _)) \<Rightarrow> Some c | _ \<Rightarrow> None)"
| "first_choice SseDone = None"

definition sse_content :: "sse \<Rightarrow> string" where
  "sse_content x = (case first_choice x of None \<Rightarrow> []
     | Some c \<Rightarrow> (case jfield ''delta'' c of None \<Rightarrow> []
         | Some d \<Rightarrow> (case jfield ''content'' d of Some (JStr s) \<Rightarrow> s | _ \<Rightarrow> [])))"

definition sse_finish :: "sse \<Rightarrow> string option" where
  "sse_finish x = (case first_choice x of None \<Rightarrow> None
     | Some c \<Rightarrow> (case jfield ''finish_reason'' c of Some (JStr s) \<Rightarrow> Some s | _ \<Rightarrow> None))"

fun effect_content :: "stream_effect \<Rightarrow> string" where
  "effect_content (Emit x) = sse_content x"
| "effect_content _ = []"

fun effect_finish :: "stream_effect \<Rightarrow> string option" where
  "effect_finish (Emit x) = sse_finish x"
| "effect_finish _ = None"

definition stream_text :: "stream_effect list \<Rightarrow> string" where
  "stream_text effs = concat (map effect_content effs)"

definition stream_finish :: "stream_effect list \<Rightarrow> string list" where
  "stream_finish effs = List.map_filter effect_finish effs"

lemma stream_says_simps [simp]:
  "stream_text [] = []" "stream_text (e # es) = effect_content e @ stream_text es"
  "stream_text (es @ es') = stream_text es @ stream_text es'"
  "stream_finish [] = []" "stream_finish (e # es) = (case effect_finish e of None \<Rightarrow> [] | Some f \<Rightarrow> [f]) @ stream_finish es"
  "stream_finish (es @ es') = stream_finish es @ stream_finish es'"
  "sse_content SseDone = []" "sse_finish SseDone = None"
  by (simp_all add: stream_text_def stream_finish_def List.map_filter_def sse_content_def sse_finish_def split: option.split)

lemma chunk_delta_content [simp]:
  "map_of (chunk_delta parse cr) ''content'' = (if cr_content cr = [] then None else Some (JStr (cr_content cr)))"
proof -
  define ts where "ts = (if cr_tool_calls cr \<noteq> [] then (case parse (cr_tool_calls cr) of
      Some v \<Rightarrow> [(''tool_calls'', normalizeStreamToolCallDeltas v)] | None \<Rightarrow> []) else [])"
  have "map_of ts ''content'' = None"
    unfolding ts_def by (cases "parse (cr_tool_calls cr)"; cases "cr_tool_calls cr = []") simp_all
  then show ?thesis
    unfolding chunk_delta_def ts_def [symmetric] by (simp add: map_add_def)
qed

lemma first_choice_chunk [simp]:
  "first_choice (SseData (completion_chunk cl d f))
     = Some (JObj [(''index'', jint 0), (''delta'', JObj d), (''finish_reason'', f)])"
  by (simp add: completion_chunk_def jfield_def)

lemma completion_chunk_says [simp]:
  "sse_content (SseData (completion_chunk cl (chunk_delta parse cr) f)) = cr_content cr"
  "sse_finish (SseData (completion_chunk cl d (JStr s))) = Some s"
  "sse_finish (SseData (completion_chunk cl d JNull)) = None"
  by (simp_all add: sse_content_def sse_finish_def jfield_def del: first_choice.simps)

abbreviation chunk_events :: "(int \<times> ChunkRelay) list \<Rightarrow> (int \<times> stream_event) list" where
  "chunk_events \<equiv> map (\<lambda>(now, cr). (now, FromChannel (Some cr)))"

lemma on_chunk_says:
  assumes "\<not> cr_done cr"
  shows "\<exists>effs lp1. on_chunk parse cl now cr lp = (effs, lp1, True) \<and> stream_text effs = cr_content cr
    \<and> stream_finish effs = [] \<and> sl_tools lp1 = (sl_tools lp \<or> cr_tool_calls cr \<noteq> [])"
  using assms by (cases "cr_content cr = [] \<and> cr_tool_calls cr = []") (auto simp: on_chunk_def Let_def)

lemma stream_run_says:
  assumes "list_all (\<lambda>(now, cr). \<not> cr_done cr \<and> cr_err cr = []) crs" and "cr_done d" "cr_err d = []"
  shows "\<exists>effs lp1. stream_loop_run parse cl (chunk_events (crs @ [(now, d)])) lp = (effs, lp1, False)
    \<and> stream_text effs = concat (map (\<lambda>(_, cr). cr_content cr) (crs @ [(now, d)]))
    \<and> stream_finish effs =
        [if sl_tools lp \<or> list_ex (\<lambda>(_, cr). cr_tool_calls cr \<noteq> []) (crs @ [(now, d)]) then ''tool_calls'' else ''stop'']"
  using assms(1)
proof (induction crs arbitrary: lp)
  case Nil
  then show ?case using assms(2,3) by (simp add: on_chunk_def Let_def)
next
  case (Cons x crs)
  obtain t cr where x: "x = (t, cr)" by fastforce
  have cr: "\<not> cr_done cr" "cr_err cr = []" using Cons.prems x by simp_all
  obtain e1 lp1 where s: "stream_step parse cl t (FromChannel (Some cr)) lp = (e1, lp1, True)"
      "stream_text e1 = cr_content cr" "stream_finish e1 = []" "sl_tools lp1 = (sl_tools lp \<or> cr_tool_calls cr \<noteq> [])"
    using on_chunk_says [OF cr(1), of parse cl t lp] cr(2) by auto
  obtain effs lp2 where "stream_loop_run parse cl (chunk_events (crs @ [(now, d)])) lp1 = (effs, lp2, False)"
    "stream_text effs = concat (map (\<lambda>(_, cr). cr_content cr) (crs @ [(now, d)]))"
    "stream_finish effs =
        [if sl_tools lp1 \<or> list_ex (\<lambda>(_, cr). cr_tool_calls cr \<noteq> []) (crs @ [(now, d)]) then ''tool_calls'' else ''stop'']"
    using Cons.IH [of lp1] Cons.prems by auto
  with s x show ?case by simp
qed


definition demo_call :: chat_call where
  "demo_call = \<lparr>cl_rid = ''r'', cl_model = ''m'', cl_created = 0\<rparr>"

definition demo_chunk :: "string \<Rightarrow> bool \<Rightarrow> ChunkRelay" where
  "demo_chunk s d = \<lparr>cr_content = s, cr_tool_calls = [], cr_done = d, cr_err = [], cr_tokens = 0\<rparr>"


text \<open>
  The timers of a stream. In every state that the loop of a request started at \<open>t0\<close> can reach,
  the first-token timer can fire only before the first chunk and never before its 120 seconds; and the
  inter-token timer can fire only when the total timeout has expired too: both are 300 seconds,
  and it is armed later. A stall between tokens is therefore never cut short by it.
\<close>

theorem inter_token_timer_idle:
  assumes "stream_reach parse cl t0 now lp" and "now \<le> now'"
  shows "(event_ready t0 now' gone lp TtftFired
      \<longleftrightarrow> \<not> sl_first lp \<and> (\<exists>d. sl_ttft lp = Some d \<and> t0 + TTFTTimeout \<le> d \<and> d \<le> now'))
    \<and> (event_ready t0 now' gone lp InterFired
      \<longleftrightarrow> sl_first lp \<and> (\<exists>d. sl_inter lp = Some d \<and> t0 + TotalRequestTimeout \<le> d \<and> d \<le> now'))"
  using stream_reach_timers [OF assms(1)] by (auto simp: timeout_defs split: option.splits if_splits)

theorem inter_token_timer_idle_witness:
  "(event_ready 0 (301 * second) False
        (fst (snd (stream_step (\<lambda>_. None) demo_call second (FromChannel (Some (demo_chunk ''a'' False))) (stream_init 0)))) TtftFired
      \<longleftrightarrow> False)
    \<and> (event_ready 0 (301 * second) False
        (fst (snd (stream_step (\<lambda>_. None) demo_call second (FromChannel (Some (demo_chunk ''a'' False))) (stream_init 0)))) InterFired
      \<longleftrightarrow> 0 + TotalRequestTimeout \<le> 301 * second)"
proof -
  obtain effs lp where s: "stream_step (\<lambda>_. None) demo_call second (FromChannel (Some (demo_chunk ''a'' False))) (stream_init 0)
      = (effs, lp, True)" and lp: "sl_first lp" "sl_inter lp = Some (second + InterTokenTimeout)"
    by (simp add: on_chunk_def demo_chunk_def Let_def)
  have "stream_reach (\<lambda>_. None) demo_call 0 0 (stream_init 0)" by (rule stream_reach.start) simp
  from stream_reach.turn [OF this _ _ s, of False]
  have r: "stream_reach (\<lambda>_. None) demo_call 0 second lp" by (simp add: second_def)
  have le: "second \<le> 301 * second" by (simp add: second_def)
  from inter_token_timer_idle [OF r le, of False] lp show ?thesis
    unfolding s by (simp add: timeout_defs)
qed

text \<open>
  C33: A stream delivers the provider's text. If the provider sends chunks without an error and the
  last is marked done, the loop ends, the text of the events is the concatenation of the chunks'
  contents, empty keepalives included, and exactly one event has a finish reason: \<open>tool_calls\<close> when some
  chunk had tool calls, \<open>stop\<close> otherwise.
\<close>

theorem stream_delivers:
  assumes "list_all (\<lambda>(now, cr). \<not> cr_done cr \<and> cr_err cr = []) crs" and "cr_done d" "cr_err d = []"
  shows "\<exists>effs lp1. stream_loop_run parse cl (chunk_events (crs @ [(now, d)])) (stream_init t0) = (effs, lp1, False)
    \<and> stream_text effs = concat (map (\<lambda>(_, cr). cr_content cr) (crs @ [(now, d)]))
    \<and> stream_finish effs =
        [if list_ex (\<lambda>(_, cr). cr_tool_calls cr \<noteq> []) (crs @ [(now, d)]) then ''tool_calls'' else ''stop'']"
  using stream_run_says [OF assms, of parse cl now "stream_init t0"] by (simp add: stream_init_def)

theorem stream_delivers_witness:
  "\<exists>effs lp1. stream_loop_run (\<lambda>_. None) demo_call (chunk_events ([(1, demo_chunk ''a'' False)] @ [(2, demo_chunk ''b'' True)]))
        (stream_init 0) = (effs, lp1, False)
    \<and> stream_text effs = concat (map (\<lambda>(_, cr). cr_content cr) ([(1::int, demo_chunk ''a'' False)] @ [(2, demo_chunk ''b'' True)]))
    \<and> stream_finish effs = [if list_ex (\<lambda>(_, cr). cr_tool_calls cr \<noteq> [])
          ([(1::int, demo_chunk ''a'' False)] @ [(2, demo_chunk ''b'' True)]) then ''tool_calls'' else ''stop'']"
  by (rule stream_delivers) (simp_all add: demo_chunk_def)

end
