(* ===== verification/AgentJsonProps.thy ===== *)
theory AgentJsonProps
  imports AgentJson ChatStream
begin

text \<open>
  What the rewriting guarantees: the shape of what the backend receives and of what the coordinator
  gets back, that nothing else of a message changes, and what happens to a streamed tool call on its way
  through agent and coordinator.
\<close>

section \<open>Messages\<close>

lemma flatten_string: "\<exists>s. flattenMessageContent marshal v = JStr s"
  by (cases v) simp_all

lemma fix_args_other: "k \<noteq> ''arguments'' \<Longrightarrow> jfield k (fix_args parse fn) = jfield k fn"
  by (simp add: fix_args_def)

lemma fix_call_other: "k \<noteq> ''function'' \<Longrightarrow> jfield k (fix_call parse tc) = jfield k tc"
  by (simp add: fix_call_def split: option.split json.split)

lemma normalize_calls_other:
  "k \<noteq> ''tool_calls'' \<Longrightarrow> k \<noteq> ''function_call''
    \<Longrightarrow> jfield k (normalizeToolCallArgumentsInMessage parse m) = jfield k m"
  by (simp add: normalizeToolCallArgumentsInMessage_def Let_def split: option.split json.split)

lemma ensure_object:
  "parse (TrimSpace s) = Some (JObj fs) \<Longrightarrow> TrimSpace s \<noteq> [] \<Longrightarrow> ensureArgsObject parse (JStr s) = JObj fs"
  by (simp add: Let_def)

lemma ensure_not_null: "ensureArgsObject parse a \<noteq> JNull"
  by (cases a) (auto simp: Let_def split: option.split)

text \<open>A call with a function object has arguments, and they are not \<open>null\<close>.\<close>

definition call_ok :: "json \<Rightarrow> bool" where
  "call_ok tc \<longleftrightarrow> (case jfield ''function'' tc of
       Some (JObj fn) \<Rightarrow> (case map_of fn ''arguments'' of None \<Rightarrow> False | Some a \<Rightarrow> a \<noteq> JNull)
     | _ \<Rightarrow> True)"

lemma fix_args_object: "\<exists>fn'. fix_args parse (JObj fn) = JObj fn' \<and> (\<exists>a. map_of fn' ''arguments'' = Some a \<and> a \<noteq> JNull)"
  using ensure_not_null by (auto simp: fix_args_def jput_def)

lemma fix_call_ok: "call_ok (fix_call parse tc)"
proof (cases "\<exists>fn. jfield ''function'' tc = Some (JObj fn)")
  case True
  then obtain fn fs where "jfield ''function'' tc = Some (JObj fn)" "tc = JObj fs"
    by (auto simp: jfield_def split: json.splits)
  with fix_args_object [of parse fn] show ?thesis by (auto simp: fix_call_def call_ok_def)
next
  case False
  then have "fix_call parse tc = tc" by (auto simp: fix_call_def split: option.split json.split)
  with False show ?thesis by (auto simp: call_ok_def split: option.split json.split)
qed

text \<open>What the backend is promised about a message, given the message \<open>m\<close> of the client.\<close>

definition backend_message :: "(string \<times> json) list \<Rightarrow> json \<Rightarrow> bool" where
  "backend_message m out \<longleftrightarrow>
     (\<exists>s. jfield ''content'' out = Some (JStr s) \<and> (\<forall>t. map_of m ''content'' = Some (JStr t) \<longrightarrow> s = t))
   \<and> (\<forall>k. k \<notin> {''content'', ''tool_calls'', ''function_call''} \<longrightarrow> jfield k out = map_of m k)
   \<and> (case jfield ''tool_calls'' out of Some (JArr tcs) \<Rightarrow> list_all call_ok tcs | _ \<Rightarrow> True)"

definition with_content :: "(json \<Rightarrow> string) \<Rightarrow> (string \<times> json) list \<Rightarrow> json" where
  "with_content marshal m = jput ''content''
     (case map_of m ''content'' of Some c \<Rightarrow> flattenMessageContent marshal c | None \<Rightarrow> JStr []) (JObj m)"

lemma normalize_message_eq:
  "normalize_message parse marshal m = normalizeToolCallArgumentsInMessage parse (with_content marshal m)"
proof (cases "map_of m ''content''")
  case (Some c)
  obtain s where "flattenMessageContent marshal c = JStr s" using flatten_string by blast
  with Some show ?thesis by (simp add: normalize_message_def with_content_def)
qed (simp add: normalize_message_def with_content_def jfield_def)

lemma calls_fixed:
  "case jfield ''tool_calls'' (normalizeToolCallArgumentsInMessage parse (JObj fs)) of
     Some (JArr tcs) \<Rightarrow> list_all call_ok tcs | _ \<Rightarrow> True"
proof -
  define m1 where "m1 = (case jfield ''tool_calls'' (JObj fs) of
     Some (JArr tcs) \<Rightarrow> jput ''tool_calls'' (JArr (map (fix_call parse) tcs)) (JObj fs) | _ \<Rightarrow> JObj fs)"
  have "jfield ''tool_calls'' (normalizeToolCallArgumentsInMessage parse (JObj fs)) = jfield ''tool_calls'' m1"
    by (simp add: normalizeToolCallArgumentsInMessage_def m1_def [symmetric] Let_def split: option.split json.split)
  moreover have "case jfield ''tool_calls'' m1 of Some (JArr tcs) \<Rightarrow> list_all call_ok tcs | _ \<Rightarrow> True"
  proof (cases "\<exists>tcs. jfield ''tool_calls'' (JObj fs) = Some (JArr tcs)")
    case True
    then show ?thesis by (auto simp: m1_def list_all_iff fix_call_ok)
  next
    case False
    then show ?thesis by (auto simp: m1_def split: option.split json.split)
  qed
  ultimately show ?thesis by simp
qed

lemma normalize_message_ok: "backend_message m (normalize_message parse marshal m)"
proof -
  obtain fs where fs: "with_content marshal m = JObj fs" unfolding with_content_def using jput_object by blast
  have other: "k \<notin> {''content'', ''tool_calls'', ''function_call''} \<Longrightarrow>
      jfield k (normalize_message parse marshal m) = map_of m k" for k
    by (simp add: normalize_message_eq normalize_calls_other with_content_def) (simp add: jfield_def)
  have "jfield ''content'' (normalize_message parse marshal m)
      = Some (case map_of m ''content'' of Some c \<Rightarrow> flattenMessageContent marshal c | None \<Rightarrow> JStr [])"
    by (simp add: normalize_message_eq normalize_calls_other with_content_def)
  then have "\<exists>s. jfield ''content'' (normalize_message parse marshal m) = Some (JStr s)
      \<and> (\<forall>t. map_of m ''content'' = Some (JStr t) \<longrightarrow> s = t)"
    using flatten_string [of marshal] by (cases "map_of m ''content''") (auto, metis flattenMessageContent.simps(1) json.inject(3))
  then show ?thesis
    unfolding backend_message_def using other calls_fixed [of parse fs]
    by (simp add: normalize_message_eq fs)
qed


definition demo_parse :: "string \<Rightarrow> json option" where
  "demo_parse s =
    (if s = ''M'' then Some (JArr [JObj [(''role'', JStr ''user''), (''content'', JArr [JObj [(''type'', JStr ''text''), (''text'', JStr ''hi'')]])]])
     else if s = ''T'' then Some (JArr [JObj [(''index'', jint 1), (''function'', JObj [(''name'', JStr ''f'')])]])
     else if s = ''O'' then Some (JObj [(''temperature'', JNum 1)])
     else if s = ''D'' then Some (JObj [(''message'', JObj [(''content'', JStr ''hi'')]), (''done'', JBool True)])
     else if s = ''C'' then Some (JArr [JObj [(''id'', JStr ''call_0''), (''type'', JStr ''function''),
       (''function'', JObj [(''name'', JStr ''f''), (''arguments'', JStr ''{}'')])]])
     else None)"


section \<open>Tool calls\<close>

text \<open>The shape of a tool call in the OpenAI format; its arguments are a plain value, no object, array or \<open>null\<close>.\<close>

fun plain :: "json \<Rightarrow> bool" where
  "plain (JBool _) = True"
| "plain (JNum _) = True"
| "plain (JStr _) = True"
| "plain _ = False"

definition openai_call :: "json \<Rightarrow> bool" where
  "openai_call c \<longleftrightarrow>
     (\<exists>i fn name a. c = JObj [(''id'', JStr i), (''type'', JStr ''function''), (''function'', JObj fn)] \<and> i \<noteq> []
        \<and> fn = [(''name'', JStr name), (''arguments'', a)] \<and> plain a)"

lemma call_args_plain [simp]: "plain (call_args marshal a)"
  by (simp add: call_args_def split: option.split json.split)

lemma tool_call_shape: "c \<in> set (tool_call marshal i tc) \<Longrightarrow> openai_call c"
  by (auto simp: tool_call_def openai_call_def Let_def split: option.splits json.splits)

lemma tool_call_no_index: "c \<in> set (tool_call marshal i tc) \<Longrightarrow> jfield ''index'' c = None"
  by (auto simp: tool_call_def jfield_def Let_def split: option.splits json.splits)

lemma tool_calls_from: "c \<in> set (tool_calls marshal incoming) \<Longrightarrow> \<exists>i tc. c \<in> set (tool_call marshal i tc)"
  by (auto simp: tool_calls_def)


lemma with_index_new: "jfield ''index'' c = None \<Longrightarrow> as_object c \<noteq> None \<Longrightarrow> jfield ''index'' (with_index i c) = Some (jint (int i))"
  by (cases c) (auto simp: with_index_def)

text \<open>
  The index of a streamed tool call is lost. OpenAI backends stream parallel calls as deltas that carry
  the index of the call they continue. The agent drops it and the coordinator numbers the calls of each
  delta from 0, so a delta with the one call of index \<open>n\<close> reaches the client as a delta of call 0; and when it has
  no arguments yet, the text \<open>{}\<close> is put in front of the fragments that follow.
\<close>

theorem streamed_call_index_lost:
  assumes "parse raw = Some (JArr [JObj tc])" and "raw \<noteq> ''null''" "raw \<noteq> []"
    and "map_of tc ''index'' = Some (jint n)" and "map_of tc ''function'' = Some (JObj fn)"
    and "parse (normalizeToolCalls parse marshal raw) = Some (JArr (tool_calls marshal [tc]))"
    and "normalizeToolCalls parse marshal raw \<noteq> []"
  shows "\<exists>c f. map_of (chunk_delta parse \<lparr>cr_content = [], cr_tool_calls = normalizeToolCalls parse marshal raw,
        cr_done = False, cr_err = [], cr_tokens = 0\<rparr>) ''tool_calls'' = Some (JArr [c])
    \<and> jfield ''index'' c = Some (jint 0) \<and> jfield ''function'' c = Some (JObj f)
    \<and> map_of f ''arguments'' = Some (call_args marshal (map_of fn ''arguments''))"
proof -
  obtain c where c: "tool_call marshal 0 tc = [c]" using assms(5) by (simp add: tool_call_def Let_def)
  have i: "jfield ''index'' c = None" using tool_call_no_index [of c marshal 0 tc] c by simp
  obtain f where f: "jfield ''function'' c = Some (JObj f)" "map_of f ''arguments'' = Some (call_args marshal (map_of fn ''arguments''))"
    using c assms(5) by (auto simp: tool_call_def jfield_def Let_def)
  have o1: "as_object c \<noteq> None" using f(1) by (cases c) (simp_all add: jfield_def)
  have d: "chunk_delta parse \<lparr>cr_content = [], cr_tool_calls = normalizeToolCalls parse marshal raw,
        cr_done = False, cr_err = [], cr_tokens = 0\<rparr> = [(''tool_calls'', JArr [with_index 0 c])]"
    using assms(6,7) c by (simp add: chunk_delta_def tool_calls_def normalizeStreamToolCallDeltas_def)
  have "jfield ''function'' (with_index 0 c) = Some (JObj f)"
    using f(1) by (simp add: with_index_def split: option.split)
  then show ?thesis using d with_index_new [OF i o1, of 0] f(2) by simp
qed

theorem streamed_call_index_lost_witness:
  "\<exists>c f. map_of (chunk_delta demo_parse \<lparr>cr_content = [], cr_tool_calls = normalizeToolCalls demo_parse (\<lambda>_. ''C'') ''T'',
        cr_done = False, cr_err = [], cr_tokens = 0\<rparr>) ''tool_calls'' = Some (JArr [c])
    \<and> jfield ''index'' c = Some (jint 0) \<and> jfield ''function'' c = Some (JObj f)
    \<and> map_of f ''arguments'' = Some (call_args (\<lambda>_. ''C'') None)"
proof -
  let ?tc = "[(''index'', jint 1), (''function'', JObj [(''name'', JStr ''f'')])]"
  have a: "Itoa 0 = ''0''" by (simp add: Itoa_def nat_digits.simps digit_def char_of_def bit_0)
  have o1: "tool_calls (\<lambda>_. ''C'') [?tc] = [JObj [(''id'', JStr ''call_0''), (''type'', JStr ''function''),
       (''function'', JObj [(''name'', JStr ''f''), (''arguments'', JStr ''{}'')])]]"
    by (simp add: tool_calls_def tool_call_def str_of_def call_args_def a)
  have n: "normalizeToolCalls demo_parse (\<lambda>_. ''C'') ''T'' = ''C''"
    by (simp add: normalizeToolCalls_def o1 Let_def) (simp add: demo_parse_def o1)
  show ?thesis
    using streamed_call_index_lost [of demo_parse "''T''" ?tc 1 "[(''name'', JStr ''f'')]" "\<lambda>_. ''C''"]
    unfolding n o1 by (simp add: demo_parse_def)
qed

end
