(* ===== verification/ChatServe.thy ===== *)
theory ChatServe
  imports ChatStream
begin

text \<open>
  The chat handlers on the coordinator's state: opening a stream, its loop between the steps of
  other goroutines, the non-streaming attempts, and the whole handler. What other goroutines do
  while a handler waits is a list of coordinator operations. Two facts about the load counter:
  it is balanced as long as the machine's session stays, and a reconnection breaks the balance.
\<close>

section \<open>Opening\<close>

text \<open>The id of a request, from the 12 bytes that \<open>rand.Read\<close> left in the buffer.\<close>

definition generateRequestID :: "string \<Rightarrow> string" where
  "generateRequestID b = hex_encode b"

definition request_msg :: "string \<Rightarrow> bool \<Rightarrow> (json \<Rightarrow> string) \<Rightarrow> ChatCompletionRequest \<Rightarrow> RequestMsg" where
  "request_msg rid stream marshal req = \<lparr>rq_request_id = rid, rq_model = cq_model req, rq_messages = cq_messages req,
     rq_stream = stream, rq_tools = cq_tools req, rq_tool_choice = cq_tool_choice req,
     rq_options = (case buildOptions req of None \<Rightarrow> [] | Some o1 \<Rightarrow> marshal o1)\<rparr>"

text \<open>The beginning of \<open>handleStreamingCompletion\<close>: the channel to wait on, or the refusal that was streamed.\<close>

definition open_stream :: "(json \<Rightarrow> string) \<Rightarrow> ChatCompletionRequest \<Rightarrow> string \<Rightarrow> nat \<Rightarrow> bool \<Rightarrow> coord
    \<Rightarrow> ((sse list + nat) \<times> coord) option" where
  "open_stream marshal req rid k sends st =
     do {
       (c, r1) \<leftarrow> open_request k rid 32 (reg st);
       let mid = ms_machine (heap r1 ! k);
       (case IncrementLoad mid r1 of
          (False, r2) \<Rightarrow> Some (Inl (writeSSEError ''machine_busy'' ''machine_busy''),
                              st\<lparr>reg := UnregisterChunkChannel k rid r2\<rparr>)
        | (True, r2) \<Rightarrow>
            if \<not> sends
            then Some (Inl (writeSSEError ''machine_offline'' ''machine_offline''),
                       st\<lparr>reg := UnregisterChunkChannel k rid (DecrementLoad mid r2)\<rparr>)
            else Some (Inr c, SendWS k (CRequest (request_msg rid True marshal req)) (st\<lparr>reg := r2\<rparr>)))
     }"

section \<open>The streaming loop on the coordinator\<close>

definition run_ops :: "coord_op list \<Rightarrow> coord \<Rightarrow> coord option" where
  "run_ops ops st = fold (\<lambda>op t. t \<bind> coord_step op) ops (Some st)"

fun apply_effect :: "nat \<Rightarrow> string \<Rightarrow> stream_effect \<Rightarrow> coord \<Rightarrow> coord" where
  "apply_effect k rid (Emit x) st = st"
| "apply_effect k rid SendCancel st = SendWS k (CCancel rid) st"
| "apply_effect k rid DecLoad st = st\<lparr>reg := DecrementLoad (ms_machine (heap (reg st) ! k)) (reg st)\<rparr>"

fun emitted :: "stream_effect list \<Rightarrow> sse list" where
  "emitted [] = []"
| "emitted (Emit x # es) = x # emitted es"
| "emitted (_ # es) = emitted es"

datatype select_case = CaseTotal | CaseClient | CaseTtft | CaseInter | CaseRecv

text \<open>The event of the chosen case; no event when the channel has nothing and is open.\<close>

fun pick :: "nat \<Rightarrow> select_case \<Rightarrow> coord \<Rightarrow> stream_event option \<times> coord" where
  "pick c CaseTotal st = (Some TotalDone, st)"
| "pick c CaseClient st = (Some ClientDone, st)"
| "pick c CaseTtft st = (Some TtftFired, st)"
| "pick c CaseInter st = (Some InterFired, st)"
| "pick c CaseRecv st =
    (case recv c (reg st) of
       (Got cr, r) \<Rightarrow> (Some (FromChannel (Some cr)), st\<lparr>reg := r\<rparr>)
     | (Closed, r) \<Rightarrow> (Some (FromChannel None), st\<lparr>reg := r\<rparr>)
     | (Blocked, r) \<Rightarrow> (None, st))"

type_synonym turn = "coord_op list \<times> int \<times> select_case"

text \<open>
  Each turn: what the others do first, the instant, the case. The result has the events written, whether
  the handler still runs, and the state; the deferred removal of the channel is at the end.
\<close>

fun run_stream :: "(string \<Rightarrow> json option) \<Rightarrow> chat_call \<Rightarrow> nat \<Rightarrow> nat \<Rightarrow> turn list \<Rightarrow> stream_loop \<Rightarrow> coord
    \<Rightarrow> (sse list \<times> bool \<times> coord) option" where
  "run_stream parse cl k c [] lp st = Some ([], True, st)"
| "run_stream parse cl k c ((ops, now, cs) # turns) lp st =
     do {
       st1 \<leftarrow> run_ops ops st;
       (case pick c cs st1 of
          (None, st2) \<Rightarrow> run_stream parse cl k c turns lp st2
        | (Some ev, st2) \<Rightarrow>
            (case stream_step parse cl now ev lp of (effs, lp1, go) \<Rightarrow>
               let st3 = fold (apply_effect k (cl_rid cl)) effs st2 in
               if go then do { (out, b, st4) \<leftarrow> run_stream parse cl k c turns lp1 st3; Some (emitted effs @ out, b, st4) }
               else Some (emitted effs, False, st3\<lparr>reg := UnregisterChunkChannel k (cl_rid cl) (reg st3)\<rparr>)))
     }"

definition handleStreamingCompletion :: "(string \<Rightarrow> json option) \<Rightarrow> (json \<Rightarrow> string) \<Rightarrow> chat_call
    \<Rightarrow> ChatCompletionRequest \<Rightarrow> nat \<Rightarrow> bool \<Rightarrow> int \<Rightarrow> turn list \<Rightarrow> coord \<Rightarrow> (sse list \<times> bool \<times> coord) option" where
  "handleStreamingCompletion parse marshal cl req k sends t1 turns st =
     do {
       (res, st1) \<leftarrow> open_stream marshal req (cl_rid cl) k sends st;
       (case res of
          Inl out \<Rightarrow> Some (out, False, st1)
        | Inr c \<Rightarrow> run_stream parse cl k c turns (stream_init t1) st1)
     }"

section \<open>The non-streaming attempts\<close>

text \<open>What the world does during an attempt: the send's success, the others' steps, whether the wait timed out.\<close>

record attempt =
  at_rid :: string
  at_sends :: bool
  at_ops :: "coord_op list"
  at_timeout :: bool

definition completion_result :: "(string \<Rightarrow> json option) \<Rightarrow> ChunkRelay \<Rightarrow> (string \<times> json) list" where
  "completion_result parse cr =
    (let tc = (if cr_tool_calls cr \<noteq> [] then parse (cr_tool_calls cr) else None);
         message = [(''role'', JStr ''assistant''), (''content'', JStr (cr_content cr))]
           @ (case tc of None \<Rightarrow> [] | Some v \<Rightarrow> [(''tool_calls'', v)]);
         finish = (case tc of None \<Rightarrow> ''stop'' | Some v \<Rightarrow> ''tool_calls'')
     in [(''choices'', JArr [JObj [(''index'', jint 0), (''message'', JObj message), (''finish_reason'', JStr finish)]]),
         (''usage'', JObj [(''prompt_tokens'', jint 0), (''completion_tokens'', jint (cr_tokens cr)),
            (''total_tokens'', jint (cr_tokens cr))])])"

definition sendNonStreamingRequest :: "(string \<Rightarrow> json option) \<Rightarrow> (json \<Rightarrow> string) \<Rightarrow> ChatCompletionRequest
    \<Rightarrow> nat \<Rightarrow> attempt \<Rightarrow> coord \<Rightarrow> ((string + (string \<times> json) list) \<times> coord) option" where
  "sendNonStreamingRequest parse marshal req k a st =
    (let mid = ms_machine (heap (reg st) ! k);
         finish = (\<lambda>st. st\<lparr>reg := DecrementLoad mid (UnregisterChunkChannel k (at_rid a) (reg st))\<rparr>) in
     case IncrementLoad mid (reg st) of
       (False, r1) \<Rightarrow> Some (Inl ''machine_busy'', st\<lparr>reg := r1\<rparr>)
     | (True, r1) \<Rightarrow>
         do {
           (c, r2) \<leftarrow> open_request k (at_rid a) 1 r1;
           if \<not> at_sends a then Some (Inl ''send request'', finish (st\<lparr>reg := r2\<rparr>))
           else do {
             st1 \<leftarrow> run_ops (at_ops a) (SendWS k (CRequest (request_msg (at_rid a) False marshal req)) (st\<lparr>reg := r2\<rparr>));
             (case (if at_timeout a then (Blocked, reg st1) else recv c (reg st1)) of
                (Blocked, r3) \<Rightarrow> Some (Inl ''timeout'', finish (SendWS k (CCancel (at_rid a)) st1))
              | (Closed, r3) \<Rightarrow> Some (Inl ''machine_offline'', finish (st1\<lparr>reg := r3\<rparr>))
              | (Got cr, r3) \<Rightarrow>
                  Some (if cr_err cr \<noteq> [] then Inl (''provider error: '' @ cr_err cr)
                        else Inr (completion_result parse cr), finish (st1\<lparr>reg := r3\<rparr>)))
           }
         })"

text \<open>The session for a retry, looked up again.\<close>

definition retry_session :: "string \<Rightarrow> registry \<Rightarrow> nat option" where
  "retry_session mid r =
    (case GetSession mid r of
       None \<Rightarrow> None
     | Some k \<Rightarrow> if \<not> ms_backend_ok (heap r ! k) then None
                 else if ms_load (heap r ! k) \<ge> ms_max (heap r ! k) then None else Some k)"

fun nonstream_attempts :: "(string \<Rightarrow> json option) \<Rightarrow> (json \<Rightarrow> string) \<Rightarrow> ChatCompletionRequest \<Rightarrow> string \<Rightarrow> int
    \<Rightarrow> (nat \<Rightarrow> attempt) \<Rightarrow> nat \<Rightarrow> nat \<Rightarrow> nat \<Rightarrow> coord \<Rightarrow> (response \<times> coord) option" where
  "nonstream_attempts parse marshal req mid now as 0 i k st =
     Some (writeAPIError 502 ''machine_failed'' ''machine_failed'', st)"
| "nonstream_attempts parse marshal req mid now as (Suc n) i k st =
    (case (if i > 0 then retry_session mid (reg st) else Some k) of
       None \<Rightarrow> Some (writeAPIError 502 ''machine_failed'' ''machine_failed'', st)
     | Some k' \<Rightarrow>
         do {
           (res, st1) \<leftarrow> sendNonStreamingRequest parse marshal req k' (as i) st;
           (case res of
              Inr result \<Rightarrow> Some (JsonBody 200 (JObj ([(''id'', JStr (''chatcmpl-'' @ at_rid (as i))),
                  (''object'', JStr ''chat.completion''), (''created'', jint now), (''model'', JStr (cq_model req))] @ result)), st1)
            | Inl e \<Rightarrow> nonstream_attempts parse marshal req mid now as n (Suc i) k' st1)
         })"

definition handleNonStreamingCompletion :: "(string \<Rightarrow> json option) \<Rightarrow> (json \<Rightarrow> string) \<Rightarrow> ChatCompletionRequest \<Rightarrow> int
    \<Rightarrow> (nat \<Rightarrow> attempt) \<Rightarrow> nat \<Rightarrow> coord \<Rightarrow> (response \<times> coord) option" where
  "handleNonStreamingCompletion parse marshal req now as k st =
     nonstream_attempts parse marshal req (ms_machine (heap (reg st) ! k)) now as MaxRetries 0 k st"

section \<open>The handler\<close>

text \<open>What the world supplies to one chat request.\<close>

record chat_world =
  cw_parse :: "string \<Rightarrow> json option"
  cw_marshal :: "json \<Rightarrow> string"
  cw_created :: int
  cw_sends :: bool
  cw_start :: int
  cw_turns :: "turn list"
  cw_attempts :: "nat \<Rightarrow> attempt"

definition handleMachineChatCompletions :: "hostenv \<Rightarrow> chat_world \<Rightarrow> string \<Rightarrow> string \<Rightarrow> int
    \<Rightarrow> ChatCompletionRequest option \<Rightarrow> server \<Rightarrow> (response \<times> bool \<times> server) option" where
  "handleMachineChatCompletions E w machineID keyHash userID body sv =
    (case chat_admit E machineID keyHash userID body sv of
       (Inl resp, sv1) \<Rightarrow> Some (resp, False, sv1)
     | (Inr (k, req), sv1) \<Rightarrow>
         if cq_stream req
         then do {
           (out, running, co) \<leftarrow> handleStreamingCompletion (cw_parse w) (cw_marshal w)
              \<lparr>cl_rid = at_rid (cw_attempts w 0), cl_model = cq_model req, cl_created = cw_created w\<rparr> req k
              (cw_sends w) (cw_start w) (cw_turns w) (sv_coord sv1);
           Some (Stream out, running, sv1\<lparr>sv_coord := co\<rparr>)
         }
         else do {
           (resp, co) \<leftarrow> handleNonStreamingCompletion (cw_parse w) (cw_marshal w) req (cw_created w)
              (cw_attempts w) k (sv_coord sv1);
           Some (resp, False, sv1\<lparr>sv_coord := co\<rparr>)
         })"

text \<open>The route: \<open>requireAPIKey\<close> in front of the handler.\<close>

definition chat_endpoint :: "hostenv \<Rightarrow> chat_world \<Rightarrow> string \<Rightarrow> string \<Rightarrow> ChatCompletionRequest option \<Rightarrow> server
    \<Rightarrow> (response \<times> bool \<times> server) option" where
  "chat_endpoint E w authHeader machineID body sv =
    (case requireAPIKey E authHeader (dbs (sv_coord sv)) of
       Inl resp \<Rightarrow> Some (resp, False, sv)
     | Inr (keyHash, userID) \<Rightarrow> handleMachineChatCompletions (shift 1 E) w machineID keyHash userID body sv)"

end
