(* ===== verification/AgentServe.thy ===== *)
theory AgentServe
  imports AgentJsonProps ChatServe
begin

text \<open>
  How the agent answers one request (\<open>handleRequest\<close>, \<open>handleStreamingResponse\<close> and
  \<open>handleNonStreamingResponse\<close> of \<open>internal/provider/agent.go\<close>): the messages it writes to the coordinator, as a
  function of what the backend and the connection do. A raw JSON field of a decoded message is the
  encoding of its value.
\<close>

datatype BackendType = BackendOllama | BackendOpenAI

text \<open>
  The connection at the moment of a write: gone (\<open>a.conn == nil\<close>), failing, or working. Only the last puts the
  message on the wire.
\<close>

datatype conn_state = NoConn | WriteFails | WriteOk

definition written :: "conn_state \<Rightarrow> provider_msg \<Rightarrow> provider_msg list" where
  "written c m = (if c = WriteOk then [m] else [])"

section \<open>Streaming\<close>

record backend_chunk =
  bc_content :: string
  bc_thinking :: string
  bc_tool_calls :: string
  bc_done :: bool

definition openai_choice :: "(json \<Rightarrow> string) \<Rightarrow> json \<Rightarrow> backend_chunk option" where
  "openai_choice marshal c0 =
     do {
       c \<leftarrow> top_object c0;
       delta \<leftarrow> struct_field ''delta'' c;
       content \<leftarrow> string_field ''content'' delta;
       (case jfield ''finish_reason'' c of None \<Rightarrow> Some () | Some JNull \<Rightarrow> Some () | Some (JStr s) \<Rightarrow> Some () | Some _ \<Rightarrow> None);
       Some \<lparr>bc_content = content, bc_thinking = [], bc_tool_calls = raw_field marshal ''tool_calls'' delta,
             bc_done = (case jfield ''finish_reason'' c of Some (JStr s) \<Rightarrow> True | _ \<Rightarrow> False)\<rparr>
     }"

text \<open>Every choice must decode, the first is used.\<close>

definition openai_chunk :: "(json \<Rightarrow> string) \<Rightarrow> json \<Rightarrow> backend_chunk option" where
  "openai_chunk marshal v =
     do {
       top \<leftarrow> top_object v;
       choices \<leftarrow> array_field ''choices'' top;
       if list_all (\<lambda>c. openai_choice marshal c \<noteq> None) choices
       then (case choices of
               [] \<Rightarrow> Some \<lparr>bc_content = [], bc_thinking = [], bc_tool_calls = [], bc_done = False\<rparr>
             | c # cs \<Rightarrow> openai_choice marshal c)
       else None
     }"

definition ollama_chunk :: "(json \<Rightarrow> string) \<Rightarrow> json \<Rightarrow> backend_chunk option" where
  "ollama_chunk marshal v =
     do {
       top \<leftarrow> top_object v;
       message \<leftarrow> struct_field ''message'' top;
       content \<leftarrow> string_field ''content'' message;
       thinking \<leftarrow> string_field ''thinking'' message;
       d \<leftarrow> bool_field ''done'' top;
       Some \<lparr>bc_content = content, bc_thinking = thinking, bc_tool_calls = raw_field marshal ''tool_calls'' message, bc_done = d\<rparr>
     }"

datatype line_kind = SkipLine | DoneLine | DataLine backend_chunk

text \<open>What a line of the body means, by the type of the backend.\<close>

definition classify_line :: "BackendType \<Rightarrow> (string \<Rightarrow> json option) \<Rightarrow> (json \<Rightarrow> string) \<Rightarrow> string \<Rightarrow> line_kind" where
  "classify_line bt parse marshal line =
    (if bt = BackendOpenAI then
       (if line = [] then SkipLine
        else if line = ''data: [DONE]'' then DoneLine
        else case CutPrefix line ''data: '' of
          (_, False) \<Rightarrow> SkipLine
        | (rest, True) \<Rightarrow> (case Option.bind (parse rest) (openai_chunk marshal) of None \<Rightarrow> SkipLine | Some c \<Rightarrow> DataLine c))
     else if line = [] then SkipLine
     else case Option.bind (parse line) (ollama_chunk marshal) of None \<Rightarrow> SkipLine | Some c \<Rightarrow> DataLine c)"

definition chunk_msg :: "(string \<Rightarrow> json option) \<Rightarrow> (json \<Rightarrow> string) \<Rightarrow> string \<Rightarrow> backend_chunk \<Rightarrow> ChunkMsg" where
  "chunk_msg parse marshal rid c = \<lparr>ch_request_id = rid,
     ch_content = (if bc_content c = [] \<and> bc_thinking c \<noteq> [] then bc_thinking c else bc_content c),
     ch_tool_calls = normalizeToolCalls parse marshal (bc_tool_calls c), ch_done = bc_done c\<rparr>"

definition done_msg :: "string \<Rightarrow> ChunkMsg" where
  "done_msg rid = \<lparr>ch_request_id = rid, ch_content = [], ch_tool_calls = [], ch_done = True\<rparr>"

definition unexpected_end :: "string \<Rightarrow> ErrorMsg" where
  "unexpected_end rid = \<lparr>er_request_id = rid, er_code = ErrInternal, er_message = ''stream ended unexpectedly''\<rparr>"

text \<open>
  The loop over the lines that the scanner delivers before it stops, each with the connection at that
  moment; \<open>final\<close> is the connection when the deferred function runs.
\<close>

fun stream_lines :: "BackendType \<Rightarrow> (string \<Rightarrow> json option) \<Rightarrow> (json \<Rightarrow> string) \<Rightarrow> string \<Rightarrow> conn_state
    \<Rightarrow> (string \<times> conn_state) list \<Rightarrow> provider_msg list" where
  "stream_lines bt parse marshal rid final [] = written final (PError (unexpected_end rid))"
| "stream_lines bt parse marshal rid final ((line, conn) # rest) =
    (case classify_line bt parse marshal line of
       SkipLine \<Rightarrow> stream_lines bt parse marshal rid final rest
     | DoneLine \<Rightarrow> written conn (PChunk (done_msg rid))
     | DataLine c \<Rightarrow>
         (case conn of
            NoConn \<Rightarrow> written final (PError (unexpected_end rid))
          | WriteFails \<Rightarrow> written final (PError (unexpected_end rid))
          | WriteOk \<Rightarrow>
              PChunk (chunk_msg parse marshal rid c)
                # (if bc_done c then [] else stream_lines bt parse marshal rid final rest)))"

definition handleStreamingResponse :: "BackendType \<Rightarrow> (string \<Rightarrow> json option) \<Rightarrow> (json \<Rightarrow> string) \<Rightarrow> string
    \<Rightarrow> (string \<times> conn_state) list \<Rightarrow> conn_state \<Rightarrow> provider_msg list" where
  "handleStreamingResponse bt parse marshal rid lines final = stream_lines bt parse marshal rid final lines"

section \<open>Non-streaming\<close>

record backend_answer =
  ba_content :: string
  ba_thinking :: string
  ba_tool_calls :: string
  ba_prompt :: int
  ba_eval :: int

definition openai_message :: "(json \<Rightarrow> string) \<Rightarrow> json \<Rightarrow> (string \<times> string) option" where
  "openai_message marshal c0 =
     do { c \<leftarrow> top_object c0; m \<leftarrow> struct_field ''message'' c; content \<leftarrow> string_field ''content'' m;
          Some (content, raw_field marshal ''tool_calls'' m) }"

definition openai_answer :: "(json \<Rightarrow> string) \<Rightarrow> json \<Rightarrow> backend_answer option" where
  "openai_answer marshal v =
     do {
       top \<leftarrow> top_object v;
       choices \<leftarrow> array_field ''choices'' top;
       usage \<leftarrow> struct_field ''usage'' top;
       p \<leftarrow> int_field ''prompt_tokens'' usage;
       e \<leftarrow> int_field ''completion_tokens'' usage;
       if list_all (\<lambda>c. openai_message marshal c \<noteq> None) choices
       then (let (content, tcs) = (case choices of [] \<Rightarrow> ([], []) | c # cs \<Rightarrow> the (openai_message marshal c))
             in Some \<lparr>ba_content = content, ba_thinking = [], ba_tool_calls = tcs, ba_prompt = p, ba_eval = e\<rparr>)
       else None
     }"

definition ollama_answer :: "(json \<Rightarrow> string) \<Rightarrow> json \<Rightarrow> backend_answer option" where
  "ollama_answer marshal v =
     do {
       top \<leftarrow> top_object v;
       m \<leftarrow> struct_field ''message'' top;
       content \<leftarrow> string_field ''content'' m;
       thinking \<leftarrow> string_field ''thinking'' m;
       td \<leftarrow> int_field ''total_duration'' top;
       p \<leftarrow> int_field ''prompt_eval_count'' top;
       e \<leftarrow> int_field ''eval_count'' top;
       Some \<lparr>ba_content = content, ba_thinking = thinking, ba_tool_calls = raw_field marshal ''tool_calls'' m,
             ba_prompt = p, ba_eval = e\<rparr>
     }"

definition usage_json :: "int \<Rightarrow> int \<Rightarrow> json" where
  "usage_json p e = JObj [(''prompt_tokens'', jint p), (''completion_tokens'', jint e), (''total_tokens'', jint (int64 (p + e)))]"

definition response_msg :: "(string \<Rightarrow> json option) \<Rightarrow> (json \<Rightarrow> string) \<Rightarrow> string \<Rightarrow> string \<Rightarrow> backend_answer \<Rightarrow> ResponseMsg" where
  "response_msg parse marshal rid model b = \<lparr>rs_request_id = rid,
     rs_content = (if ba_content b = [] \<and> ba_thinking b \<noteq> [] then ba_thinking b else ba_content b),
     rs_tool_calls = normalizeToolCalls parse marshal (ba_tool_calls b), rs_model = model,
     rs_usage = marshal (usage_json (ba_prompt b) (ba_eval b))\<rparr>"

text \<open>\<open>data\<close> is the body, \<open>None\<close> when reading it failed.\<close>

definition handleNonStreamingResponse :: "BackendType \<Rightarrow> (string \<Rightarrow> json option) \<Rightarrow> (json \<Rightarrow> string) \<Rightarrow> string \<Rightarrow> string
    \<Rightarrow> string option \<Rightarrow> conn_state \<Rightarrow> provider_msg list" where
  "handleNonStreamingResponse bt parse marshal rid model data conn =
    (case data of
       None \<Rightarrow> []
     | Some d \<Rightarrow>
         (case Option.bind (parse d) (if bt = BackendOpenAI then openai_answer marshal else ollama_answer marshal) of
            None \<Rightarrow> []
          | Some b \<Rightarrow> written conn (PResponse (response_msg parse marshal rid model b))))"

section \<open>One request\<close>

definition isConnectionError :: "string \<Rightarrow> bool" where
  "isConnectionError msg \<longleftrightarrow> Contains msg ''connection refused'' \<or> Contains msg ''connect:'' \<or> Contains msg ''no such host''
     \<or> Contains msg ''i/o timeout'' \<or> Contains msg ''dial tcp'' \<or> Contains msg ''dial udp''"

definition truncateForLog :: "string \<Rightarrow> nat \<Rightarrow> string" where
  "truncateForLog s0 n = (let s = TrimSpace s0 in
     if length s \<le> n then s else take n s @ [CHR 0xE2, CHR 0x80, CHR 0xA6])"

text \<open>The request that \<open>sendToBackend\<close> makes of a body: method, URL and content type.\<close>

definition backend_request :: "BackendType \<Rightarrow> string \<Rightarrow> string \<times> string \<times> string" where
  "backend_request bt ollama =
    (''POST'', ollama @ (if bt = BackendOpenAI then ''/v1/chat/completions'' else ''/api/chat''), ''application/json'')"

text \<open>
  What the world does for one request: the HTTP exchange (an error with its text, or a status with the
  body, as text and as the lines of the scanner with the connection at each), whether the request was
  cancelled, and the connection at the end.
\<close>

datatype exchange = Failed string | Answered int string "(string \<times> conn_state) list"

record request_world =
  rw_exchange :: "json \<Rightarrow> exchange"
  rw_cancelled :: bool
  rw_body_ok :: bool
  rw_conn :: conn_state

definition error_msg :: "string \<Rightarrow> string \<Rightarrow> string \<Rightarrow> provider_msg" where
  "error_msg rid code m = PError \<lparr>er_request_id = rid, er_code = code, er_message = m\<rparr>"

text \<open>\<open>handleRequest\<close> after the capacity check.\<close>

definition serve_request :: "BackendType \<Rightarrow> (string \<Rightarrow> json option) \<Rightarrow> (json \<Rightarrow> string) \<Rightarrow> RequestMsg \<Rightarrow> request_world
    \<Rightarrow> provider_msg list" where
  "serve_request bt parse marshal msg w =
    (let rid = rq_request_id msg in
     case (case backend_body parse marshal msg of Inl e \<Rightarrow> Failed e | Inr body \<Rightarrow> rw_exchange w body) of
       Failed e \<Rightarrow>
         if rw_cancelled w then []
         else written (rw_conn w) (error_msg rid (if isConnectionError e then ErrBackendUnavailable else ErrInternal) e)
     | Answered status body lines \<Rightarrow>
         if status < 200 \<or> status \<ge> 300
         then written (rw_conn w) (error_msg rid ErrInternal
                (''backend status '' @ Itoa status @ '': '' @ truncateForLog (take 4096 body) 300))
         else if rq_stream msg then handleStreamingResponse bt parse marshal rid lines (rw_conn w)
         else handleNonStreamingResponse bt parse marshal rid (rq_model msg)
                (if rw_body_ok w then Some body else None) (rw_conn w))"

definition overloaded_msg :: "string \<Rightarrow> provider_msg" where
  "overloaded_msg rid = error_msg rid ErrOverloaded ''donor at max capacity''"

end
