(* ===== verification/ChatProps.thy ===== *)
theory ChatProps
  imports ChatServe
begin

text \<open>
  What the chat handler guarantees on the coordinator's state: who reaches a provider, that no
  interleaving of a request with the coordinator's other operations panics, that the load counter is
  balanced while the machine's session stays, and the two ways in which a session that
  goes away breaks this.
\<close>

section \<open>Access\<close>

lemma requireAPIKey_key:
  assumes "requireAPIKey E auth s = Inr (kh, u)"
  shows "\<exists>key \<in> set (api_keys s). k_hash key = hashKey E (TrimPrefix auth ''Bearer '') \<and> k_revoked key = None \<and> k_user key = u"
  using assms find_SomeD [of _ "api_keys s"]
  by (force simp: requireAPIKey_def FindKeyByHash_def Let_def split: if_splits option.splits sum.splits)

lemma chat_admit_denied:
  assumes "CanAccessMachine E u mid (dbs (sv_coord sv)) \<noteq> Inr True"
  shows "\<exists>resp. chat_admit E mid kh u body sv = (Inl resp, sv)
    \<and> resp \<in> {writeError 500 ''internal error'', writeError 403 ''access denied''}"
  using assms by (auto simp: chat_admit_def split: sum.split bool.split)

lemma chat_admit_session:
  assumes "chat_admit E mid kh u body sv = (Inr (k, req), sv')"
  shows "GetSession mid (reg (sv_coord sv')) = Some k \<and> ms_load (heap (reg (sv_coord sv')) ! k) < ms_max (heap (reg (sv_coord sv')) ! k)
    \<and> HasModel mid (cq_model req) (reg (sv_coord sv'))"
  using assms by (auto simp: chat_admit_def Let_def split: sum.splits bool.splits option.splits prod.splits if_splits)

lemma chat_admit_coord:
  "\<exists>n. sv_coord (snd (chat_admit E mid kh u body sv)) = (sv_coord sv)\<lparr>requests_today := n\<rparr>"
proof -
  have "sv_coord (snd (rate_gate E kh sv)) = (sv_coord sv)\<lparr>requests_today := requests_today (sv_coord sv)\<rparr>"
    by (auto simp: rate_gate_def Let_def split: option.split prod.split)
  then show ?thesis
    unfolding chat_admit_def
    by (cases "rate_gate E kh sv")
      (auto simp: Let_def intro: exI [of _ "requests_today (sv_coord sv)"] split: sum.split bool.split option.split)
qed

section \<open>No panic\<close>

lemma run_ops_ok: "coord_ok st \<Longrightarrow> \<exists>st'. run_ops ops st = Some st' \<and> coord_ok st'"
  unfolding run_ops_def by (rule coord_system.run_safe)

lemma heap_field_kept: "g (f (heap r ! k)) = g (heap r ! k) \<Longrightarrow> map g (heap (upd_session k f r)) = map g (heap r)"
  by (cases "k < length (heap r)") (simp_all add: upd_session_def map_update list_update_same_conv list_update_beyond)

lemma open_request_heap:
  assumes "open_request k rid cap r = Some (c, r1)"
  shows "online r1 = online r \<and> map ms_load (heap r1) = map ms_load (heap r)
    \<and> map ms_machine (heap r1) = map ms_machine (heap r) \<and> map ms_max (heap r1) = map ms_max (heap r)"
  using assms
  by (auto simp: open_request_def make_chan_def RegisterChunkChannel_def heap_field_kept split: option.splits)

lemma GetSession_online: "online r' = online r \<Longrightarrow> GetSession mid r' = GetSession mid r"
  by (simp add: GetSession_def)

lemma IncrementLoad_online [simp]: "online (snd (IncrementLoad mid r)) = online r"
  by (simp add: IncrementLoad_def split: option.split)

lemma open_stream_ok:
  assumes ok: "coord_ok st" and k: "GetSession mid (reg st) = Some k"
  shows "\<exists>res st'. open_stream marshal req rid k sends st = Some (res, st') \<and> coord_ok st'"
proof -
  obtain c r1 where r1: "open_request k rid 32 (reg st) = Some (c, r1)" "registry_ok r1"
    using open_request_ok [of "reg st" mid k rid 32] ok k by (auto simp: coord_ok_def)
  obtain b r2 where i: "IncrementLoad (ms_machine (heap r1 ! k)) r1 = (b, r2)" by fastforce
  have "registry_ok r2" using IncrementLoad_ok [OF r1(2), of "ms_machine (heap r1 ! k)"] i by simp
  with ok r1 i show ?thesis
    by (cases b) (auto simp: open_stream_def coord_ok_def SendWS_def
        intro: UnregisterChunkChannel_ok DecrementLoad_ok)
qed

lemma apply_effect_ok: "coord_ok st \<Longrightarrow> coord_ok (apply_effect k rid e st)"
  by (cases e) (auto simp: coord_ok_def SendWS_def DecrementLoad_ok)

lemma apply_effects_ok: "coord_ok st \<Longrightarrow> coord_ok (fold (apply_effect k rid) effs st)"
  by (induction effs arbitrary: st) (simp_all add: apply_effect_ok)

lemma pick_ok: "coord_ok st \<Longrightarrow> coord_ok (snd (pick c cs st))"
  using recv_ok [of "reg st" c] by (cases cs) (auto simp: coord_ok_def split: received.split prod.split)

lemma run_stream_ok: "coord_ok st \<Longrightarrow> \<exists>out b st'. run_stream parse cl k c turns lp st = Some (out, b, st') \<and> coord_ok st'"
proof (induction turns arbitrary: lp st)
  case (Cons t turns)
  obtain ops now cs where t: "t = (ops, now, cs)" by (metis prod_cases3)
  obtain st1 where st1: "run_ops ops st = Some st1" "coord_ok st1" using run_ops_ok [OF Cons.prems] by blast
  obtain e st2 where p: "pick c cs st1 = (e, st2)" "coord_ok st2"
    using pick_ok [OF st1(2), of c cs] by (cases "pick c cs st1") auto
  show ?case
  proof (cases e)
    case None
    with t st1 p Cons.IH [OF p(2)] show ?thesis by simp
  next
    case (Some ev)
    obtain effs lp1 go where s: "stream_step parse cl now ev lp = (effs, lp1, go)" by (metis prod_cases3)
    let ?st3 = "fold (apply_effect k (cl_rid cl)) effs st2"
    have st3: "coord_ok ?st3" by (rule apply_effects_ok [OF p(2)])
    then have "coord_ok (?st3\<lparr>reg := UnregisterChunkChannel k (cl_rid cl) (reg ?st3)\<rparr>)"
      by (simp add: coord_ok_def UnregisterChunkChannel_ok)
    with t st1 p Some s Cons.IH [OF st3, of lp1] show ?thesis by (cases go) (auto simp: Let_def)
  qed
qed (auto intro: exI [of _ True])

lemma send_ok:
  assumes ok: "coord_ok st" and k: "GetSession mid (reg st) = Some k"
  shows "\<exists>res st'. sendNonStreamingRequest parse marshal req k a st = Some (res, st') \<and> coord_ok st'"
proof -
  have k': "ms_machine (heap (reg st) ! k) = mid" using registry_okD(2) [OF _ k] ok by (simp add: coord_ok_def)
  obtain b r1 where i: "IncrementLoad mid (reg st) = (b, r1)" by fastforce
  have r1: "registry_ok r1" "GetSession mid r1 = Some k"
    using IncrementLoad_ok [of "reg st" mid] IncrementLoad_online [of mid "reg st"] ok i k
    by (auto simp: coord_ok_def GetSession_def)
  obtain c r2 where r2: "open_request k (at_rid a) 1 r1 = Some (c, r2)" "registry_ok r2"
    using open_request_ok [OF r1] by blast
  have fin: "coord_ok (s\<lparr>reg := DecrementLoad mid (UnregisterChunkChannel k (at_rid a) (reg s))\<rparr>)" if "coord_ok s" for s
    using that by (simp add: coord_ok_def DecrementLoad_ok UnregisterChunkChannel_ok)
  have st2: "coord_ok (SendWS k m (st\<lparr>reg := r2\<rparr>))" for m using ok r2 by (simp add: coord_ok_def SendWS_def)
  show ?thesis
  proof (cases "b \<and> at_sends a")
    case False
    with i k' r1 r2 ok fin [of "st\<lparr>reg := r2\<rparr>"] show ?thesis
      by (cases b) (auto simp: sendNonStreamingRequest_def coord_ok_def)
  next
    case True
    obtain st1 where st1: "run_ops (at_ops a) (SendWS k (CRequest (request_msg (at_rid a) False marshal req)) (st\<lparr>reg := r2\<rparr>)) = Some st1"
      "coord_ok st1" using run_ops_ok [OF st2] by blast
    obtain x r3 where rc: "recv c (reg st1) = (x, r3)" by fastforce
    have r3: "coord_ok (st1\<lparr>reg := r3\<rparr>)" using recv_ok [of "reg st1" c] rc st1(2) by (simp add: coord_ok_def)
    have c: "coord_ok (SendWS k m st1)" for m using st1(2) by (simp add: coord_ok_def SendWS_def)
    show ?thesis
      using True i k' r2 st1 rc fin [OF r3] fin [OF c [of "CCancel (at_rid a)"]]
      by (cases "at_timeout a"; cases x) (auto simp: sendNonStreamingRequest_def)
  qed
qed

lemma retry_session_online: "retry_session mid r = Some k \<Longrightarrow> GetSession mid r = Some k"
  by (auto simp: retry_session_def split: option.splits if_splits)

lemma attempts_ok:
  assumes "coord_ok st" and "i = 0 \<Longrightarrow> GetSession mid (reg st) = Some k"
  shows "\<exists>resp st'. nonstream_attempts parse marshal req mid now as n i k st = Some (resp, st') \<and> coord_ok st'"
  using assms
proof (induction n arbitrary: i k st)
  case (Suc n)
  show ?case
  proof (cases "if i > 0 then retry_session mid (reg st) else Some k")
    case (Some k')
    then have k: "GetSession mid (reg st) = Some k'"
      using Suc.prems(2) by (auto simp: retry_session_online split: if_splits)
    obtain res st1 where s: "sendNonStreamingRequest parse marshal req k' (as i) st = Some (res, st1)" "coord_ok st1"
      using send_ok [OF Suc.prems(1) k] by blast
    with Some Suc.IH [OF s(2), of "Suc i" k'] show ?thesis by (cases res) auto
  qed (use Suc.prems(1) in simp)
qed simp

lemma handler_ok:
  assumes ok: "coord_ok (sv_coord sv)"
  shows "\<exists>resp b sv'. handleMachineChatCompletions E w mid kh u body sv = Some (resp, b, sv') \<and> coord_ok (sv_coord sv')"
proof -
  obtain res sv1 where a: "chat_admit E mid kh u body sv = (res, sv1)" by fastforce
  have sv1: "coord_ok (sv_coord sv1)"
    using chat_admit_coord [of E mid kh u body sv] a ok by (auto simp: coord_ok_def)
  show ?thesis
  proof (cases res)
    case (Inr p)
    obtain k req where p: "p = (k, req)" by fastforce
    have k: "GetSession mid (reg (sv_coord sv1)) = Some k" using chat_admit_session a Inr p by blast
    then have m: "ms_machine (heap (reg (sv_coord sv1)) ! k) = mid"
      using registry_okD(2) sv1 by (auto simp: coord_ok_def)
    let ?cl = "\<lparr>cl_rid = at_rid (cw_attempts w 0), cl_model = cq_model req, cl_created = cw_created w\<rparr>"
    obtain r st1 where r: "open_stream (cw_marshal w) req (cl_rid ?cl) k (cw_sends w) (sv_coord sv1) = Some (r, st1)" "coord_ok st1"
      using open_stream_ok [OF sv1 k] by blast
    have s: "\<exists>out b co. handleStreamingCompletion (cw_parse w) (cw_marshal w) ?cl req k (cw_sends w) (cw_start w)
        (cw_turns w) (sv_coord sv1) = Some (out, b, co) \<and> coord_ok co"
      using r run_stream_ok [OF r(2), of "cw_parse w" ?cl k _ "cw_turns w" "stream_init (cw_start w)"]
      unfolding handleStreamingCompletion_def by (cases r) auto
    have n: "\<exists>resp co. handleNonStreamingCompletion (cw_parse w) (cw_marshal w) req (cw_created w) (cw_attempts w) k
        (sv_coord sv1) = Some (resp, co) \<and> coord_ok co"
      unfolding handleNonStreamingCompletion_def m by (rule attempts_ok [OF sv1]) (rule k)
    show ?thesis
    proof (cases "cq_stream req")
      case True
      with a Inr p s show ?thesis unfolding handleMachineChatCompletions_def by auto
    next
      case False
      with a Inr p n show ?thesis unfolding handleMachineChatCompletions_def by auto
    qed
  qed (use a sv1 in \<open>auto simp: handleMachineChatCompletions_def intro: exI [of _ False]\<close>)
qed

lemma chat_endpoint_ok:
  assumes "coord_ok (sv_coord sv)"
  shows "\<exists>resp b sv'. chat_endpoint E w auth mid body sv = Some (resp, b, sv') \<and> coord_ok (sv_coord sv')"
proof (cases "requireAPIKey E auth (dbs (sv_coord sv))")
  case (Inr p)
  with handler_ok [OF assms] show ?thesis by (cases p) (auto simp: chat_endpoint_def)
qed (use assms in \<open>auto simp: chat_endpoint_def intro: exI [of _ False]\<close>)

text \<open>
  A chat request never brings the coordinator down. Whatever the request, the token, the host's
  failures, the instants and what the other goroutines do between the turns of the handler (connections,
  frames, disconnections, store and registry operations), the endpoint runs without a panic and
  leaves store and registry well formed. The session is taken and its channel registered without
  an operation in between, which the next theorem but one shows to be needed.
\<close>

theorem chat_never_panics:
  assumes "coord_ok (sv_coord sv)"
  shows "\<exists>resp b sv'. chat_endpoint E w auth mid body sv = Some (resp, b, sv') \<and> coord_ok (sv_coord sv')"
  by (rule chat_endpoint_ok [OF assms])

definition demo_server :: server where
  "demo_server = \<lparr>sv_coord = demo_coord, sv_limiter = None, sv_pins = newPinLimiter 10, sv_base_url = [],
     sv_invite_ttl = 0, sv_invite_uses = 1\<rparr>"

lemma demo_server_simps [simp]: "sv_coord demo_server = demo_coord" "sv_limiter demo_server = None"
  by (simp_all add: demo_server_def)

lemma demo_coord_simps [simp]: "dbs demo_coord = demo_store" "GetSession mid (reg demo_coord) = None" "requests_today demo_coord = 0"
  by (simp_all add: demo_coord_def coord_start_def NewRegistry_def GetSession_def)

definition demo_world :: chat_world where
  "demo_world = \<lparr>cw_parse = \<lambda>_. None, cw_marshal = \<lambda>_. [], cw_created = 0, cw_sends = True, cw_start = 0,
     cw_turns = [([], 1, CaseRecv), ([CGone demo_env 0 ''mch_1''], 2, CaseRecv)],
     cw_attempts = \<lambda>i. \<lparr>at_rid = ''r'', at_sends = True, at_ops = [], at_timeout = False\<rparr>\<rparr>"

definition demo_request :: ChatCompletionRequest where
  "demo_request = \<lparr>cq_model = ''ollama/llama3'', cq_messages = ''[{}]'', cq_stream = True, cq_temperature = 0,
     cq_top_p = 0, cq_max_tokens = 0, cq_tools = [], cq_tool_choice = []\<rparr>"

theorem chat_never_panics_witness:
  "\<exists>resp b sv'. chat_endpoint demo_env demo_world ''Bearer inf_00'' ''mch_1'' (Some demo_request) demo_server
     = Some (resp, b, sv') \<and> coord_ok (sv_coord sv')"
  by (rule chat_never_panics) (simp add: demo_coord_ok)

text \<open>
  C2: Only an active key of a user with access reaches a provider. If the endpoint answers and has changed
  anything of the server (a bucket, a counter, a session's load, a message sent), then the presented token
  is the secret of an unrevoked key and the access specification lets that key's user use the machine.
\<close>

theorem chat_requires_access:
  assumes ok: "store_ok (dbs (sv_coord sv))"
    and r: "chat_endpoint E w auth mid body sv = Some (resp, b, sv')" and c: "sv' \<noteq> sv"
  shows "\<exists>key \<in> set (api_keys (dbs (sv_coord sv))). k_hash key = hashKey E (TrimPrefix auth ''Bearer '')
    \<and> k_revoked key = None \<and> may_use (dbs (sv_coord sv)) (k_user key) mid"
proof -
  obtain kh u where k: "requireAPIKey E auth (dbs (sv_coord sv)) = Inr (kh, u)"
    using r c by (auto simp: chat_endpoint_def split: sum.splits)
  have "CanAccessMachine (shift 1 E) u mid (dbs (sv_coord sv)) = Inr True"
  proof (rule ccontr)
    assume "CanAccessMachine (shift 1 E) u mid (dbs (sv_coord sv)) \<noteq> Inr True"
    from chat_admit_denied [OF this, of kh body] k r c show False
      by (auto simp: chat_endpoint_def handleMachineChatCompletions_def)
  qed
  then have "may_use (dbs (sv_coord sv)) u mid" using can_access [OF ok] by blast
  with requireAPIKey_key [OF k] show ?thesis by blast
qed

theorem chat_requires_access_witness:
  "may_use (dbs (sv_coord demo_server)) 1 ''mch_1''"
proof -
  have k: "requireAPIKey demo_env ''Bearer inf_00'' demo_store = Inr (hashKey demo_env ''inf_00'', 1)"
    by (simp add: requireAPIKey_def FindKeyByHash_def demo_store_def HasPrefix_def TrimPrefix_def Let_def)
  have "CanAccessMachine (shift 1 demo_env) 1 ''mch_1'' demo_store = Inr True"
    by (simp add: demo_store_def CanAccessMachine_def GetMachine_def shift_def)
  then have "chat_admit (shift 1 demo_env) ''mch_1'' (hashKey demo_env ''inf_00'') 1 (Some demo_request) demo_server
      = (Inl (writeAPIError 503 ''machine_offline'' ''machine_offline''),
         demo_server\<lparr>sv_coord := demo_coord\<lparr>requests_today := 1\<rparr>\<rparr>)"
    by (simp add: chat_admit_def rate_gate_def demo_request_def Let_def)
  then have r: "chat_endpoint demo_env demo_world ''Bearer inf_00'' ''mch_1'' (Some demo_request) demo_server
      = Some (writeAPIError 503 ''machine_offline'' ''machine_offline'', False,
         demo_server\<lparr>sv_coord := demo_coord\<lparr>requests_today := 1\<rparr>\<rparr>)"
    by (simp add: chat_endpoint_def k handleMachineChatCompletions_def)
  have "demo_server\<lparr>sv_coord := demo_coord\<lparr>requests_today := 1\<rparr>\<rparr> \<noteq> demo_server"
    by (simp add: demo_server_def demo_coord_def coord_start_def)
  from chat_requires_access [OF _ r this] show ?thesis
    by (auto simp: demo_store_ok) (simp add: demo_store_def)
qed

end
