(* ===== verification/ChatLoad.thy ===== *)
theory ChatLoad
  imports ChatProps
begin

text \<open>
  The load counter through a chat request. While the machine keeps its session, whatever frames,
  store operations and ticks happen meanwhile, the request holds one unit and gives it back; a
  reconnection or a disconnection in the middle breaks this in two ways, both stated here.
\<close>

section \<open>Operations that leave the loads alone\<close>

definition same_loads :: "registry \<Rightarrow> registry \<Rightarrow> bool" where
  "same_loads r r' \<longleftrightarrow> online r' = online r \<and> map ms_load (heap r') = map ms_load (heap r)
     \<and> map ms_machine (heap r') = map ms_machine (heap r)"

lemma same_loads_refl [simp]: "same_loads r r"
  by (simp add: same_loads_def)

lemma same_loads_trans: "same_loads r r1 \<Longrightarrow> same_loads r1 r2 \<Longrightarrow> same_loads r r2"
  by (simp add: same_loads_def)

lemma same_loads_upd:
  "(\<And>s. ms_load (f s) = ms_load s \<and> ms_machine (f s) = ms_machine s) \<Longrightarrow> same_loads r (upd_session k f r)"
  by (simp add: same_loads_def heap_field_kept)

lemma same_loads_on_machine:
  "(\<And>s. ms_load (f s) = ms_load s \<and> ms_machine (f s) = ms_machine s) \<Longrightarrow> same_loads r (on_machine mid f r)"
  by (simp add: on_machine_def same_loads_upd split: option.split)

lemma same_loads_ops:
  "same_loads r (UnregisterChunkChannel k rid r)" "same_loads r (AddTokens mid n r)"
  "same_loads r (UpdateHeartbeat now mid r)" "same_loads r (SetBackendOK now mid b r)"
  "same_loads r (snd (recv c r))"
  by (simp_all add: UnregisterChunkChannel_def AddTokens_def UpdateHeartbeat_def SetBackendOK_def
      same_loads_upd same_loads_on_machine)
    (simp add: recv_def same_loads_def Let_def split: list.split)

lemma same_loads_cong: "same_loads r1 r2 \<Longrightarrow> same_loads r r2 = same_loads r r1"
  by (auto simp: same_loads_def)

lemmas same_loads_after [simp] = same_loads_ops [THEN same_loads_cong]

lemma same_loads_send: "try_send c x r = Some (b, r') \<Longrightarrow> same_loads r r'"
  by (auto simp: try_send_def same_loads_def Let_def split: if_splits)

lemma same_loads_relay:
  "relayChunk E mid m st = Some st' \<Longrightarrow> same_loads (reg st) (reg st')"
  "relayResponse E usage mid rs st = Some st' \<Longrightarrow> same_loads (reg st) (reg st')"
  "relayError mid er st = Some st' \<Longrightarrow> same_loads (reg st) (reg st')"
  by (auto simp: relayChunk_def relayResponse_def relayError_def Let_def
      dest: same_loads_send split: option.splits bind_splits if_splits)

lemma same_loads_frame:
  assumes "read_step E usage k ev st = Some (go, st')"
  shows "same_loads (reg st) (reg st')"
  using assms
  by (auto simp: read_step_def Let_def SendWS_def dest!: same_loads_relay
      split: ws_event.splits provider_msg.splits if_splits bind_splits)

text \<open>What the other goroutines may do here: handle frames of connected providers, ticks, store operations.\<close>

fun quiet_op :: "coord_op \<Rightarrow> bool" where
  "quiet_op (CFrame _ _ _ _) = True"
| "quiet_op (CTick _) = True"
| "quiet_op (CStore _) = True"
| "quiet_op _ = False"

lemma quiet_step: "quiet_op op \<Longrightarrow> coord_step op st = Some st' \<Longrightarrow> same_loads (reg st) (reg st')"
  using same_loads_frame by (cases op) (auto simp: uptime_tick_def)

lemma quiet_ops:
  "list_all quiet_op ops \<Longrightarrow> run_ops ops st = Some st' \<Longrightarrow> same_loads (reg st) (reg st')"
proof (induction ops arbitrary: st)
  case (Cons op ops)
  have "fold (\<lambda>op t. t \<bind> coord_step op) os None = None" for os
    by (induction os) simp_all
  with Cons.prems obtain st1 where st1: "coord_step op st = Some st1" "run_ops ops st1 = Some st'"
    by (cases "coord_step op st") (auto simp: run_ops_def)
  with Cons quiet_step [OF _ st1(1)] show ?case by (auto intro: same_loads_trans)
qed (simp add: run_ops_def)

section \<open>Holding a unit of load\<close>

definition holds :: "nat \<Rightarrow> registry \<Rightarrow> registry \<Rightarrow> bool" where
  "holds k r r' \<longleftrightarrow> online r' = online r \<and> map ms_machine (heap r') = map ms_machine (heap r)
     \<and> map ms_load (heap r') = (map ms_load (heap r))[k := ms_load (heap r ! k) + 1]"

lemma holds_same: "holds k r r1 \<Longrightarrow> same_loads r1 r2 \<Longrightarrow> holds k r r2"
  by (simp add: holds_def same_loads_def)

lemma same_holds: "same_loads r r1 \<Longrightarrow> holds k r1 r2 \<Longrightarrow> k < length (heap r) \<Longrightarrow> holds k r r2"
  unfolding holds_def same_loads_def by (metis length_map nth_map)

lemma IncrementLoad_holds:
  assumes "GetSession mid r = Some k" and "IncrementLoad mid r = (True, r')" and "k < length (heap r)"
  shows "holds k r r'"
  using assms
  by (auto simp: IncrementLoad_def holds_def heap_field_kept split: if_splits)
    (simp add: upd_session_def map_update)

lemma IncrementLoad_refused: "IncrementLoad mid r = (False, r') \<Longrightarrow> r' = r"
  by (auto simp: IncrementLoad_def split: option.splits if_splits)

lemma DecrementLoad_returns:
  assumes h: "holds k r r'" and g: "GetSession mid r = Some k" and k: "k < length (heap r)" "0 \<le> ms_load (heap r ! k)"
  shows "same_loads r (DecrementLoad mid r')"
proof -
  have l: "length (heap r') = length (heap r)" using h by (metis holds_def length_map)
  have "map ms_load (heap r') ! k = ms_load (heap r ! k) + 1" using h k by (simp add: holds_def)
  then have lk: "ms_load (heap r' ! k) = ms_load (heap r ! k) + 1" using l k by simp
  have g': "GetSession mid r' = Some k" using g h by (simp add: holds_def GetSession_def)
  have "map ms_load ((heap r')[k := (heap r' ! k)\<lparr>ms_load := ms_load (heap r ! k)\<rparr>]) = map ms_load (heap r)"
    using h k by (simp add: map_update holds_def list_update_same_conv)
  moreover have "map ms_machine (heap (upd_session k (\<lambda>s. if ms_load s > 0 then s\<lparr>ms_load := ms_load s - 1\<rparr> else s) r'))
      = map ms_machine (heap r')" by (rule heap_field_kept) simp
  ultimately show ?thesis
    using h lk k(2) g' by (simp add: same_loads_def DecrementLoad_def on_machine_def holds_def upd_session_def)
qed

lemma open_request_same: "open_request k rid cap r = Some (c, r') \<Longrightarrow> same_loads r r'"
  using open_request_heap [of k rid cap r c r'] by (simp add: same_loads_def)

lemma same_loads_nth:
  "same_loads r r' \<Longrightarrow> k < length (heap r) \<Longrightarrow> ms_machine (heap r' ! k) = ms_machine (heap r ! k) \<and> ms_load (heap r' ! k) = ms_load (heap r ! k)"
  unfolding same_loads_def by (metis length_map nth_map)

lemma same_loads_facts: "same_loads r r' \<Longrightarrow> length (heap r') = length (heap r) \<and> GetSession mid r' = GetSession mid r"
  unfolding same_loads_def GetSession_def by (metis length_map)

lemma holds_facts:
  assumes "holds k r r'" "k < length (heap r)"
  shows "ms_machine (heap r' ! k) = ms_machine (heap r ! k)"
  using assms unfolding holds_def by (metis length_map nth_map)

text \<open>The session and the registry a request starts with.\<close>

definition serving :: "string \<Rightarrow> nat \<Rightarrow> registry \<Rightarrow> bool" where
  "serving mid k r \<longleftrightarrow> GetSession mid r = Some k \<and> k < length (heap r) \<and> ms_machine (heap r ! k) = mid
     \<and> 0 \<le> ms_load (heap r ! k)"

lemma serving_ok: "registry_ok r \<Longrightarrow> GetSession mid r = Some k \<Longrightarrow> serving mid k r"
  using registry_okD [of r mid k] by (simp add: serving_def session_ok_def)

lemma serving_same: "serving mid k r \<Longrightarrow> same_loads r r' \<Longrightarrow> serving mid k r'"
  using same_loads_facts [of r r' mid] same_loads_nth [of r r' k] by (simp add: serving_def)

lemma open_stream_load:
  assumes s: "serving mid k (reg st)" and o: "open_stream marshal req rid k sends st = Some (res, st')"
  shows "case res of Inl out \<Rightarrow> same_loads (reg st) (reg st') | Inr c \<Rightarrow> holds k (reg st) (reg st')"
proof -
  obtain c r1 where r1: "open_request k rid 32 (reg st) = Some (c, r1)"
    using o by (auto simp: open_stream_def split: bind_splits)
  have s1: "same_loads (reg st) r1" by (rule open_request_same [OF r1])
  have sv: "serving mid k r1" by (rule serving_same [OF s s1])
  obtain b r2 where i: "IncrementLoad mid r1 = (b, r2)" by fastforce
  show ?thesis
  proof (cases b)
    case False
    with i o r1 sv s1 show ?thesis by (auto simp: open_stream_def serving_def dest!: IncrementLoad_refused)
  next
    case True
    then have h: "holds k r1 r2" using IncrementLoad_holds [of mid r1 k r2] i sv by (simp add: serving_def)
    moreover have "same_loads r1 (DecrementLoad mid r2)" using DecrementLoad_returns [OF h, of mid] sv by (simp add: serving_def)
    moreover have "holds k (reg st) r2" using same_holds [OF s1 h] s by (simp add: serving_def)
    ultimately show ?thesis using i o r1 sv s1 True
      by (auto simp: open_stream_def serving_def SendWS_def intro: same_loads_trans split: if_splits)
  qed
qed

lemma apply_effects_reg:
  assumes "stream_step parse cl now ev lp = (effs, lp1, go)"
  shows "reg (fold (apply_effect k rid) effs st)
    = (if go then reg st else DecrementLoad (ms_machine (heap (reg st) ! k)) (reg st))"
proof (cases go)
  case True
  then obtain ds where ds: "effs = map (Emit \<circ> SseData) ds" using stream_step_ends [OF assms] by auto
  have "fold (apply_effect k rid) (map (Emit \<circ> SseData) ds) st = st" by (induction ds) simp_all
  with ds True show ?thesis by simp
next
  case False
  then show ?thesis using stream_step_ends [OF assms] by (auto simp: stream_ending_def SendWS_def)
qed

lemma pick_same: "same_loads (reg st) (reg (snd (pick c cs st)))"
  by (cases cs; cases "recv c (reg st)")
    (use same_loads_ops(5) [of "reg st" c] in \<open>auto split: received.split\<close>)

lemma run_stream_load:
  assumes "serving mid k r" and "holds k r (reg st)" and "list_all (\<lambda>(ops, now, cs). list_all quiet_op ops) turns"
    and "run_stream parse cl k c turns lp st = Some (out, b, st')"
  shows "if b then holds k r (reg st') else same_loads r (reg st')"
  using assms(2-)
proof (induction turns arbitrary: lp st out)
  case (Cons t turns)
  obtain ops now cs where t: "t = (ops, now, cs)" by (metis prod_cases3)
  obtain st1 where st1: "run_ops ops st = Some st1"
    using Cons.prems(3) t by (auto split: bind_splits)
  obtain e st2 where p: "pick c cs st1 = (e, st2)" by fastforce
  have h2: "holds k r (reg st2)"
    using Cons.prems(1,2) t st1 quiet_ops [of ops st st1] pick_same [of st1 c cs] p by (auto intro: holds_same)
  have ih: "run_stream parse cl k c turns lp' s = Some (out', b, st') \<Longrightarrow> holds k r (reg s)
      \<Longrightarrow> if b then holds k r (reg st') else same_loads r (reg st')" for lp' s out'
    using Cons.IH [of s lp' out'] Cons.prems(2) by simp
  show ?case
  proof (cases e)
    case None
    then have "run_stream parse cl k c turns lp st2 = Some (out, b, st')" using t st1 p Cons.prems(3) by simp
    then show ?thesis by (rule ih) (rule h2)
  next
    case (Some ev)
    obtain effs lp1 go where s: "stream_step parse cl now ev lp = (effs, lp1, go)" by (metis prod_cases3)
    let ?st3 = "fold (apply_effect k (cl_rid cl)) effs st2"
    have r3: "reg ?st3 = (if go then reg st2 else DecrementLoad (ms_machine (heap (reg st2) ! k)) (reg st2))"
      by (rule apply_effects_reg [OF s])
    have m: "ms_machine (heap (reg st2) ! k) = mid" using holds_facts [OF h2] assms(1) by (simp add: serving_def)
    show ?thesis
    proof (cases go)
      case True
      with t st1 p Some s r3 h2 Cons.prems(3) ih [of lp1 ?st3] show ?thesis
        by (auto split: bind_splits)
    next
      case False
      have "same_loads r (DecrementLoad mid (reg st2))"
        using DecrementLoad_returns [OF h2, of mid] assms(1) by (simp add: serving_def)
      with False t st1 p Some s r3 m Cons.prems(3) show ?thesis by (auto simp: Let_def)
    qed
  qed
qed simp

lemma send_load:
  assumes s: "serving mid k (reg st)" and q: "list_all quiet_op (at_ops a)"
    and r: "sendNonStreamingRequest parse marshal req k a st = Some (res, st')"
  shows "same_loads (reg st) (reg st')"
proof -
  have m: "ms_machine (heap (reg st) ! k) = mid" using s by (simp add: serving_def)
  obtain b r1 where i: "IncrementLoad mid (reg st) = (b, r1)" by fastforce
  show ?thesis
  proof (cases b)
    case False
    with i m r show ?thesis by (auto simp: sendNonStreamingRequest_def dest: IncrementLoad_refused)
  next
    case True
    have h1: "holds k (reg st) r1" using IncrementLoad_holds [of mid "reg st" k r1] i s True by (simp add: serving_def)
    obtain c r2 where r2: "open_request k (at_rid a) 1 r1 = Some (c, r2)"
      using r i m True by (auto simp: sendNonStreamingRequest_def split: bind_splits)
    have h2: "holds k (reg st) r2" by (rule holds_same [OF h1 open_request_same [OF r2]])
    have fin: "same_loads (reg st) (DecrementLoad mid (UnregisterChunkChannel k (at_rid a) r'))" if "holds k (reg st) r'" for r'
      using DecrementLoad_returns [OF holds_same [OF that same_loads_ops(1)], of mid] s by (simp add: serving_def)
    show ?thesis
    proof (cases "at_sends a")
      case False
      with r i m True r2 fin [OF h2] show ?thesis by (auto simp: sendNonStreamingRequest_def)
    next
      case sends: True
      let ?st0 = "SendWS k (CRequest (request_msg (at_rid a) False marshal req)) (st\<lparr>reg := r2\<rparr>)"
      obtain st1 where st1: "run_ops (at_ops a) ?st0 = Some st1"
        using r i m True r2 sends by (auto simp: sendNonStreamingRequest_def split: bind_splits)
      have h3: "holds k (reg st) (reg st1)"
        using quiet_ops [OF q st1] holds_same [OF h2] by (simp add: SendWS_def)
      obtain x r3 where rc: "(if at_timeout a then (Blocked, reg st1) else recv c (reg st1)) = (x, r3)" by fastforce
      have "holds k (reg st) (snd (recv c (reg st1)))" by (rule holds_same [OF h3 same_loads_ops(5)])
      then have h4: "holds k (reg st) r3"
        using rc h3 by (auto split: if_splits)
      show ?thesis
        using r i m True r2 sends st1 rc fin [OF h3] fin [OF h4]
        by (cases x) (auto simp: sendNonStreamingRequest_def SendWS_def)
    qed
  qed
qed

lemma attempts_load:
  assumes "coord_ok st" and "\<And>i. list_all quiet_op (at_ops (as i))" and "serving mid k (reg st)"
    and "nonstream_attempts parse marshal req mid now as n i k st = Some (resp, st')"
  shows "same_loads (reg st) (reg st')"
  using assms
proof (induction n arbitrary: i k st)
  case (Suc n)
  show ?case
  proof (cases "if i > 0 then retry_session mid (reg st) else Some k")
    case (Some k')
    have s: "serving mid k' (reg st)"
    proof (cases "i > 0")
      case True
      then show ?thesis using Some retry_session_online serving_ok Suc.prems(1) by (auto simp: coord_ok_def)
    qed (use Some Suc.prems(3) in simp)
    obtain res st1 where r: "sendNonStreamingRequest parse marshal req k' (as i) st = Some (res, st1)"
      using Suc.prems(4) Some by (auto split: bind_splits)
    have l: "same_loads (reg st) (reg st1)" by (rule send_load [OF s Suc.prems(2) r])
    show ?thesis
    proof (cases res)
      case (Inl e)
      have "coord_ok st1" using send_ok [OF Suc.prems(1), of mid k' parse marshal req "as i"] s r by (auto simp: serving_def)
      then show ?thesis using Suc.IH [of st1 k' "Suc i"] Suc.prems r Some Inl serving_same [OF s l] l
        by (auto intro: same_loads_trans)
    qed (use Suc.prems(4) Some r l in auto)
  qed (use Suc.prems(4) in auto)
qed simp

section \<open>The properties\<close>

definition load_of :: "string \<Rightarrow> registry \<Rightarrow> int option" where
  "load_of mid r = map_option (\<lambda>k. ms_load (heap r ! k)) (GetSession mid r)"

lemma same_loads_of:
  assumes "same_loads r r'" and "registry_ok r"
  shows "load_of m r' = load_of m r"
  using same_loads_facts [OF assms(1), of m] same_loads_nth [OF assms(1)] registry_okD(1) [OF assms(2)]
  by (cases "GetSession m r") (auto simp: load_of_def)

lemma holds_of:
  assumes h: "holds k r r'" and g: "GetSession mid r = Some k" and ok: "registry_ok r"
  shows "load_of m r' = (if m = mid then map_option (\<lambda>l. l + 1) else id) (load_of m r)"
proof (cases "GetSession m r")
  case (Some j)
  have j: "j < length (heap r)" "j = k \<longleftrightarrow> m = mid" using registry_okD(1) [OF ok] registry_ok_inj [OF ok] Some g by auto
  have "length (heap r') = length (heap r)" using h by (metis holds_def length_map)
  moreover have "map ms_load (heap r') ! j = (if j = k then ms_load (heap r ! k) + 1 else ms_load (heap r ! j))"
    using h j(1) by (simp add: holds_def nth_list_update)
  ultimately show ?thesis using Some h j by (auto simp: load_of_def holds_def GetSession_def)
qed (use h in \<open>simp add: load_of_def holds_def GetSession_def\<close>)

lemma handler_load:
  assumes ok: "coord_ok (sv_coord sv)"
    and q: "list_all (\<lambda>(ops, now, cs). list_all quiet_op ops) (cw_turns w)"
      "\<And>i. list_all quiet_op (at_ops (cw_attempts w i))"
    and r: "handleMachineChatCompletions E w mid kh u body sv = Some (resp, b, sv')"
  shows "load_of m (reg (sv_coord sv'))
    = (if b \<and> m = mid then map_option (\<lambda>l. l + 1) else id) (load_of m (reg (sv_coord sv)))"
proof -
  obtain res sv1 where a: "chat_admit E mid kh u body sv = (res, sv1)" by fastforce
  obtain n where n: "sv_coord sv1 = (sv_coord sv)\<lparr>requests_today := n\<rparr>"
    using chat_admit_coord [of E mid kh u body sv] a by auto
  show ?thesis
  proof (cases res)
    case (Inr p)
    obtain k req where p: "p = (k, req)" by fastforce
    have g: "GetSession mid (reg (sv_coord sv)) = Some k" using chat_admit_session a Inr p n by fastforce
    have ok': "coord_ok (sv_coord sv1)" and rok: "registry_ok (reg (sv_coord sv))" using ok n by (auto simp: coord_ok_def)
    have s: "serving mid k (reg (sv_coord sv1))" using serving_ok [OF rok g] n by simp
    have fin: "same_loads (reg (sv_coord sv1)) (reg co) \<Longrightarrow> load_of m (reg co) = load_of m (reg (sv_coord sv))" for co
      using same_loads_of [of _ "reg co" m] rok n by simp
    have held: "holds k (reg (sv_coord sv1)) (reg co) \<Longrightarrow> load_of m (reg co)
        = (if m = mid then map_option (\<lambda>l. l + 1) else id) (load_of m (reg (sv_coord sv)))" for co
      using holds_of [OF _ g rok, of "reg co" m] n by simp
    show ?thesis
    proof (cases "cq_stream req")
      case True
      define cl where "cl = \<lparr>cl_rid = at_rid (cw_attempts w 0), cl_model = cq_model req, cl_created = cw_created w\<rparr>"
      obtain x st1 where o: "open_stream (cw_marshal w) req (cl_rid cl) k (cw_sends w) (sv_coord sv1) = Some (x, st1)"
        using open_stream_ok [OF ok'] s by (fastforce simp: serving_def)
      show ?thesis
      proof (cases x)
        case (Inl out)
        with open_stream_load [OF s o] fin r a Inr p True o show ?thesis
          by (auto simp: handleMachineChatCompletions_def handleStreamingCompletion_def cl_def)
      next
        case inr: (Inr c)
        obtain out co where rs: "run_stream (cw_parse w) cl k c (cw_turns w) (stream_init (cw_start w)) st1 = Some (out, b, co)"
          "sv' = sv1\<lparr>sv_coord := co\<rparr>"
          using r a Inr p True o inr
          by (auto simp: handleMachineChatCompletions_def handleStreamingCompletion_def cl_def split: bind_splits)
        from run_stream_load [OF s _ q(1) rs(1)] open_stream_load [OF s o] inr fin [of co] held [of co] rs(2)
        show ?thesis by (cases b) simp_all
      qed
    next
      case False
      have m: "ms_machine (heap (reg (sv_coord sv1)) ! k) = mid" using s by (simp add: serving_def)
      obtain co where co: "nonstream_attempts (cw_parse w) (cw_marshal w) req mid (cw_created w) (cw_attempts w) MaxRetries 0 k
          (sv_coord sv1) = Some (resp, co)" "sv' = sv1\<lparr>sv_coord := co\<rparr>" "\<not> b"
        using r a Inr p False m
        by (auto simp: handleMachineChatCompletions_def handleNonStreamingCompletion_def split: bind_splits)
      with fin [OF attempts_load [OF ok' q(2) s co(1)]] show ?thesis by simp
    qed
  qed (use a n r in \<open>auto simp: handleMachineChatCompletions_def\<close>)
qed


text \<open>A server with the demo machine connected, and a provider that answers with one last chunk.\<close>

definition live_server :: server where
  "live_server = demo_server\<lparr>sv_coord := demo_coord\<lparr>reg := demo_registry\<rparr>\<rparr>"

definition live_world :: chat_world where
  "live_world = demo_world\<lparr>cw_turns := [([CFrame demo_env (\<lambda>_. 0) 0 (WsMsg (PChunk \<lparr>ch_request_id = ''r'',
     ch_content = ''hi'', ch_tool_calls = [], ch_done = True\<rparr>))], 1, CaseRecv)]\<rparr>"

lemma live_server_ok: "coord_ok (sv_coord live_server)"
  using demo_coord_ok demo_registry_ok by (simp add: live_server_def coord_ok_def)


section \<open>When the session goes away\<close>

lemma map_of_chans: "chunk_chan mid rid r = Some c \<Longrightarrow> GetSession mid r = Some k \<Longrightarrow> c \<in> set (session_chans (heap r ! k))"
  by (force simp: chunk_chan_def session_chans_def split: option.splits dest: map_of_SomeD)

lemma close_all_buf:
  "close_all cs r = Some r' \<Longrightarrow> c_buf (chans r' ! c) = c_buf (chans r ! c) \<or> length (chans r) \<le> c"
proof (induction cs arbitrary: r)
  case (Cons d cs)
  let ?r1 = "r\<lparr>chans := (chans r)[d := (chans r ! d)\<lparr>c_closed := True\<rparr>]\<rparr>"
  have "close_all cs ?r1 = Some r'" using Cons.prems by (auto simp: close_chan_def split: if_splits)
  from Cons.IH [OF this] show ?case by (cases "d < length (chans r)") (auto simp: nth_list_update list_update_beyond)
qed simp

text \<open>
  A reconnection: the waiting channel \<open>c\<close> is closed, and the machine has a new session without load.
\<close>

lemma reconnect_closes:
  assumes ok: "registry_ok r" and k: "GetSession mid r = Some k" and c: "chunk_chan mid rid r = Some c"
  shows "\<exists>r1. Register now (new_session mid sid u h rg) r = Some r1 \<and> registry_ok r1
    \<and> c_closed (chans r1 ! c) \<and> c_buf (chans r1 ! c) = c_buf (chans r ! c) \<and> length (heap r1) = Suc (length (heap r)) \<and> heap r1 ! k = heap r ! k
    \<and> GetSession mid r1 = Some (length (heap r)) \<and> ms_load (heap r1 ! length (heap r)) = 0
    \<and> 1 \<le> ms_max (heap r1 ! length (heap r))"
proof -
  have co: "chans_open r (session_chans (heap r ! k))" and kl: "k < length (heap r)"
    using registry_okD [OF ok k] by (simp_all add: session_ok_def)
  have cs: "c \<in> set (session_chans (heap r ! k))" by (rule map_of_chans [OF c k])
  obtain r0 where r0: "close_all (session_chans (heap r ! k)) r = Some r0" "heap r0 = heap r"
    "length (chans r0) = length (chans r)" "c_closed (chans r0 ! c)"
    using close_all_spec [OF co] cs by blast
  obtain r1 where r1: "Register now (new_session mid sid u h rg) r = Some r1" "registry_ok r1"
    using Register_ok [OF ok, of "new_session mid sid u h rg" now] new_session_load by blast
  have "c < length (chans r)" using co cs by (simp add: chans_open_def)
  then have "c_buf (chans r0 ! c) = c_buf (chans r ! c)" using close_all_buf [OF r0(1), of c] by simp
  moreover have "GetSession mid r1 = Some (length (heap r))"
    using r1(1) r0 k by (auto simp: Register_def new_session_def GetSession_def AList.update_Some_unfold)
  ultimately show ?thesis using r1 r0 k kl
    by (auto simp: Register_def new_session_def nth_append)
qed

text \<open>
  A reconnection makes the load undercounted. A stream waits on its channel, empty for the moment; the
  machine connects again and the new session admits a request, whose load is 1. The old stream then ends with
  \<open>machine_offline\<close>, and because the load is given back by machine id it takes the unit of the new
  session's request: the counter shows 0 while that request is still being served, so the
  machine can be given one request more than its capacity.
\<close>

theorem reconnect_undercounts:
  assumes ok: "coord_ok st" and k: "GetSession mid (reg st) = Some k" and c: "chunk_chan mid rid (reg st) = Some c"
    and e: "c_buf (chans (reg st) ! c) = []"
  shows "\<exists>st1 st2. run_ops [CRegistry (RConnect now mid sid u h rg), CRegistry (RIncrement mid)] st = Some st1
    \<and> load_of mid (reg st1) = Some 1
    \<and> run_stream parse cl k c [([], now', CaseRecv)] lp st1
        = Some (writeSSEError ''machine_offline'' ''machine_offline'', False, st2)
    \<and> load_of mid (reg st2) = Some 0"
proof -
  have rok: "registry_ok (reg st)" using ok by (simp add: coord_ok_def)
  have kl: "k < length (heap (reg st))" and km: "ms_machine (heap (reg st) ! k) = mid" using registry_okD [OF rok k] by simp_all
  let ?n = "length (heap (reg st))"
  obtain r1 where r1: "Register now (new_session mid sid u h rg) (reg st) = Some r1"
    "c_closed (chans r1 ! c)" "c_buf (chans r1 ! c) = c_buf (chans (reg st) ! c)" "length (heap r1) = Suc ?n" "heap r1 ! k = heap (reg st) ! k"
    "GetSession mid r1 = Some ?n" "ms_load (heap r1 ! ?n) = 0" "1 \<le> ms_max (heap r1 ! ?n)"
    using reconnect_closes [OF rok k c] by blast
  have b: "c_buf (chans r1 ! c) = []" using r1(3) e by simp
  define r2 where "r2 = upd_session ?n (\<lambda>s. s\<lparr>ms_load := ms_load s + 1, ms_requests := ms_requests s + 1\<rparr>) r1"
  have i: "IncrementLoad mid r1 = (True, r2)" using r1 by (simp add: IncrementLoad_def r2_def)
  have r2: "GetSession mid r2 = Some ?n" "heap r2 ! k = heap (reg st) ! k" "ms_load (heap r2 ! ?n) = 1"
    "length (heap r2) = Suc ?n" "chans r2 = chans r1"
    using r1 kl by (simp_all add: r2_def heap_upd_session)
  let ?st1 = "st\<lparr>reg := r2\<rparr>"
  have ops: "run_ops [CRegistry (RConnect now mid sid u h rg), CRegistry (RIncrement mid)] st = Some ?st1"
    using r1(1) i by (simp add: run_ops_def)
  have rc: "recv c r2 = (Closed, r2)" using r1(2) b r2(5) by (simp add: recv_def)
  have d: "load_of mid (DecrementLoad mid r2) = Some 0"
    using r2 by (simp add: load_of_def DecrementLoad_def on_machine_def upd_session_def GetSession_def)
  have "load_of mid (UnregisterChunkChannel k x (DecrementLoad mid r2)) = Some 0" for x
    using d r2(1,4) by (auto simp: load_of_def DecrementLoad_def on_machine_def UnregisterChunkChannel_def
        heap_upd_session)
  then show ?thesis
    using ops r2 rc km by (simp add: load_of_def run_ops_def writeSSEError_def)
qed

theorem reconnect_undercounts_witness:
  "\<exists>st st1 st2. run_ops [CRegistry (RConnect 1 ''mch_1'' ''s2'' 1 ''h1'' demo_reg), CRegistry (RIncrement ''mch_1'')] st = Some st1
    \<and> load_of ''mch_1'' (reg st1) = Some 1
    \<and> run_stream (\<lambda>_. None) demo_call 0 0 [([], 2, CaseRecv)] (stream_init 0) st1
        = Some (writeSSEError ''machine_offline'' ''machine_offline'', False, st2)
    \<and> load_of ''mch_1'' (reg st2) = Some 0"
proof -
  let ?st = "demo_coord\<lparr>reg := the (reg_step (ROpen ''mch_1'' ''r'' 32) demo_registry)\<rparr>"
  obtain r' where r': "reg_step (ROpen ''mch_1'' ''r'' 32) demo_registry = Some r'" "registry_ok r'"
    using reg_step_ok [OF demo_registry_ok] by blast
  then have ok: "coord_ok ?st" using demo_coord_ok by (simp add: coord_ok_def)
  have g: "GetSession ''mch_1'' (reg ?st) = Some 0" "chunk_chan ''mch_1'' ''r'' (reg ?st) = Some 0"
    "c_buf (chans (reg ?st) ! 0) = []"
    by (simp_all add: demo_registry_def Register_def NewRegistry_def GetSession_def new_session_def
        open_request_def make_chan_def RegisterChunkChannel_def upd_session_def chunk_chan_def)
  from reconnect_undercounts [OF ok g, of 1 "''s2''" 1 "''h1''" demo_reg "\<lambda>_. None" demo_call 2 "stream_init 0"]
  show ?thesis by blast
qed

text \<open>
  A disconnection between the checks and the opening of a stream panics the handler. The session that
  the checks found is unregistered, which sets its channel map to \<open>nil\<close>; registering the request's channel
  then writes to that map. \<open>RegisterChunkChannel\<close> holds the session's mutex without a deferred
  unlock, so the recovered panic leaves it locked.
\<close>

theorem open_after_disconnect_panics:
  assumes ok: "coord_ok (sv_coord sv)" and a: "chat_admit E mid kh u body sv = (Inr (k, req), sv1)"
    and d: "disconnect_provider E' k mid (sv_coord sv1) = Some st"
  shows "open_stream marshal req rid k sends st = None"
proof -
  have rok: "registry_ok (reg (sv_coord sv1))"
    using chat_admit_coord [of E mid kh u body sv] a ok by (auto simp: coord_ok_def)
  have k: "GetSession mid (reg (sv_coord sv1)) = Some k" using chat_admit_session [OF a] by blast
  obtain x r1 where u: "Unregister mid (reg (sv_coord sv1)) = Some (x, r1)" "reg st = r1"
    using d by (auto simp: disconnect_provider_def Let_def split: bind_splits if_splits)
  obtain r0 where r0: "close_all (session_chans (heap (reg (sv_coord sv1)) ! k)) (reg (sv_coord sv1)) = Some r0"
    "heap r0 = heap (reg (sv_coord sv1))" using close_session [OF rok k] by blast
  have "ms_chunks (heap r1 ! k) = None"
    using u(1) k r0 registry_okD(1) [OF rok k] by (auto simp: Unregister_def upd_session_def Let_def)
  then show ?thesis
    using u(2) by (simp add: open_stream_def open_request_def make_chan_def RegisterChunkChannel_def)
qed

theorem open_after_disconnect_panics_witness:
  "\<exists>st. disconnect_provider demo_env 0 ''mch_1'' (demo_coord\<lparr>reg := demo_registry, requests_today := 1\<rparr>) = Some st
    \<and> open_stream (\<lambda>_. []) (demo_request\<lparr>cq_model := ''llama3''\<rparr>) ''r'' 0 True st = None"
proof -
  have "CanAccessMachine (shift 1 demo_env) 1 ''mch_1'' demo_store = Inr True"
    by (simp add: demo_store_def CanAccessMachine_def GetMachine_def shift_def)
  then have a: "chat_admit (shift 1 demo_env) ''mch_1'' [] 1 (Some (demo_request\<lparr>cq_model := ''llama3''\<rparr>)) live_server
      = (Inr (0, demo_request\<lparr>cq_model := ''llama3''\<rparr>), live_server\<lparr>sv_coord := demo_coord\<lparr>reg := demo_registry, requests_today := 1\<rparr>\<rparr>)"
    by (simp add: chat_admit_def rate_gate_def live_server_def demo_request_def demo_registry_def Register_def
        NewRegistry_def GetSession_def new_session_def demo_reg_def HasModel_def provider_prefixes_def CutPrefix_def Let_def)
  obtain st where d: "disconnect_provider demo_env 0 ''mch_1'' (demo_coord\<lparr>reg := demo_registry, requests_today := 1\<rparr>) = Some st"
    using disconnect_ok [of "demo_coord\<lparr>reg := demo_registry, requests_today := 1\<rparr>" demo_env 0 "''mch_1''"]
      live_server_ok by (auto simp: live_server_def coord_ok_def)
  from open_after_disconnect_panics [OF live_server_ok a, of demo_env st] d show ?thesis
    by auto
qed

end
