(* ===== verification/AgentProps.thy ===== *)
theory AgentProps
  imports AgentServe ChatLoad
begin

text \<open>
  What the agent's answers guarantee to the coordinator, alone and composed with it: one terminal message per
  request, the text of the backend delivered to the client through agent, relay and streaming loop, and the
  client's options in the backend's request.
\<close>

section \<open>One terminal message\<close>

text \<open>The data lines up to the end of the stream, and whether the end was announced.\<close>

fun data_until_done :: "BackendType \<Rightarrow> (string \<Rightarrow> json option) \<Rightarrow> (json \<Rightarrow> string) \<Rightarrow> string list \<Rightarrow> backend_chunk list \<times> bool" where
  "data_until_done bt parse marshal [] = ([], False)"
| "data_until_done bt parse marshal (l # ls) =
    (case classify_line bt parse marshal l of
       SkipLine \<Rightarrow> data_until_done bt parse marshal ls
     | DoneLine \<Rightarrow> ([], True)
     | DataLine c \<Rightarrow> if bc_done c then ([c], True)
                    else (case data_until_done bt parse marshal ls of (cs, d) \<Rightarrow> (c # cs, d)))"

text \<open>The messages of a stream when every write works.\<close>

definition stream_msgs :: "(string \<Rightarrow> json option) \<Rightarrow> (json \<Rightarrow> string) \<Rightarrow> string \<Rightarrow> backend_chunk list \<times> bool \<Rightarrow> provider_msg list" where
  "stream_msgs parse marshal rid cd = map (\<lambda>c. PChunk (chunk_msg parse marshal rid c)) (fst cd)
     @ (if \<not> snd cd then [PError (unexpected_end rid)]
        else if fst cd \<noteq> [] \<and> bc_done (last (fst cd)) then [] else [PChunk (done_msg rid)])"

lemma data_not_done:
  "data_until_done bt parse marshal ls = (cs, d) \<Longrightarrow> list_all (\<lambda>c. \<not> bc_done c) (butlast cs)
     \<and> (cs \<noteq> [] \<and> bc_done (last cs) \<longrightarrow> d)"
proof (induction ls arbitrary: cs d)
  case (Cons l ls)
  show ?case
  proof (cases "data_until_done bt parse marshal ls")
    case (Pair cs' d')
    with Cons.IH [OF Pair] Cons.prems show ?thesis
      by (auto split: line_kind.splits if_splits)
  qed
qed simp

lemma stream_lines_msgs:
  "stream_lines bt parse marshal rid WriteOk (map (\<lambda>l. (l, WriteOk)) ls)
     = stream_msgs parse marshal rid (data_until_done bt parse marshal ls)"
proof (induction ls)
  case (Cons l ls)
  obtain cs d where "data_until_done bt parse marshal ls = (cs, d)" by fastforce
  with Cons show ?case
    by (auto simp: stream_msgs_def written_def split: line_kind.split)
qed (simp add: stream_msgs_def written_def)

definition terminal_msg :: "string \<Rightarrow> provider_msg \<Rightarrow> bool" where
  "terminal_msg rid m \<longleftrightarrow> m = PError (unexpected_end rid) \<or> (\<exists>c. m = PChunk c \<and> ch_request_id c = rid \<and> ch_done c)"

lemma stream_answered:
  "\<exists>cs t. handleStreamingResponse bt parse marshal rid (map (\<lambda>l. (l, WriteOk)) ls) WriteOk = map PChunk cs @ [t]
    \<and> list_all (\<lambda>c. ch_request_id c = rid \<and> \<not> ch_done c) cs \<and> terminal_msg rid t
    \<and> (t = PError (unexpected_end rid) \<longleftrightarrow> \<not> snd (data_until_done bt parse marshal ls))"
proof -
  obtain cs d where cd: "data_until_done bt parse marshal ls = (cs, d)" by fastforce
  note nd = data_not_done [OF cd]
  have msgs: "handleStreamingResponse bt parse marshal rid (map (\<lambda>l. (l, WriteOk)) ls) WriteOk = stream_msgs parse marshal rid (cs, d)"
    unfolding handleStreamingResponse_def stream_lines_msgs cd ..
  let ?f = "chunk_msg parse marshal rid"
  have f: "ch_request_id (?f c) = rid" "ch_done (?f c) = bc_done c" for c by (simp_all add: chunk_msg_def)
  show ?thesis
  proof (cases "cs \<noteq> [] \<and> bc_done (last cs)")
    case True
    then have "stream_msgs parse marshal rid (cs, d) = map PChunk (map ?f (butlast cs)) @ [PChunk (?f (last cs))]"
      using nd by (cases cs rule: rev_cases) (auto simp: stream_msgs_def)
    with True nd f show ?thesis unfolding msgs cd
      by (intro exI [of _ "map ?f (butlast cs)"] exI [of _ "PChunk (?f (last cs))"])
        (auto simp: list_all_iff terminal_msg_def)
  next
    case False
    then have n: "list_all (\<lambda>c. \<not> bc_done c) cs"
      using nd by (cases cs rule: rev_cases) auto
    show ?thesis unfolding msgs cd
      by (rule exI [of _ "map ?f cs"], rule exI [of _ "if d then PChunk (done_msg rid) else PError (unexpected_end rid)"])
        (use False n f in \<open>auto simp: stream_msgs_def list_all_iff terminal_msg_def done_msg_def\<close>)
  qed
qed

text \<open>
  C14: A streamed request is answered to the end. While the connection works, whatever lines the backend
  sends and wherever they stop, the agent writes chunks of the request that are not marked done and then
  exactly one terminal message: a chunk marked done, or the error \<open>stream ended unexpectedly\<close> when the backend
  never announced the end.
\<close>

theorem stream_answered_to_end:
  "\<exists>cs t. handleStreamingResponse bt parse marshal rid (map (\<lambda>l. (l, WriteOk)) ls) WriteOk = map PChunk cs @ [t]
    \<and> list_all (\<lambda>c. ch_request_id c = rid \<and> \<not> ch_done c) cs \<and> terminal_msg rid t
    \<and> (t = PError (unexpected_end rid) \<longleftrightarrow> \<not> snd (data_until_done bt parse marshal ls))"
  by (rule stream_answered)

section \<open>Silence\<close>

text \<open>The answer of the backend, decoded by its type.\<close>

definition decode_answer :: "BackendType \<Rightarrow> (string \<Rightarrow> json option) \<Rightarrow> (json \<Rightarrow> string) \<Rightarrow> string \<Rightarrow> backend_answer option" where
  "decode_answer bt parse marshal d = Option.bind (parse d) (if bt = BackendOpenAI then openai_answer marshal else ollama_answer marshal)"

lemma nonstreaming_eq: "handleNonStreamingResponse bt parse marshal rid model data WriteOk
    = (case Option.bind data (decode_answer bt parse marshal) of None \<Rightarrow> []
       | Some b \<Rightarrow> [PResponse (response_msg parse marshal rid model b)])"
  by (cases data) (simp_all add: handleNonStreamingResponse_def decode_answer_def written_def split: option.split)

text \<open>
  When a non-streamed request is left without an answer. With a working connection and a request that was
  not cancelled, the agent writes exactly one message (a response, or an error for a backend that is
  unreachable or answers outside 2xx), except in one case: the backend answered 2xx and the body could not
  be read or decoded. Then it writes nothing, and the coordinator waits for its total timeout.
\<close>

theorem unreadable_answer_is_silent:
  assumes "rw_conn w = WriteOk" and "\<not> rw_cancelled w" and "\<not> rq_stream msg"
    and "backend_body parse marshal msg = Inr body"
  shows "(serve_request bt parse marshal msg w = []
      \<longleftrightarrow> (\<exists>status d ls. rw_exchange w body = Answered status d ls \<and> 200 \<le> status \<and> status < 300
            \<and> (rw_body_ok w = False \<or> decode_answer bt parse marshal d = None)))
    \<and> length (serve_request bt parse marshal msg w) \<le> 1"
  using assms
  by (cases "rw_exchange w body")
    (auto simp: serve_request_def written_def nonstreaming_eq not_less Let_def split: option.splits)

definition demo_msg :: RequestMsg where
  "demo_msg = \<lparr>rq_request_id = ''r'', rq_model = ''llama3'', rq_messages = ''M'', rq_stream = False, rq_tools = [],
     rq_tool_choice = [], rq_options = []\<rparr>"

theorem unreadable_answer_is_silent_witness:
  "serve_request BackendOllama demo_parse (\<lambda>_. []) demo_msg
     \<lparr>rw_exchange = \<lambda>_. Answered 200 ''<html>'' [], rw_cancelled = False, rw_body_ok = True, rw_conn = WriteOk\<rparr> = []"
proof -
  let ?w = "\<lparr>rw_exchange = \<lambda>_. Answered 200 ''<html>'' [], rw_cancelled = False, rw_body_ok = True, rw_conn = WriteOk\<rparr>"
  obtain body where b: "backend_body demo_parse (\<lambda>_. []) demo_msg = Inr body"
    by (simp add: backend_body_def demo_msg_def normalizeMessagesForOllama_def demo_parse_def merge_options_def
        raw_entry_def encode_entries_def)
  have "decode_answer BackendOllama demo_parse (\<lambda>_. []) ''<html>'' = None"
    by (simp add: decode_answer_def demo_parse_def)
  then show ?thesis
    using unreadable_answer_is_silent [OF _ _ _ b, of ?w BackendOllama] by (simp add: demo_msg_def)
qed

section \<open>From the backend to the client\<close>

text \<open>What \<open>relayChunk\<close> puts in the channel for a chunk message.\<close>

definition relay_of :: "ChunkMsg \<Rightarrow> ChunkRelay" where
  "relay_of m = \<lparr>cr_content = ch_content m, cr_tool_calls = ch_tool_calls m, cr_done = ch_done m, cr_err = [], cr_tokens = 0\<rparr>"

text \<open>One frame of the provider, and the turn of the streaming loop that takes it.\<close>

definition frame_turn :: "hostenv \<Rightarrow> (string \<Rightarrow> int) \<Rightarrow> nat \<Rightarrow> int \<times> ChunkMsg \<Rightarrow> turn" where
  "frame_turn E usage k tm = ([CFrame E usage k (WsMsg (PChunk (snd tm)))], fst tm, CaseRecv)"

lemma frame_turn_pair: "frame_turn E usage k (t, m) = ([CFrame E usage k (WsMsg (PChunk m))], t, CaseRecv)"
  by (simp add: frame_turn_def)

text \<open>A stream that waits: its channel is registered, open and empty.\<close>

definition waiting :: "string \<Rightarrow> nat \<Rightarrow> string \<Rightarrow> nat \<Rightarrow> coord \<Rightarrow> bool" where
  "waiting mid k rid c st \<longleftrightarrow> coord_ok st \<and> GetSession mid (reg st) = Some k \<and> chunk_chan mid rid (reg st) = Some c
     \<and> c_buf (chans (reg st) ! c) = [] \<and> 0 < c_cap (chans (reg st) ! c)"

lemma waiting_facts:
  assumes "waiting mid k rid c st"
  shows "coord_ok st" "GetSession mid (reg st) = Some k" "chunk_chan mid rid (reg st) = Some c"
    "ms_machine (heap (reg st) ! k) = mid" "k < length (heap (reg st))"
    "c < length (chans (reg st))" "\<not> c_closed (chans (reg st) ! c)"
  using assms chunk_chan_open [of "reg st" mid rid c] registry_okD [of "reg st" mid k]
  by (auto simp: waiting_def coord_ok_def)

lemma frame_delivers:
  assumes w: "waiting mid k rid c st" and m: "ch_request_id m = rid"
  shows "\<exists>st1. run_ops [CFrame E usage k (WsMsg (PChunk m))] st = Some st1
    \<and> recv c (reg st1) = (Got (relay_of m), reg st1\<lparr>chans := chans (reg st)\<rparr>)
    \<and> (if ch_done m then True else waiting mid k rid c (st1\<lparr>reg := reg st1\<lparr>chans := chans (reg st)\<rparr>\<rparr>))"
proof -
  note f = waiting_facts [OF w]
  let ?ch = "chans (reg st) ! c"
  have b: "c_buf ?ch = []" "0 < c_cap ?ch" using w by (simp_all add: waiting_def)
  let ?r1 = "(reg st)\<lparr>chans := (chans (reg st))[c := ?ch\<lparr>c_buf := [relay_of m]\<rparr>]\<rparr>"
  have s: "try_send c (relay_of m) (reg st) = Some (True, ?r1)" using f(7) b by (simp add: try_send_def Let_def)
  obtain st1 where st1: "relayChunk E mid m st = Some st1" "coord_ok st1" using relayChunk_ok [OF f(1)] by blast
  have eq: "reg st1 = AddTokens mid 1 (if ch_done m then UnregisterChunkChannel k rid ?r1 else ?r1)"
    using st1(1) s f(2,3) m by (auto simp: relayChunk_def relay_of_def)
  have run: "run_ops [CFrame E usage k (WsMsg (PChunk m))] st = Some st1"
    using st1(1) f(4) by (simp add: run_ops_def read_step_def Let_def)
  have ch: "chans (reg st1) = (chans (reg st))[c := ?ch\<lparr>c_buf := [relay_of m]\<rparr>]"
    by (simp add: eq AddTokens_def on_machine_def UnregisterChunkChannel_def split: option.split)
  have restored: "(chans (reg st1))[c := (chans (reg st1) ! c)\<lparr>c_buf := []\<rparr>] = chans (reg st)"
    unfolding ch using f(6) b(1) by (simp add: list_update_same_conv)
  have rc: "recv c (reg st1) = (Got (relay_of m), reg st1\<lparr>chans := chans (reg st)\<rparr>)"
    using restored ch f(6) by (simp add: recv_def Let_def)
  show ?thesis
  proof (cases "ch_done m")
    case False
    let ?r2 = "reg st1\<lparr>chans := chans (reg st)\<rparr>"
    have "registry_ok (snd (recv c (reg st1)))" using recv_ok st1(2) by (simp add: coord_ok_def)
    then have ok: "coord_ok (st1\<lparr>reg := ?r2\<rparr>)" using rc st1(2) by (simp add: coord_ok_def)
    have g: "GetSession mid ?r2 = Some k" and h: "ms_chunks (heap ?r2 ! k) = ms_chunks (heap (reg st) ! k)"
      using eq False f(2,5) by (simp_all add: AddTokens_def on_machine_def GetSession_def upd_session_def)
    then have "waiting mid k rid c (st1\<lparr>reg := ?r2\<rparr>)"
      using ok f(2,3) w by (simp add: waiting_def chunk_chan_def)
    with run rc False show ?thesis by auto
  qed (use run rc in auto)
qed

lemma stream_text_emitted: "stream_text effs = concat (map sse_content (emitted effs))"
  by (induction effs rule: emitted.induct) simp_all

lemma going_effects:
  assumes "stream_step parse cl now ev lp = (effs, lp1, True)"
  shows "fold (apply_effect k rid) effs st = st"
proof -
  obtain ds where ds: "effs = map (Emit \<circ> SseData) ds" using stream_step_ends [OF assms] by auto
  have "fold (apply_effect k rid) (map (Emit \<circ> SseData) ds) st = st" by (induction ds) simp_all
  then show ?thesis by (simp add: ds)
qed

definition relayed :: "(int \<times> ChunkMsg) list \<Rightarrow> (int \<times> ChunkRelay) list" where
  "relayed tms = map (\<lambda>(t, m). (t, relay_of m)) tms"

lemma relayed_simps [simp]:
  "relayed [] = []" "relayed ((t, m) # tms) = (t, relay_of m) # relayed tms"
  "relayed (tms @ tms') = relayed tms @ relayed tms'"
  by (simp_all add: relayed_def)

lemma frames_run:
  assumes "waiting mid k rid c st" and "list_all (\<lambda>(t, m). ch_request_id m = rid \<and> \<not> ch_done m) tms"
    and "ch_request_id d = rid" and "ch_done d"
  shows "\<exists>effs lp' st'. run_stream parse cl k c (map (frame_turn E usage k) (tms @ [(td, d)])) lp st = Some (emitted effs, False, st')
    \<and> stream_loop_run parse cl (chunk_events (relayed (tms @ [(td, d)]))) lp = (effs, lp', False)"
  using assms(1,2)
proof (induction tms arbitrary: st lp)
  case Nil
  obtain st1 where st1: "run_ops [CFrame E usage k (WsMsg (PChunk d))] st = Some st1"
    "recv c (reg st1) = (Got (relay_of d), reg st1\<lparr>chans := chans (reg st)\<rparr>)"
    using frame_delivers [OF Nil.prems(1) assms(3)] by blast
  obtain effs lp1 where s: "stream_step parse cl td (FromChannel (Some (relay_of d))) lp = (effs, lp1, False)"
    using assms(4) by (simp add: relay_of_def on_chunk_def Let_def)
  show ?case using st1 s by (simp add: frame_turn_def Let_def)
next
  case (Cons x tms)
  obtain t m where x: "x = (t, m)" by fastforce
  have m: "ch_request_id m = rid" "\<not> ch_done m" using Cons.prems(2) x by simp_all
  obtain st1 where st1: "run_ops [CFrame E usage k (WsMsg (PChunk m))] st = Some st1"
    "recv c (reg st1) = (Got (relay_of m), reg st1\<lparr>chans := chans (reg st)\<rparr>)"
    "waiting mid k rid c (st1\<lparr>reg := reg st1\<lparr>chans := chans (reg st)\<rparr>\<rparr>)"
    using frame_delivers [OF Cons.prems(1) m(1)] m(2) by auto
  obtain effs lp1 where s: "stream_step parse cl t (FromChannel (Some (relay_of m))) lp = (effs, lp1, True)"
    using on_chunk_says [of "relay_of m" parse cl t lp] m(2) by (auto simp: relay_of_def)
  have e: "emitted (effs @ es) = emitted effs @ emitted es" for es
    by (induction effs rule: emitted.induct) simp_all
  from Cons.IH [OF st1(3), of lp1] Cons.prems(2) obtain es lp' st' where
    "run_stream parse cl k c (map (frame_turn E usage k) (tms @ [(td, d)])) lp1
       (st1\<lparr>reg := reg st1\<lparr>chans := chans (reg st)\<rparr>\<rparr>) = Some (emitted es, False, st')"
    "stream_loop_run parse cl (chunk_events (relayed (tms @ [(td, d)]))) lp1 = (es, lp', False)"
    by auto
  then show ?case
    using st1(1,2) s x e [of es] going_effects [OF s, of k "cl_rid cl"]
    by (intro exI [of _ "effs @ es"] exI [of _ lp'] exI [of _ st']) (simp add: frame_turn_pair Let_def)
qed

definition chunk_text :: "backend_chunk \<Rightarrow> string" where
  "chunk_text c = (if bc_content c = [] \<and> bc_thinking c \<noteq> [] then bc_thinking c else bc_content c)"

lemma stream_msgs_text:
  "stream_msgs parse marshal rid cd = map PChunk ms \<Longrightarrow> concat (map ch_content ms) = concat (map chunk_text (fst cd))"
proof -
  assume a: "stream_msgs parse marshal rid cd = map PChunk ms"
  let ?f = "chunk_msg parse marshal rid"
  have inj: "map PChunk xs = map PChunk ys \<Longrightarrow> xs = ys" for xs ys by (induction xs ys rule: list_induct2') auto
  have "snd cd"
  proof (rule ccontr)
    assume "\<not> snd cd"
    then have "PError (unexpected_end rid) \<in> set (map PChunk ms)" using a [symmetric] by (simp add: stream_msgs_def)
    then show False by auto
  qed
  then have "map PChunk ms = map PChunk (map ?f (fst cd) @ (if fst cd \<noteq> [] \<and> bc_done (last (fst cd)) then [] else [done_msg rid]))"
    using a [symmetric] by (simp add: stream_msgs_def)
  from inj [OF this] show ?thesis
    by (simp add: chunk_msg_def chunk_text_def [abs_def] done_msg_def comp_def)
qed



section \<open>The client's options\<close>

lemma map_of_put_entry: "map_of (put_entry kv m) k = (if k = fst kv then Some (Some (snd kv)) else map_of m k)"
  by (auto simp: put_entry_def map_of_filter_neq)

lemma map_of_merge: "map_of (foldr put_entry opts m) k
    = (case map_of opts k of Some v \<Rightarrow> Some (Some v) | None \<Rightarrow> map_of m k)"
proof (induction opts)
  case (Cons kv opts)
  then show ?case by (cases kv) (simp add: map_of_put_entry)
qed simp

lemma list_all_put: "list_all (\<lambda>(k, v). v \<noteq> None) m \<Longrightarrow> list_all (\<lambda>(k, v). v \<noteq> None) (foldr put_entry opts m)"
  by (induction opts) (auto simp: put_entry_def list_all_iff)

lemma jfield_encoded:
  "encode_entries m = Inr body \<Longrightarrow> jfield k body = Option.bind (map_of m k) (\<lambda>v. v)"
proof -
  assume "encode_entries m = Inr body"
  then have a: "list_all (\<lambda>(k, v). v \<noteq> None) m" "body = JObj (map (\<lambda>(k, v). (k, the v)) m)"
    by (auto simp: encode_entries_def split: if_splits)
  have "map_of (map (\<lambda>(k, v). (k, the v)) m) k = Option.bind (map_of m k) (\<lambda>v. v)"
    using a(1) by (induction m) auto
  then show ?thesis by (simp add: a(2) jfield_def)
qed

text \<open>The options as the coordinator encodes them: only the ones the client set.\<close>

definition client_options :: "ChatCompletionRequest \<Rightarrow> (string \<times> json) list" where
  "client_options req =
     (if cq_temperature req \<noteq> 0 then [(''temperature'', JNum (cq_temperature req))] else [])
   @ (if cq_top_p req \<noteq> 0 then [(''top_p'', JNum (cq_top_p req))] else [])
   @ (if cq_max_tokens req \<noteq> 0 then [(''num_predict'', jint (cq_max_tokens req))] else [])"

lemma buildOptions_client: "buildOptions req = (if client_options req = [] then None else Some (JObj (client_options req)))"
  by (simp add: buildOptions_def client_options_def Let_def)

text \<open>
  The client's options reach the backend. If the messages and the raw tools decode and the encoded options
  decode to what was encoded, the body that the agent posts for the coordinator's request has, at its top level,
  exactly the sampling options that the client set, and they never replace the model, the messages or the
  stream flag. (The limit is named \<open>num_predict\<close> whatever the backend.)
\<close>

theorem options_reach_backend:
  assumes m: "normalizeMessagesForOllama parse marshal (cq_messages req) = Inr msgs"
    and t: "cq_tools req = [] \<or> parse (cq_tools req) \<noteq> None" "cq_tool_choice req = [] \<or> parse (cq_tool_choice req) \<noteq> None"
    and o1: "client_options req = [] \<or> (marshal (JObj (client_options req)) \<noteq> []
        \<and> parse (marshal (JObj (client_options req))) = Some (JObj (client_options req)))"
  shows "\<exists>body. backend_body parse marshal (request_msg rid s marshal req) = Inr body
    \<and> jfield ''model'' body = Some (JStr (cq_model req)) \<and> jfield ''messages'' body = Some (JArr msgs)
    \<and> jfield ''stream'' body = Some (JBool s)
    \<and> jfield ''temperature'' body = (if cq_temperature req \<noteq> 0 then Some (JNum (cq_temperature req)) else None)
    \<and> jfield ''top_p'' body = (if cq_top_p req \<noteq> 0 then Some (JNum (cq_top_p req)) else None)
    \<and> jfield ''num_predict'' body = (if cq_max_tokens req \<noteq> 0 then Some (jint (cq_max_tokens req)) else None)"
proof -
  define base where "base = [(''model'', Some (JStr (cq_model req))), (''messages'', Some (JArr msgs)), (''stream'', Some (JBool s))]
    @ raw_entry parse ''tools'' (cq_tools req) @ raw_entry parse ''tool_choice'' (cq_tool_choice req)"
  have "list_all (\<lambda>(k, v). v \<noteq> None) base" using t by (auto simp: base_def raw_entry_def)
  then have "list_all (\<lambda>(k, v). v \<noteq> None) (foldr put_entry (client_options req) base)" by (rule list_all_put)
  then obtain body where body: "encode_entries (foldr put_entry (client_options req) base) = Inr body"
    by (simp add: encode_entries_def)
  have "merge_options parse (rq_options (request_msg rid s marshal req)) base = foldr put_entry (client_options req) base"
    using o1 by (auto simp: request_msg_def buildOptions_client merge_options_def)
  then have b: "backend_body parse marshal (request_msg rid s marshal req) = Inr body"
    using body m by (simp add: backend_body_def request_msg_def base_def)
  have f: "jfield k body = (case map_of (client_options req) k of Some v \<Rightarrow> Some v | None \<Rightarrow> Option.bind (map_of base k) (\<lambda>v. v))" for k
    by (simp add: jfield_encoded [OF body] map_of_merge split: option.split)
  have p: "map_of base k = None" if "k \<in> {''temperature'', ''top_p'', ''num_predict''}" for k
    using that by (auto simp: base_def raw_entry_def)
  show ?thesis
    by (intro exI [of _ body] conjI b) (simp_all add: f p client_options_def base_def [symmetric], simp_all add: base_def)
qed

theorem options_reach_backend_witness:
  "\<exists>body. backend_body demo_parse (\<lambda>_. ''O'') (request_msg ''r'' True (\<lambda>_. ''O'')
       (demo_request\<lparr>cq_messages := ''M'', cq_temperature := 1\<rparr>)) = Inr body
    \<and> jfield ''temperature'' body = Some (JNum 1) \<and> jfield ''top_p'' body = None"
proof -
  let ?req = "demo_request\<lparr>cq_messages := ''M'', cq_temperature := 1\<rparr>"
  obtain msgs where m: "normalizeMessagesForOllama demo_parse (\<lambda>_. ''O'') (cq_messages ?req) = Inr msgs"
    by (simp add: normalizeMessagesForOllama_def demo_parse_def)
  have t: "cq_tools ?req = [] \<or> demo_parse (cq_tools ?req) \<noteq> None"
    "cq_tool_choice ?req = [] \<or> demo_parse (cq_tool_choice ?req) \<noteq> None" by (simp_all add: demo_request_def)
  have "client_options ?req = [(''temperature'', JNum 1)]" by (simp add: client_options_def demo_request_def)
  then have o1: "client_options ?req = [] \<or> ((\<lambda>_. ''O'') (JObj (client_options ?req)) \<noteq> []
      \<and> demo_parse ((\<lambda>_. ''O'') (JObj (client_options ?req))) = Some (JObj (client_options ?req)))"
    by (simp add: demo_parse_def)
  from options_reach_backend [OF m t o1, of "''r''" True] show ?thesis by (auto simp: demo_request_def)
qed

end
