(* ===== verification/AgentRun.thy ===== *)
theory AgentRun
  imports AgentServe
begin

text \<open>
  The agent's life: configuration defaults, model discovery, connecting, the read loop and the reconnection
  with backoff (\<open>internal/provider/agent.go\<close>, \<open>discovery.go\<close>), and the bookkeeping of concurrent
  requests as a transition system of its critical sections.
\<close>

section \<open>Configuration and discovery\<close>

record Config =
  cfg_url :: string
  cfg_token :: string
  cfg_ollama :: string
  cfg_models :: "string list"
  cfg_max :: int
  cfg_description :: string
  cfg_rmin :: int
  cfg_rmax :: int

text \<open>\<open>host\<close> is \<open>OLLAMA_HOST\<close>, \<open>probe\<close> says whether the local server answers.\<close>

definition autoDetectOllama :: "string \<Rightarrow> bool \<Rightarrow> string \<Rightarrow> string" where
  "autoDetectOllama host probe cfgURL =
    (if host \<noteq> [] then
       (if \<not> HasPrefix host ''http://'' \<and> \<not> HasPrefix host ''https://'' then ''http://'' @ host else host)
     else if probe then ''http://localhost:11434''
     else cfgURL)"

definition NewAgent :: "string \<Rightarrow> bool \<Rightarrow> string \<Rightarrow> Config \<Rightarrow> Config" where
  "NewAgent host probe hostname cfg = cfg\<lparr>
     cfg_ollama := (if cfg_ollama cfg = [] then autoDetectOllama host probe ''http://localhost:11434'' else cfg_ollama cfg),
     cfg_max := (if cfg_max cfg \<le> 0 then 1 else cfg_max cfg),
     cfg_rmin := (if cfg_rmin cfg = 0 then 1 * second else cfg_rmin cfg),
     cfg_rmax := (if cfg_rmax cfg = 0 then 60 * second else cfg_rmax cfg),
     cfg_description := (if cfg_description cfg = [] then hostname else cfg_description cfg)\<rparr>"

text \<open>
  An HTTP GET with the JSON it decodes to: the text of the error, or a status with the names in the body or the
  error of decoding it.
\<close>

datatype listing = GetFails string | Listed int "string + string list"

fun fetch_names :: "string \<Rightarrow> listing \<Rightarrow> string + string list" where
  "fetch_names path (GetFails e) = Inl (path @ '': '' @ e)"
| "fetch_names path (Listed status body) =
    (if status < 200 \<or> status \<ge> 300 then Inl (path @ '': HTTP '' @ Itoa status)
     else case body of Inl e \<Rightarrow> Inl (''parse '' @ drop 7 path @ '': '' @ e) | Inr names \<Rightarrow> Inr names)"

definition FetchModels :: "listing \<Rightarrow> listing \<Rightarrow> string + (string list \<times> BackendType)" where
  "FetchModels tags models =
    (case fetch_names ''ollama /api/tags'' tags of
       Inr names \<Rightarrow> Inr (names, BackendOllama)
     | Inl e \<Rightarrow> (case fetch_names ''openai /v1/models'' models of
         Inr names \<Rightarrow> Inr (names, BackendOpenAI)
       | Inl e2 \<Rightarrow> Inl (''model discovery failed: ollama /api/tags: '' @ e @ ''; openai /v1/models: '' @ e2)))"

definition discoverModels :: "Config \<Rightarrow> listing \<Rightarrow> listing \<Rightarrow> string + (string list \<times> BackendType)" where
  "discoverModels cfg tags models =
    (case FetchModels tags models of
       Inl e \<Rightarrow> Inl e
     | Inr (all, bt) \<Rightarrow>
         Inr (if cfg_models cfg \<noteq> [] then filter (\<lambda>m. m \<in> set (cfg_models cfg)) all else all, bt))"

section \<open>Connecting\<close>

datatype agent_action = StartRequest RequestMsg | CancelRequest string

datatype coord_frame = FRequest RequestMsg | FCancel string | FAck | FUnknown | FMalformed

text \<open>What a turn of the read loop meets: the connection set to \<open>nil\<close> by another goroutine, a read error, a frame.\<close>

datatype read_event = ConnNil | ReadFails | Frame coord_frame

text \<open>The result is \<open>None\<close> while the loop runs, then the error it returns or \<open>nil\<close>.\<close>

fun agent_readLoop :: "read_event list \<Rightarrow> agent_action list \<times> (string + unit) option" where
  "agent_readLoop [] = ([], None)"
| "agent_readLoop (ConnNil # evs) = ([], Some (Inr ()))"
| "agent_readLoop (ReadFails # evs) = ([], Some (Inl ''read''))"
| "agent_readLoop (Frame f # evs) =
    (case agent_readLoop evs of (acts, r) \<Rightarrow>
       ((case f of FRequest m \<Rightarrow> [StartRequest m] | FCancel rid \<Rightarrow> [CancelRequest rid] | _ \<Rightarrow> []) @ acts, r))"

record connect_world =
  cn_dials :: bool
  cn_tags :: listing
  cn_models :: listing
  cn_registers :: bool
  cn_reply :: "(string \<times> string) option"
  cn_hardware :: string
  cn_events :: "read_event list"

text \<open>
  \<open>connect\<close>: the register message, if it was written, the actions of the read loop, and the result. The
  reply is the type and provider id of the decoded frame, \<open>None\<close> when it could not be read or decoded.
\<close>

definition agent_connect :: "Config \<Rightarrow> connect_world \<Rightarrow> RegisterMsg option \<times> agent_action list \<times> (string + unit) option" where
  "agent_connect cfg w =
    (if \<not> cn_dials w then (None, [], Some (Inl ''dial''))
     else
       let models = (case discoverModels cfg (cn_tags w) (cn_models w) of Inl e \<Rightarrow> cfg_models cfg | Inr (ms, bt) \<Rightarrow> ms) in
       if models = [] then (None, [], Some (Inl ''no models available''))
       else if \<not> cn_registers w then (None, [], Some (Inl ''register''))
       else
         let rg = \<lparr>rg_models = models, rg_max_concurrent = cfg_max cfg, rg_description = cfg_description cfg,
                   rg_hardware = cn_hardware w\<rparr>
         in case cn_reply w of
              None \<Rightarrow> (Some rg, [], Some (Inl ''read registered''))
            | Some (ty, pid) \<Rightarrow>
                if ty \<noteq> TypeRegistered then (Some rg, [], Some (Inl ''unexpected registration response''))
                else (case agent_readLoop (cn_events w) of (acts, r) \<Rightarrow> (Some rg, acts, r)))"

section \<open>Reconnecting\<close>

text \<open>
  The new backoff; \<open>rnd\<close> is the random number that \<open>rand.Int64N\<close> reduces, which panics on a bound that is
  not positive.
\<close>

definition next_backoff :: "int \<Rightarrow> int \<Rightarrow> nat \<Rightarrow> int option" where
  "next_backoff rmax backoff rnd =
    (if backoff div 4 \<le> 0 then None
     else let jitter = int rnd mod (backoff div 4);
              b = int64 (int64 (backoff * 2) + jitter)
          in Some (if b > rmax then rmax else b))"

text \<open>
  \<open>Run\<close> for connections that all end: the waits between them. A connection that returned \<open>nil\<close> resets the
  backoff and is followed at once by the next.
\<close>

fun run_waits :: "Config \<Rightarrow> (connect_world \<times> nat) list \<Rightarrow> int \<Rightarrow> int list option" where
  "run_waits cfg [] backoff = Some []"
| "run_waits cfg ((w, rnd) # ws) backoff =
    (case snd (snd (agent_connect cfg w)) of
       None \<Rightarrow> Some []
     | Some (Inr u) \<Rightarrow> run_waits cfg ws (cfg_rmin cfg)
     | Some (Inl e) \<Rightarrow>
         do {
           b \<leftarrow> next_backoff (cfg_rmax cfg) backoff rnd;
           rest \<leftarrow> run_waits cfg ws b;
           Some (backoff # rest)
         })"

definition agent_Run :: "Config \<Rightarrow> (connect_world \<times> nat) list \<Rightarrow> string + int list option" where
  "agent_Run cfg ws =
    (if cfg_token cfg = [] then Inl ''no token provided. Get a provider token at /share''
     else Inr (run_waits cfg ws (cfg_rmin cfg)))"

section \<open>The tickers\<close>

text \<open>
  One tick of the heartbeat ticker at the instant \<open>now\<close>: the connection read under \<open>mu\<close>, whether the write to it
  worked, and the connection found when \<open>mu\<close> is taken again. The result is what happened, \<open>a.conn\<close>
  afterwards, and whether the loop goes on.
\<close>

datatype beat_effect = Beat int nat | CloseConn nat

record beat_tick =
  bt_conn :: "nat option"
  bt_writes :: bool
  bt_after :: "nat option"

definition heartbeat_tick :: "int \<Rightarrow> beat_tick \<Rightarrow> beat_effect list \<times> nat option \<times> bool" where
  "heartbeat_tick now t =
    (case bt_conn t of
       None \<Rightarrow> ([], bt_after t, False)
     | Some c \<Rightarrow>
         if bt_writes t then ([Beat now c], bt_after t, True)
         else ([CloseConn c], if bt_after t = Some c then None else bt_after t, False))"

text \<open>The loop from \<open>start\<close>; the end of the list is the end of its context.\<close>

fun heartbeatLoop :: "int \<Rightarrow> beat_tick list \<Rightarrow> beat_effect list" where
  "heartbeatLoop start [] = []"
| "heartbeatLoop start (t # ts) =
    (let now = start + HeartbeatInterval in
     case heartbeat_tick now t of
       (es, _, True) \<Rightarrow> es @ heartbeatLoop now ts
     | (es, _, False) \<Rightarrow> es)"

text \<open>The check of the model server: whether the request could be built, and the status of the answer, if any.\<close>

definition health_url :: "string \<Rightarrow> string" where
  "health_url ollama = TrimRight1 ollama (CHR ''/'') @ ''/health''"

definition health_check :: "bool \<Rightarrow> int option \<Rightarrow> bool" where
  "health_check built status \<longleftrightarrow> built \<and> status = Some 200"

datatype health_note = Recovered | Unreachable

text \<open>The health loop: the messages it logs and the flag \<open>backendOK\<close> at its end.\<close>

fun backendHealthLoop :: "bool \<Rightarrow> bool \<Rightarrow> (bool \<times> int option) list \<Rightarrow> health_note list \<times> bool" where
  "backendHealthLoop backendOK wasOK [] = ([], backendOK)"
| "backendHealthLoop backendOK wasOK ((built, status) # cs) =
    (let ok = health_check built status in
     case backendHealthLoop ok ok cs of (notes, final) \<Rightarrow>
       ((if ok \<and> \<not> wasOK then [Recovered] else if \<not> ok \<and> wasOK then [Unreachable] else []) @ notes, final))"

section \<open>Concurrent requests\<close>

text \<open>
  Each message starts a goroutine whose critical sections are steps: admission under \<open>mu\<close>, entering the cancel
  function under \<open>reqMu\<close>, and at the end giving the load back and deleting the entry. A handler is its index;
  \<open>ar_cancelled\<close> collects those whose cancel function was called.
\<close>

datatype phase = Accepted | Serving | Leaving | Gone

record agent_requests =
  ar_load :: int
  ar_entries :: "(string \<times> nat) list"
  ar_handlers :: "(string \<times> phase) list"
  ar_cancelled :: "nat list"

definition no_requests :: agent_requests where
  "no_requests = \<lparr>ar_load = 0, ar_entries = [], ar_handlers = [], ar_cancelled = []\<rparr>"

definition set_phase :: "nat \<Rightarrow> phase \<Rightarrow> agent_requests \<Rightarrow> agent_requests" where
  "set_phase h p a = a\<lparr>ar_handlers := (ar_handlers a)[h := (fst (ar_handlers a ! h), p)]\<rparr>"

inductive agent_step :: "int \<Rightarrow> agent_requests \<Rightarrow> agent_requests \<Rightarrow> bool" for mx where
  refuse: "ar_load a \<ge> mx \<Longrightarrow> agent_step mx a a"
| admit: "ar_load a < mx \<Longrightarrow>
    agent_step mx a (a\<lparr>ar_load := ar_load a + 1, ar_handlers := ar_handlers a @ [(rid, Accepted)]\<rparr>)"
| enter: "h < length (ar_handlers a) \<Longrightarrow> ar_handlers a ! h = (rid, Accepted) \<Longrightarrow>
    agent_step mx a (set_phase h Serving (a\<lparr>ar_entries := AList.update rid h (ar_entries a)\<rparr>))"
| cancel: "map_of (ar_entries a) rid = Some h \<Longrightarrow>
    agent_step mx a (a\<lparr>ar_cancelled := h # ar_cancelled a, ar_entries := AList.delete rid (ar_entries a)\<rparr>)"
| cancel_unknown: "map_of (ar_entries a) rid = None \<Longrightarrow> agent_step mx a a"
| release: "h < length (ar_handlers a) \<Longrightarrow> ar_handlers a ! h = (rid, Serving) \<Longrightarrow>
    agent_step mx a (set_phase h Leaving (a\<lparr>ar_load := ar_load a - 1\<rparr>))"
| leave: "h < length (ar_handlers a) \<Longrightarrow> ar_handlers a ! h = (rid, Leaving) \<Longrightarrow>
    agent_step mx a (set_phase h Gone (a\<lparr>ar_entries := AList.delete rid (ar_entries a)\<rparr>))"

inductive_cases agent_stepE: "agent_step mx a a'"

end
