(* ===== verification/AgentRunProps.thy ===== *)
theory AgentRunProps
  imports AgentRun ChatLoad
begin

text \<open>
  The agent's concurrent requests stay within its capacity and can be cancelled; its reconnection waits stay
  within the configured bounds, and are not reset by a connection that had worked; and a provider that
  the sweep removed is not seen again however long its connection lives.
\<close>

section \<open>Capacity and cancellation\<close>

lemma count_where_list_update:
  "h < length xs \<Longrightarrow> int (count_where P (xs[h := y]))
     = int (count_where P xs) - (if P (xs ! h) then 1 else 0) + (if P y then 1 else 0)"
proof (induction xs arbitrary: h)
  case (Cons x xs)
  show ?case
  proof (cases h)
    case (Suc n)
    have n: "n < length xs" using Cons.prems Suc by simp
    show ?thesis using Cons.IH [OF n] Suc by (auto split: if_splits)
  qed simp
qed simp

definition loaded :: "string \<times> phase \<Rightarrow> bool" where
  "loaded h \<longleftrightarrow> snd h = Accepted \<or> snd h = Serving"

lemma set_phase_simps [simp]:
  "ar_load (set_phase h p a) = ar_load a" "ar_entries (set_phase h p a) = ar_entries a"
  "ar_cancelled (set_phase h p a) = ar_cancelled a" "length (ar_handlers (set_phase h p a)) = length (ar_handlers a)"
  "map fst (ar_handlers (set_phase h p a)) = map fst (ar_handlers a)"
  by (simp_all add: set_phase_def map_update) (metis fst_conv list_update_id map_update nth_map linorder_not_less list_update_beyond length_map)

lemma load_counts:
  "agent_step mx a a' \<Longrightarrow> ar_load a = int (count_where loaded (ar_handlers a))
     \<Longrightarrow> ar_load a' = int (count_where loaded (ar_handlers a'))"
  by (erule agent_stepE) (auto simp: set_phase_def count_where_list_update loaded_def)

lemma load_bounded: "agent_step mx a a' \<Longrightarrow> ar_load a \<le> mx \<Longrightarrow> ar_load a' \<le> mx"
  by (erule agent_stepE) auto

definition cancellable :: "agent_requests \<Rightarrow> bool" where
  "cancellable a \<longleftrightarrow> (\<forall>h < length (ar_handlers a). snd (ar_handlers a ! h) = Serving \<longrightarrow> h \<notin> set (ar_cancelled a)
     \<longrightarrow> map_of (ar_entries a) (fst (ar_handlers a ! h)) = Some h)"

lemma cancellable_step:
  assumes s: "agent_step mx a a'" and d: "distinct (map fst (ar_handlers a'))" and c: "cancellable a"
    and n: "\<forall>h \<in> set (ar_cancelled a). h < length (ar_handlers a)"
  shows "cancellable a'"
  using s
proof cases
  case (admit rid)
  then show ?thesis using c n by (auto simp: cancellable_def nth_append)
next
  case (enter h rid)
  have ne: "fst (ar_handlers a ! j) \<noteq> rid" if "j < length (ar_handlers a)" "j \<noteq> h" for j
    using d enter that by (auto simp: distinct_conv_nth) (metis fst_conv nth_map length_map)
  show ?thesis using c enter ne by (auto simp: cancellable_def set_phase_def nth_list_update update_conv')
next
  case (cancel rid h)
  then show ?thesis using c by (auto simp: cancellable_def delete_conv')
next
  case (release h rid)
  then show ?thesis using c by (auto simp: cancellable_def set_phase_def nth_list_update)
next
  case (leave h rid)
  have ne: "fst (ar_handlers a ! j) \<noteq> rid" if "j < length (ar_handlers a)" "j \<noteq> h" for j
    using d leave that by (auto simp: distinct_conv_nth) (metis fst_conv nth_map length_map)
  show ?thesis using c leave ne by (auto simp: cancellable_def set_phase_def nth_list_update delete_conv')
qed (use c in auto)

definition known_handlers :: "agent_requests \<Rightarrow> bool" where
  "known_handlers a \<longleftrightarrow> (\<forall>h \<in> set (ar_cancelled a). h < length (ar_handlers a))
     \<and> (\<forall>rid h. (rid, h) \<in> set (ar_entries a) \<longrightarrow> h < length (ar_handlers a))"

lemma update_vals: "(j, b) \<in> set (AList.update k v xs) \<Longrightarrow> b = v \<or> (\<exists>i. (i, b) \<in> set xs)"
  by (induction xs) (auto split: if_splits)

lemma known_step: "agent_step mx a a' \<Longrightarrow> known_handlers a \<Longrightarrow> known_handlers a'"
proof (erule agent_stepE)
  fix h rid
  assume k: "known_handlers a" and h: "h < length (ar_handlers a)" "ar_handlers a ! h = (rid, Accepted)"
    and a': "a' = set_phase h Serving (a\<lparr>ar_entries := AList.update rid h (ar_entries a)\<rparr>)"
  show ?thesis using k h(1) unfolding a' known_handlers_def
    by (auto simp: set_phase_def dest!: update_vals)
qed (auto simp: known_handlers_def set_phase_def AList.delete_eq less_SucI dest: map_of_SomeD)

lemma rids_grow: "agent_step mx a a' \<Longrightarrow> \<exists>xs. map fst (ar_handlers a') = map fst (ar_handlers a) @ xs"
  by (erule agent_stepE) auto

lemma requests_inv:
  assumes "(agent_step mx)\<^sup>*\<^sup>* no_requests a" and "0 < mx"
  shows "ar_load a = int (count_where loaded (ar_handlers a)) \<and> ar_load a \<le> mx \<and> known_handlers a
    \<and> (distinct (map fst (ar_handlers a)) \<longrightarrow> cancellable a)"
  using assms(1)
proof (induction rule: rtranclp_induct)
  case base
  then show ?case using assms(2) by (simp add: no_requests_def known_handlers_def cancellable_def)
next
  case (step a a')
  obtain xs where xs: "map fst (ar_handlers a') = map fst (ar_handlers a) @ xs" using rids_grow [OF step.hyps(2)] by blast
  have "cancellable a'" if "distinct (map fst (ar_handlers a'))"
    using cancellable_step [OF step.hyps(2) that] step.IH that xs by (simp add: known_handlers_def)
  with step.IH load_counts [OF step.hyps(2)] load_bounded [OF step.hyps(2)] known_step [OF step.hyps(2)] show ?case by blast
qed



section \<open>Backoff\<close>

definition sane_backoff :: "Config \<Rightarrow> bool" where
  "sane_backoff cfg \<longleftrightarrow> 4 \<le> cfg_rmin cfg \<and> cfg_rmin cfg \<le> cfg_rmax cfg \<and> cfg_rmax cfg < 2 ^ 61"

lemma next_backoff_bounds:
  assumes "4 \<le> b" "b \<le> rmax" "rmax < 2 ^ 61"
  shows "\<exists>b'. next_backoff rmax b rnd = Some b' \<and> b \<le> b' \<and> b' \<le> rmax \<and> min rmax (2 * b) \<le> b'"
proof -
  define j where "j = int rnd mod (b div 4)"
  have q: "0 < b div 4" using assms(1) by (simp add: pos_imp_zdiv_pos_iff)
  have j: "0 \<le> j" "j < b div 4" using q by (simp_all add: j_def)
  have l: "b div 4 \<le> b" using assms(1) by presburger
  have r: "in_int64 (b * 2)" "in_int64 (b * 2 + j)" using assms j l by (simp_all add: in_int64_def)
  then have "next_backoff rmax b rnd = Some (min rmax (b * 2 + j))"
    using q by (simp add: next_backoff_def j_def [symmetric] int64_id Let_def min_def)
  then show ?thesis using assms(1,2) j(1) by auto
qed

lemma run_waits_bounds:
  assumes s: "sane_backoff cfg" and "cfg_rmin cfg \<le> b" "b \<le> cfg_rmax cfg"
  shows "\<exists>waits. run_waits cfg ws b = Some waits \<and> list_all (\<lambda>t. cfg_rmin cfg \<le> t \<and> t \<le> cfg_rmax cfg) waits"
  using assms(2-)
proof (induction ws arbitrary: b)
  case (Cons x ws)
  obtain w rnd where x: "x = (w, rnd)" by fastforce
  obtain b' where b': "next_backoff (cfg_rmax cfg) b rnd = Some b'" "b \<le> b'" "b' \<le> cfg_rmax cfg"
    using next_backoff_bounds [of b "cfg_rmax cfg" rnd] s Cons.prems by (auto simp: sane_backoff_def)
  consider "snd (snd (agent_connect cfg w)) = None" | "snd (snd (agent_connect cfg w)) = Some (Inr ())"
    | e where "snd (snd (agent_connect cfg w)) = Some (Inl e)"
    by (cases "snd (snd (agent_connect cfg w))") (auto, metis old.unit.exhaust sum.exhaust)
  then show ?case
  proof cases
    case 2
    have "cfg_rmin cfg \<le> cfg_rmax cfg" using s by (simp add: sane_backoff_def)
    with Cons.IH [of "cfg_rmin cfg"] 2 x show ?thesis by simp
  next
    case 3
    obtain waits where "run_waits cfg ws b' = Some waits" "list_all (\<lambda>t. cfg_rmin cfg \<le> t \<and> t \<le> cfg_rmax cfg) waits"
      using Cons.IH [of b'] b' Cons.prems by auto
    with 3 x b' Cons.prems show ?thesis by simp
  qed (simp add: x)
qed simp


definition demo_config :: Config where
  "demo_config = NewAgent [] True ''host'' \<lparr>cfg_url = ''ws://c'', cfg_token = ''t'', cfg_ollama = [], cfg_models = [],
     cfg_max = 0, cfg_description = [], cfg_rmin = 0, cfg_rmax = 0\<rparr>"

definition demo_session :: connect_world where
  "demo_session = \<lparr>cn_dials = True, cn_tags = Listed 200 (Inr [''llama3'']), cn_models = GetFails [], cn_registers = True,
     cn_reply = Some (TypeRegistered, ''p''), cn_hardware = [], cn_events = [Frame FAck, ReadFails]\<rparr>"

text \<open>
  Below 4 ns the range of the jitter is empty and \<open>rand.Int64N\<close> panics: a configuration file that gives
  \<open>ReconnectMin\<close> as 1, 2 or 3 (it is in nanoseconds) kills the agent after its first failed connection.
\<close>

lemma tiny_backoff_panics:
  assumes "cfg_rmin cfg \<in> {1, 2, 3}" and "cfg_token cfg \<noteq> []" and "snd (snd (agent_connect cfg w)) = Some (Inl e)"
  shows "agent_Run cfg ((w, rnd) # ws) = Inr None"
  using assms by (auto simp: agent_Run_def next_backoff_def)

lemma demo_config_sane: "sane_backoff demo_config" "cfg_token demo_config \<noteq> []"
  by (simp_all add: sane_backoff_def demo_config_def NewAgent_def second_def)


text \<open>A connection that registered and served until reading failed.\<close>

definition served :: "Config \<Rightarrow> connect_world \<Rightarrow> bool" where
  "served cfg w \<longleftrightarrow> (\<exists>rg acts. agent_connect cfg w = (Some rg, acts, Some (Inl ''read'')))"

lemma served_waits:
  assumes s: "sane_backoff cfg" and "4 \<le> b" "b \<le> cfg_rmax cfg" and "list_all (\<lambda>(w, rnd). served cfg w) ws"
  shows "\<exists>waits. run_waits cfg ws b = Some waits \<and> length waits = length ws
    \<and> (\<forall>i < length ws. min (cfg_rmax cfg) (2 ^ i * b) \<le> waits ! i)"
  using assms(2-)
proof (induction ws arbitrary: b)
  case (Cons x ws)
  obtain w rnd where x: "x = (w, rnd)" by fastforce
  obtain b' where b': "next_backoff (cfg_rmax cfg) b rnd = Some b'" "b \<le> b'" "b' \<le> cfg_rmax cfg"
    "min (cfg_rmax cfg) (2 * b) \<le> b'"
    using next_backoff_bounds [of b "cfg_rmax cfg" rnd] s Cons.prems by (auto simp: sane_backoff_def)
  obtain waits where w: "run_waits cfg ws b' = Some waits" "length waits = length ws"
    "\<forall>i < length ws. min (cfg_rmax cfg) (2 ^ i * b') \<le> waits ! i"
    using Cons.IH [of b'] b' Cons.prems by auto
  have "snd (snd (agent_connect cfg w)) = Some (Inl ''read'')" using Cons.prems(3) x by (auto simp: served_def)
  then have r: "run_waits cfg (x # ws) b = Some (b # waits)" using x b'(1) w(1) by simp
  have "min (cfg_rmax cfg) (2 ^ i * b) \<le> (b # waits) ! i" if "i < length (x # ws)" for i
  proof (cases i)
    case (Suc n)
    have "min (cfg_rmax cfg) (2 ^ n * (2 * b)) \<le> min (cfg_rmax cfg) (2 ^ n * b')"
    proof (cases "2 * b \<le> b'")
      case True
      then have "(2::int) ^ n * (2 * b) \<le> 2 ^ n * b'" by (intro mult_left_mono) auto
      then show ?thesis by (intro min.mono order.refl)
    next
      case False
      then have "b' = cfg_rmax cfg" using b'(3,4) by auto
      moreover have "b' \<le> 2 ^ n * b'" using b'(2) Cons.prems(1) by simp
      ultimately show ?thesis by auto
    qed
    also have "\<dots> \<le> waits ! n" using w(3) that Suc by simp
    finally show ?thesis using Suc by (simp add: mult.assoc mult.left_commute)
  qed (use Cons.prems(2) in simp)
  then show ?case using r w(2) by simp
qed simp

text \<open>
  A connection that worked does not reset the backoff. However long the sessions lasted, when each of them
  registered and ended because reading failed (the way a connection ends when the coordinator or the
  network closes it), the wait before
  the reconnection doubles with every session up to the maximum, as if the agent had never got through.
\<close>

theorem backoff_not_reset:
  assumes "sane_backoff cfg" and "cfg_token cfg \<noteq> []" and "list_all (\<lambda>(w, rnd). served cfg w) ws"
  shows "\<exists>waits. agent_Run cfg ws = Inr (Some waits) \<and> length waits = length ws
    \<and> (\<forall>i < length ws. min (cfg_rmax cfg) (2 ^ i * cfg_rmin cfg) \<le> waits ! i)"
  using served_waits [OF assms(1) _ _ assms(3), of "cfg_rmin cfg"] assms(1,2) by (simp add: agent_Run_def sane_backoff_def)

theorem backoff_not_reset_witness:
  "\<exists>waits. agent_Run demo_config [(demo_session, 3), (demo_session, 5)] = Inr (Some waits) \<and> length waits = 2
    \<and> 2 * second \<le> waits ! 1"
proof -
  have s: "served demo_config demo_session"
    by (simp add: served_def agent_connect_def demo_session_def discoverModels_def FetchModels_def Let_def demo_config_def NewAgent_def)
  obtain waits where "agent_Run demo_config [(demo_session, 3), (demo_session, 5)] = Inr (Some waits)" "length waits = 2"
    "\<forall>i < 2. min (cfg_rmax demo_config) (2 ^ i * cfg_rmin demo_config) \<le> waits ! i"
    using backoff_not_reset [OF demo_config_sane, of "[(demo_session, 3), (demo_session, 5)]"] s by auto
  moreover from this(3) have "min (cfg_rmax demo_config) (2 ^ 1 * cfg_rmin demo_config) \<le> waits ! 1"
    by (rule allE [of _ 1]) simp
  moreover have "min (cfg_rmax demo_config) (2 ^ 1 * cfg_rmin demo_config) = 2 * second"
    by (simp add: demo_config_def NewAgent_def second_def)
  ultimately show ?thesis by auto
qed

section \<open>After an eviction\<close>

lemma quiet_run_sessions:
  assumes "list_all quiet_op ops" and "run_ops ops st = Some st'"
  shows "GetSession mid (reg st') = GetSession mid (reg st)"
  using same_loads_facts [OF quiet_ops [OF assms]] by blast

text \<open>
  An evicted provider never comes back on its own. The sweep removes a session from the registry but leaves
  its connection open. As long as that connection and the others only carry frames (and the store changes
  and ticks), the machine stays unknown to the registry, with no session and no model; and a heartbeat of
  the evicted session with an active key is still acknowledged, so the agent has no reason to reconnect.
\<close>

theorem evicted_provider_unseen:
  assumes e: "evictStale now timeout (reg st) = Some r1" and g: "GetSession mid r1 = None"
    and q: "list_all quiet_op ops" and r: "run_ops ops (st\<lparr>reg := r1\<rparr>) = Some st'"
    and k: "ms_token_hash (heap (reg st') ! k) = h" "FindKeyByHash E h (dbs st') = Inr (Some key)"
      "ms_machine (heap (reg st') ! k) = mid"
  shows "GetSession mid (reg st') = None \<and> \<not> HasModel mid model (reg st')
    \<and> read_step E usage k (WsMsg PHeartbeat) st' = Some (True, SendWS k CHeartbeatAck st')"
proof -
  have n: "GetSession mid (reg st') = None" using quiet_run_sessions [OF q r] g by simp
  then have "UpdateHeartbeat t mid (reg st') = reg st'" for t by (simp add: UpdateHeartbeat_def on_machine_def)
  then show ?thesis using n k by (simp add: HasModel_def read_step_def Let_def)
qed

theorem evicted_provider_unseen_witness:
  "\<exists>st'. GetSession ''mch_1'' (reg st') = None \<and> \<not> HasModel ''mch_1'' ''llama3'' (reg st')
    \<and> read_step demo_env (\<lambda>_. 0) 0 (WsMsg PHeartbeat) st' = Some (True, SendWS 0 CHeartbeatAck st')"
proof -
  let ?s = "new_session ''mch_1'' ''s1'' 1 (hashKey demo_env ''inf_00'') demo_reg"
  let ?r = "the (reg_step (RConnect 0 ''mch_1'' ''s1'' 1 (hashKey demo_env ''inf_00'') demo_reg) NewRegistry)"
  have e: "evictStale (91 * second) HeartbeatTimeout ?r = Some (?r\<lparr>online := []\<rparr>)"
    by (simp add: evictStale_def Register_def NewRegistry_def GetSession_def new_session_def stale_def HeartbeatTimeout_def
        second_def session_chans_def)
  let ?st = "demo_coord\<lparr>reg := ?r\<rparr>" and ?st' = "demo_coord\<lparr>reg := ?r\<lparr>online := []\<rparr>\<rparr>"
  have f: "FindKeyByHash demo_env (hashKey demo_env ''inf_00'') (dbs ?st')
      = Inr (Some \<lparr>k_id = 1, k_user = 1, k_hash = hashKey demo_env ''inf_00'', k_prefix = ''inf_1'', k_scope = normalizeScope ''provider'',
          k_created = 0, k_revoked = None\<rparr>)"
    by (simp add: FindKeyByHash_def demo_store_def)
  show ?thesis
  proof (rule exI [of _ ?st'], rule evicted_provider_unseen)
    show "evictStale (91 * second) HeartbeatTimeout (reg ?st) = Some (?r\<lparr>online := []\<rparr>)" using e by simp
    show "GetSession ''mch_1'' (?r\<lparr>online := []\<rparr>) = None" by (simp add: GetSession_def)
    show "list_all quiet_op []" by simp
    show "run_ops [] (?st\<lparr>reg := ?r\<lparr>online := []\<rparr>\<rparr>) = Some ?st'" by (simp add: run_ops_def)
    show "ms_token_hash (heap (reg ?st') ! 0) = hashKey demo_env ''inf_00''" "ms_machine (heap (reg ?st') ! 0) = ''mch_1''"
      by (simp_all add: Register_def NewRegistry_def GetSession_def new_session_def)
    show "FindKeyByHash demo_env (hashKey demo_env ''inf_00'') (dbs ?st') = Inr (Some
       \<lparr>k_id = 1, k_user = 1, k_hash = hashKey demo_env ''inf_00'', k_prefix = ''inf_1'', k_scope = normalizeScope ''provider'',
          k_created = 0, k_revoked = None\<rparr>)" by (rule f)
  qed
qed

end
