(* ===== verification/Presence.thy ===== *)
theory Presence
  imports AgentRunProps
begin

text \<open>
  What the coordinator shows of a machine (its session, the last heartbeat, whether its backend is well, its
  models), which operations can change it, and that all others leave it alone: a frame rule for the
  properties about heartbeats and failed backends.
\<close>

section \<open>What the coordinator knows of a machine\<close>

definition presence :: "string \<Rightarrow> registry \<Rightarrow> (nat \<times> int \<times> bool \<times> string list) option" where
  "presence mid r = map_option (\<lambda>k. (k, ms_heartbeat (heap r ! k), ms_backend_ok (heap r ! k), ms_models (heap r ! k)))
     (GetSession mid r)"

definition visible :: "MachineSession \<Rightarrow> int \<times> bool \<times> string list" where
  "visible s = (ms_heartbeat s, ms_backend_ok s, ms_models s)"

lemma presence_visible: "presence mid r = map_option (\<lambda>k. (k, visible (heap r ! k))) (GetSession mid r)"
  by (simp add: presence_def visible_def)

lemma presence_upd: "(\<And>s. visible (f s) = visible s) \<Longrightarrow> presence mid (upd_session k f r) = presence mid r"
  by (cases "k < length (heap r)"; cases "GetSession mid r")
    (auto simp: presence_visible upd_session_def GetSession_def nth_list_update list_update_beyond)

lemma presence_on: "(\<And>s. visible (f s) = visible s) \<Longrightarrow> presence mid (on_machine m f r) = presence mid r"
  by (simp add: on_machine_def presence_upd split: option.split)

lemma presence_apart:
  assumes "registry_ok r" and "m \<noteq> mid"
  shows "presence mid (on_machine m f r) = presence mid r"
proof (cases "GetSession m r")
  case (Some j)
  have "GetSession mid r \<noteq> Some j" using registry_ok_inj [OF assms(1) Some] assms(2) by blast
  with Some show ?thesis
    by (cases "GetSession mid r") (auto simp: on_machine_def presence_visible upd_session_def GetSession_def)
qed (simp add: on_machine_def)

lemma presence_frame: "heap r' = heap r \<Longrightarrow> GetSession mid r' = GetSession mid r \<Longrightarrow> presence mid r' = presence mid r"
  by (simp add: presence_def)

lemma presence_send: "try_send c x r = Some (b, r') \<Longrightarrow> presence mid r' = presence mid r"
  by (rule presence_frame) (auto simp: try_send_def Let_def GetSession_def split: if_splits)

lemma presence_ops [simp]:
  "presence mid (UnregisterChunkChannel k rid r) = presence mid r" "presence mid (AddTokens m n r) = presence mid r"
  "presence mid (DecrementLoad m r) = presence mid r" "presence mid (snd (IncrementLoad m r)) = presence mid r"
  "presence mid (snd (recv c r)) = presence mid r"
  by (auto simp: UnregisterChunkChannel_def AddTokens_def DecrementLoad_def IncrementLoad_def visible_def
      intro!: presence_upd presence_on split: option.split)
    (auto simp: recv_def Let_def presence_def GetSession_def split: list.split)

lemma close_all_frame: "close_all cs r = Some r' \<Longrightarrow> heap r' = heap r \<and> online r' = online r"
  by (induction cs r rule: close_all.induct) (auto simp: close_chan_def split: bind_splits if_splits)

lemma presence_close: "close_all cs r = Some r' \<Longrightarrow> presence mid r' = presence mid r"
  by (auto dest!: close_all_frame simp: presence_def GetSession_def)

lemma presence_cancel: "CancelAllRequests k r = Some r' \<Longrightarrow> presence mid r' = presence mid r"
  by (auto simp: CancelAllRequests_def visible_def presence_upd dest: presence_close split: bind_splits)

lemma presence_open: "open_request k rid cap r = Some (c, r') \<Longrightarrow> presence mid r' = presence mid r"
  by (auto simp: open_request_def make_chan_def RegisterChunkChannel_def visible_def presence_upd split: option.splits)
    (simp add: presence_def GetSession_def)

lemma presence_register:
  assumes "registry_ok r" and "ms_machine s \<noteq> mid" and "Register now s r = Some r'"
  shows "presence mid r' = presence mid r"
proof -
  obtain r1 where r1: "heap r1 = heap r" "online r1 = online r"
    "r' = r1\<lparr>heap := heap r1 @ [s\<lparr>ms_connected := now, ms_heartbeat := now, ms_backend_ok := True, ms_chunks := Some []\<rparr>],
       online := AList.update (ms_machine s) (length (heap r1)) (online r1)\<rparr>"
    using assms(3) by (auto simp: Register_def dest!: close_all_frame split: bind_splits option.splits)
  have "GetSession mid r' = GetSession mid r" using r1 assms(2) by (simp add: GetSession_def AList.update_conv)
  with r1 assms(1) show ?thesis
    by (cases "GetSession mid r") (auto simp: presence_def nth_append dest: registry_okD(1))
qed

lemma presence_unregister:
  assumes "m \<noteq> mid" and "Unregister m r = Some (x, r')" "registry_ok r"
  shows "presence mid r' = presence mid r"
proof (cases "GetSession m r")
  case (Some k)
  then obtain r1 where r1: "close_all (session_chans (heap r ! k)) r = Some r1"
    "r' = (upd_session k (\<lambda>s. s\<lparr>ms_chunks := None\<rparr>) r1)\<lparr>online := AList.delete m (online r1)\<rparr>"
    using assms(2) by (auto simp: Unregister_def Let_def split: bind_splits)
  have "presence mid r' = presence mid (upd_session k (\<lambda>s. s\<lparr>ms_chunks := None\<rparr>) r1)"
    using r1(2) assms(1) by (simp add: presence_def GetSession_def AList.delete_conv upd_session_def)
  then show ?thesis using r1(1) presence_close by (simp add: presence_upd visible_def)
qed (use assms in \<open>simp add: Unregister_def\<close>)


section \<open>Operations that leave a machine alone\<close>

text \<open>The machine a connection attempt registers, if it gets that far.\<close>

definition connects_as :: "string \<Rightarrow> hostenv \<Rightarrow> string option \<Rightarrow> bool \<Rightarrow> string \<Rightarrow> ws_event \<Rightarrow> coord \<Rightarrow> bool" where
  "connects_as mid E rnd up token first st =
    (case accept_provider E token (dbs st) of
       Inl code \<Rightarrow> False
     | Inr key \<Rightarrow> up \<and> (case first of
         WsMsg (PRegister rg) \<Rightarrow>
           (case fst (UpsertMachineByProviderKey (shift 1 E) rnd (k_user key) (k_id key) (rg_description rg) (dbs st)) of
              Inr (Some m) \<Rightarrow> m_id m = mid | _ \<Rightarrow> False)
       | _ \<Rightarrow> False))"

fun reg_about :: "string \<Rightarrow> reg_op \<Rightarrow> bool" where
  "reg_about mid (RConnect now m sid u h rg) \<longleftrightarrow> m = mid"
| "reg_about mid (RDisconnect m) \<longleftrightarrow> m = mid"
| "reg_about mid (RHeartbeat now m) \<longleftrightarrow> m = mid"
| "reg_about mid (RBackend now m b) \<longleftrightarrow> m = mid"
| "reg_about mid (REvict now timeout) \<longleftrightarrow> True"
| "reg_about mid _ \<longleftrightarrow> False"

fun about :: "string \<Rightarrow> coord_op \<Rightarrow> coord \<Rightarrow> bool" where
  "about mid (CConnect E rnd up sid token first ok) st \<longleftrightarrow> connects_as mid E rnd up token first st"
| "about mid (CFrame E usage k ev) st \<longleftrightarrow> ms_machine (heap (reg st) ! k) = mid
     \<and> (case ev of WsMsg PHeartbeat \<Rightarrow> True | WsMsg (PError er) \<Rightarrow> er_code er = ErrBackendUnavailable | _ \<Rightarrow> False)"
| "about mid (CGone E k m) st \<longleftrightarrow> m = mid"
| "about mid (CRegistry op) st \<longleftrightarrow> reg_about mid op"
| "about mid _ st \<longleftrightarrow> False"

lemma new_session_machine [simp]: "ms_machine (new_session m sid u h rg) = m"
  by (simp add: new_session_def)

lemma reg_other:
  assumes "registry_ok r" and "\<not> reg_about mid op" and "reg_step op r = Some r'"
  shows "presence mid r' = presence mid r"
  using assms
  by (cases op)
    (auto simp: UpdateHeartbeat_def SetBackendOK_def presence_apart
      dest: presence_register [of r "new_session m sid u h rg" for m sid u h rg, rotated 2] presence_unregister [rotated] presence_cancel presence_open presence_send
      split: option.splits)

lemma presence_relay:
  "relayChunk E m msg st = Some st' \<Longrightarrow> presence mid (reg st') = presence mid (reg st)"
  "relayResponse E usage m rs st = Some st' \<Longrightarrow> presence mid (reg st') = presence mid (reg st)"
  "relayError m er st = Some st' \<Longrightarrow> presence mid (reg st') = presence mid (reg st)"
  by (auto simp: relayChunk_def relayResponse_def relayError_def Let_def dest!: presence_send
      split: option.splits bind_splits if_splits)

lemma connect_shape:
  assumes "connect_provider E rnd up sid token first ok st = Some (x, st')"
  shows "reg st' = reg st
    \<or> (\<exists>m rg u h r1. first = WsMsg (PRegister rg) \<and> connects_as m E rnd up token first st
        \<and> Register (e_now E) (new_session m sid u h rg) (reg st) = Some r1
        \<and> (reg st' = r1 \<and> x = Connected (length (heap r1) - 1) m \<or> (\<exists>y. Unregister m r1 = Some (y, reg st') \<and> x = Dropped)))"
proof (cases "accept_provider E token (dbs st)")
  case (Inr key)
  with assms show ?thesis
    by (auto simp: connect_provider_def connects_as_def Let_def SendWS_def
        split: if_splits option.splits ws_event.splits provider_msg.splits sum.splits prod.splits bind_splits; blast)
qed (use assms in \<open>simp add: connect_provider_def\<close>)

lemma presence_connect:
  assumes ok: "coord_ok st" and "connect_provider E rnd up sid token first b st = Some (x, st')"
    and "\<not> connects_as mid E rnd up token first st"
  shows "presence mid (reg st') = presence mid (reg st)"
  using connect_shape [OF assms(2)]
proof (elim disjE exE conjE)
  fix m rg u h r1
  assume c: "connects_as m E rnd up token first st" "Register (e_now E) (new_session m sid u h rg) (reg st) = Some r1"
  then have m: "m \<noteq> mid" using assms(3) by auto
  have r: "registry_ok (reg st)" using ok by (simp add: coord_ok_def)
  have p: "presence mid r1 = presence mid (reg st)" using presence_register [OF r _ c(2)] m by simp
  show "reg st' = r1 \<Longrightarrow> ?thesis" using p by simp
  have "registry_ok r1"
    using Register_ok [OF r, of "new_session m sid u h rg" "e_now E"] new_session_load c(2) by fastforce
  then show "Unregister m r1 = Some (y, reg st') \<Longrightarrow> ?thesis" for y
    using presence_unregister [OF m] p by simp
qed simp

lemma presence_frame_step:
  assumes "coord_ok st" and "\<not> about mid (CFrame E usage k ev) st" and "read_step E usage k ev st = Some (go, st')"
  shows "presence mid (reg st') = presence mid (reg st)"
proof -
  have r: "registry_ok (reg st)" using assms(1) by (simp add: coord_ok_def)
  have e: "presence mid (SetBackendOK now m b (reg st1)) = presence mid (reg st)"
    if "relayError m er st = Some st1" "m \<noteq> mid" for now m b er st1
    using relayError_ok [OF assms(1), of m er] that presence_relay(3) [OF that(1)]
    by (auto simp: SetBackendOK_def coord_ok_def presence_apart)
  from assms(2,3) show ?thesis
    by (auto simp: read_step_def Let_def SendWS_def UpdateHeartbeat_def presence_apart [OF r] e dest: presence_relay
        split: ws_event.splits provider_msg.splits if_splits bind_splits)
qed

lemma coord_other:
  assumes "coord_ok st" and "\<not> about mid op st" and "coord_step op st = Some st'"
  shows "presence mid (reg st') = presence mid (reg st)"
proof (cases op)
  case (CFrame E usage k ev)
  with assms presence_frame_step [OF assms(1)] show ?thesis by (auto simp del: about.simps)
next
  case (CConnect E rnd up sid token first ok)
  with assms presence_connect [OF assms(1)] show ?thesis by auto
next
  case (CGone E k m)
  with assms show ?thesis
    by (auto simp: disconnect_provider_def Let_def coord_ok_def dest: presence_unregister split: bind_splits if_splits)
next
  case (CRegistry rop)
  with assms reg_other show ?thesis by (auto simp: coord_ok_def)
qed (use assms in \<open>auto simp: uptime_tick_def\<close>)

interpretation presence_kept: stable_system coord_step coord_ok "about mid" "\<lambda>st. presence mid (reg st) = p" for mid p
  by unfold_locales (simp add: coord_other)

text \<open>A machine looks the same after any run of operations about other machines.\<close>

lemma others_leave_alone:
  "coord_ok st \<Longrightarrow> unbroken coord_step (about mid) ops st \<Longrightarrow> run_ops ops st = Some st' \<Longrightarrow> presence mid (reg st') = presence mid (reg st)"
  unfolding run_ops_def by (rule presence_kept.stable_run) simp_all

end
