(* ===== verification/HeartbeatProps.thy ===== *)
theory HeartbeatProps
  imports Presence
begin

text \<open>
  Heartbeats from the provider to the sweep, and what becomes of a machine whose backend failed once.
  The agent's ticker fires every \<open>HeartbeatInterval\<close>; \<open>attended\<close> is a run of the coordinator in which these
  heartbeats arrive with bounded delay among any operations on other machines.
\<close>

section \<open>Tickers\<close>

definition heartbeat_due :: "int \<Rightarrow> nat \<Rightarrow> int" where
  "heartbeat_due start n = start + int n * HeartbeatInterval"

lemma heartbeat_due_Suc: "heartbeat_due start (Suc n) = heartbeat_due (start + HeartbeatInterval) n"
  by (simp add: heartbeat_due_def algebra_simps)

text \<open>While its connection works the loop writes the \<open>n\<close>-th heartbeat at \<open>n\<close> intervals after its start.\<close>

lemma heartbeats_written:
  "list_all (\<lambda>t. bt_conn t = Some c \<and> bt_writes t) ts \<Longrightarrow>
   heartbeatLoop start ts = map (\<lambda>n. Beat (heartbeat_due start (Suc n)) c) [0..<length ts]"
proof (induction ts arbitrary: start)
  case (Cons t ts)
  then have "heartbeatLoop start (t # ts) = Beat (start + HeartbeatInterval) c # heartbeatLoop (start + HeartbeatInterval) ts"
    by (simp add: heartbeat_tick_def Let_def)
  with Cons show ?case
    by (simp add: heartbeat_due_Suc map_upt_Suc del: upt_Suc) (simp add: heartbeat_due_def)
qed simp

text \<open>A failed write closes the connection written to, and never takes a newer connection away.\<close>

lemma failed_heartbeat:
  assumes "bt_conn t = Some c" and "\<not> bt_writes t" and "heartbeat_tick now t = (es, conn, go)"
  shows "es = [CloseConn c] \<and> \<not> go \<and> conn \<noteq> Some c \<and> (bt_after t \<noteq> Some c \<longrightarrow> conn = bt_after t)"
  using assms by (auto simp: heartbeat_tick_def split: if_splits)

text \<open>A provider that answers every ping within a minute keeps its connection open: the deadline follows the last pong.\<close>

lemma pings_answered:
  assumes "list_all2 (\<lambda>ping pong. ping \<le> pong \<and> pong \<le> ping + (pongWait - pingPeriod)) (ping_loop start oks) pongs"
    and "start + pongWait \<le> d"
  shows "read_deadline d pongs = (if pongs = [] then d else last pongs + pongWait)"
  using assms
proof (induction oks arbitrary: start d pongs)
  case (Cons ok oks)
  show ?case
  proof (cases ok)
    case True
    obtain p ps where p: "pongs = p # ps" "start + pingPeriod \<le> p" "p \<le> start + pingPeriod + (pongWait - pingPeriod)"
      "list_all2 (\<lambda>ping pong. ping \<le> pong \<and> pong \<le> ping + (pongWait - pingPeriod)) (ping_loop (start + pingPeriod) oks) ps"
      using Cons.prems(1) True by (auto simp: Let_def list_all2_Cons1)
    with Cons.IH [OF p(4), of "p + pongWait"] Cons.prems(2) show ?thesis by simp
  qed (use Cons.prems in \<open>simp add: Let_def\<close>)
qed simp

text \<open>The flag of the health loop is the result of its last check; it logs nothing while the backend stays as it was.\<close>

lemma health_flag: "cs \<noteq> [] \<Longrightarrow> snd (backendHealthLoop b w cs) = (case last cs of (built, status) \<Rightarrow> health_check built status)"
proof (induction cs arbitrary: b w)
  case (Cons c cs)
  obtain built status where c: "c = (built, status)" by fastforce
  have "snd (backendHealthLoop b w (c # cs)) = snd (backendHealthLoop (health_check built status) (health_check built status) cs)"
    by (simp add: c Let_def split: prod.split)
  with Cons c show ?case by (cases "cs = []") simp_all
qed simp

lemma health_quiet:
  "list_all (\<lambda>(built, status). health_check built status = w) cs \<Longrightarrow> fst (backendHealthLoop b w cs) = []"
  by (induction cs arbitrary: b) (auto simp: Let_def split: prod.splits)

section \<open>Heartbeats\<close>

text \<open>
  Runs from a session \<open>k\<close> of \<open>mid\<close>, registered at \<open>start\<close>, in which the read loop took \<open>n\<close> heartbeats: none before
  its time, and no sweep at which the next one is overdue by more than \<open>late\<close>. All other operations may
  happen, except those about the machine itself.
\<close>

inductive attended :: "string \<Rightarrow> nat \<Rightarrow> int \<Rightarrow> int \<Rightarrow> coord \<Rightarrow> nat \<Rightarrow> coord \<Rightarrow> bool" for mid k start late st where
  connected: "attended mid k start late st 0 st"
| beat: "attended mid k start late st n st1 \<Longrightarrow> read_step E usage k (WsMsg PHeartbeat) st1 = Some (True, st2)
    \<Longrightarrow> heartbeat_due start (Suc n) \<le> e_now E \<Longrightarrow> attended mid k start late st (Suc n) st2"
| sweep: "attended mid k start late st n st1 \<Longrightarrow> now \<le> heartbeat_due start (Suc n) + late
    \<Longrightarrow> evictStale now HeartbeatTimeout (reg st1) = Some r \<Longrightarrow> attended mid k start late st n (st1\<lparr>reg := r\<rparr>)"
| other: "attended mid k start late st n st1 \<Longrightarrow> \<not> about mid op st1 \<Longrightarrow> coord_step op st1 = Some st2
    \<Longrightarrow> attended mid k start late st n st2"

lemma attended_inv:
  assumes a: "attended mid k start late st n st'" and "coord_ok st"
    and p: "presence mid (reg st) = Some (k, start, True, models)" and l: "late \<le> HeartbeatTimeout - HeartbeatInterval"
  shows "coord_ok st' \<and> (\<exists>hb \<ge> heartbeat_due start n. presence mid (reg st') = Some (k, hb, True, models))"
  using a
proof (induction rule: attended.induct)
  case connected
  with assms show ?case by (simp add: heartbeat_due_def)
next
  case (beat n st1 E usage st2)
  then obtain hb where ok1: "coord_ok st1" and hb: "presence mid (reg st1) = Some (k, hb, True, models)" by blast
  have g: "GetSession mid (reg st1) = Some k" using hb by (auto simp: presence_def)
  have r: "registry_ok (reg st1)" using ok1 by (simp add: coord_ok_def)
  have "reg st2 = UpdateHeartbeat (e_now E) mid (reg st1)"
    using beat.hyps(2) registry_okD(2) [OF r g] by (auto simp: read_step_def Let_def SendWS_def split: if_splits)
  moreover have "coord_ok st2" using read_step_ok [OF ok1, of E usage k "WsMsg PHeartbeat"] beat.hyps(2) by auto
  ultimately show ?case using beat.hyps(3) g hb registry_okD(1) [OF r g]
    by (auto simp: presence_def UpdateHeartbeat_def on_machine_def heap_upd_session)
next
  case (sweep n st1 now r)
  then obtain hb where ok1: "coord_ok st1" and hb: "heartbeat_due start n \<le> hb" "presence mid (reg st1) = Some (k, hb, True, models)"
    by blast
  then have "\<not> stale now HeartbeatTimeout (heap (reg st1) ! k)"
    using sweep.hyps(2) l by (auto simp: stale_def presence_def heartbeat_due_def algebra_simps)
  with hb(2) sweep.hyps(3) evictStale_spec [of "reg st1" now HeartbeatTimeout] ok1
  have "presence mid r = Some (k, hb, True, models) \<and> coord_ok (st1\<lparr>reg := r\<rparr>)"
    by (auto simp: presence_def coord_ok_def)
  with hb(1) show ?case by auto
next
  case (other n st1 op st2)
  then have "coord_ok st1" by blast
  with coord_other [OF this other.hyps(2,3)] coord_step_ok [OF this, of op] other show ?case by auto
qed

lemma connected_presence:
  assumes "coord_ok st0" and c: "connect_provider E rnd up sid token (WsMsg (PRegister rg)) ok st0 = Some (Connected k mid, st)"
  shows "coord_ok st \<and> presence mid (reg st) = Some (k, e_now E, True, rg_models rg)"
proof -
  have ok: "coord_ok st" using connect_ok [OF assms(1), of E rnd up sid token "WsMsg (PRegister rg)" ok] c by auto
  obtain u h where r: "Register (e_now E) (new_session mid sid u h rg) (reg st0) = Some (reg st)" "k = length (heap (reg st)) - 1"
    using c by (auto simp: connect_provider_def Let_def SendWS_def split: sum.splits option.splits if_splits prod.splits bind_splits)
  have "registry_ok (reg st0)" using assms(1) by (simp add: coord_ok_def)
  from Register_ok [OF this, of "new_session mid sid u h rg" "e_now E"] r new_session_load ok
  show ?thesis by (auto simp: presence_def) (simp_all add: new_session_def)
qed



section \<open>A backend that failed once\<close>

text \<open>A machine that is not connected, or whose backend is marked as failed.\<close>

definition lost :: "string \<Rightarrow> registry \<Rightarrow> bool" where
  "lost mid r \<longleftrightarrow> (case GetSession mid r of None \<Rightarrow> True | Some k \<Rightarrow> \<not> ms_backend_ok (heap r ! k))"

lemma lost_gone: "GetSession mid r = None \<Longrightarrow> lost mid r"
  by (simp add: lost_def)

lemma lost_presence: "lost mid r \<longleftrightarrow> (case presence mid r of None \<Rightarrow> True | Some (k, hb, ok, ms) \<Rightarrow> \<not> ok)"
  by (simp add: lost_def presence_def split: option.split)

text \<open>What makes it usable again: a new connection, or the mark taken back, which no code does.\<close>

fun revives :: "string \<Rightarrow> coord_op \<Rightarrow> coord \<Rightarrow> bool" where
  "revives mid (CConnect E rnd up sid token first ok) st \<longleftrightarrow> connects_as mid E rnd up token first st"
| "revives mid (CRegistry (RConnect now m sid u h rg)) st \<longleftrightarrow> m = mid"
| "revives mid (CRegistry (RBackend now m b)) st \<longleftrightarrow> m = mid \<and> b"
| "revives mid _ st \<longleftrightarrow> False"

lemma lost_marks:
  "registry_ok r \<Longrightarrow> lost mid r \<Longrightarrow> lost mid (UpdateHeartbeat now mid r)"
  "registry_ok r \<Longrightarrow> lost mid (SetBackendOK now mid False r)"
  by (auto simp: lost_def UpdateHeartbeat_def SetBackendOK_def on_machine_def heap_upd_session dest: registry_okD(1)
      split: option.splits)

lemma lost_evict: "registry_ok r \<Longrightarrow> lost mid r \<Longrightarrow> evictStale now timeout r = Some r' \<Longrightarrow> lost mid r'"
  using evictStale_spec [of r now timeout] by (auto simp: lost_def split: option.splits if_splits)

lemma lost_step:
  assumes "coord_ok st" and "\<not> revives mid op st" and "lost mid (reg st)" and "coord_step op st = Some st'"
  shows "lost mid (reg st')"
proof (cases "about mid op st")
  case False
  with coord_other [OF assms(1) False assms(4)] assms(3) show ?thesis by (simp add: lost_presence)
next
  case True
  have r: "registry_ok (reg st)" using assms(1) by (simp add: coord_ok_def)
  show ?thesis
  proof (cases op)
    case (CFrame E usage k ev)
    have "lost m (SetBackendOK now m False (reg st1))" if "relayError m er st = Some st1" for now m er st1
      using relayError_ok [OF assms(1), of m er] that by (auto simp: coord_ok_def lost_marks)
    then show ?thesis using assms(3,4) True CFrame
      by (auto simp: read_step_def Let_def SendWS_def lost_marks [OF r]
          split: ws_event.splits provider_msg.splits if_splits bind_splits)
  next
    case (CGone E k m)
    with True assms(4) Unregister_ok [OF r, of mid] show ?thesis
      by (auto simp: disconnect_provider_def Let_def lost_def split: bind_splits if_splits)
  next
    case (CRegistry rop)
    with assms True Unregister_ok [OF r, of mid] r show ?thesis
      by (cases rop) (auto intro: lost_marks lost_evict lost_gone)
  qed (use True assms(2) in auto)
qed

interpretation lost_stays: stable_system coord_step coord_ok "revives mid" "\<lambda>st. lost mid (reg st)" for mid
  by unfold_locales (rule lost_step)

lemma lost_refuses:
  assumes "lost mid (reg (sv_coord sv))"
  shows "\<exists>resp sv'. chat_admit E mid kh u body sv = (Inl resp, sv')"
proof (cases "chat_admit E mid kh u body sv")
  case (Pair x sv')
  show ?thesis
  proof (cases x)
    case (Inr kr)
    obtain k req where "kr = (k, req)" by fastforce
    with Pair Inr have "HasModel mid (cq_model req) (reg (sv_coord sv'))" using chat_admit_session by blast
    moreover have "reg (sv_coord sv') = reg (sv_coord sv)" using chat_admit_coord [of E mid kh u body sv] Pair by auto
    ultimately show ?thesis using assms by (auto simp: HasModel_def lost_def split: option.splits)
  qed (use Pair in simp)
qed

text \<open>
  C29: One backend error takes a machine out of service for good. After an error frame with the code
  \<open>backend_unavailable\<close>, whatever follows (heartbeats, answers, requests, sweeps, disconnections), as long as
  the provider does not connect anew the coordinator offers none of the machine's models and refuses every chat
  request to it. Nothing in the code takes the mark back, and the read loop goes on, so the provider, whose own
  health check may long have succeeded, has no reason to reconnect.
\<close>

theorem backend_error_for_good:
  assumes ok: "coord_ok st" and er: "er_code er = ErrBackendUnavailable" "ms_machine (heap (reg st) ! k) = mid"
    and f: "read_step E usage k (WsMsg (PError er)) st = Some (go, st1)"
    and n: "unbroken coord_step (revives mid) ops st1" and r: "run_ops ops st1 = Some (sv_coord sv)"
  shows "go \<and> \<not> HasModel mid model (reg (sv_coord sv)) \<and> (\<exists>resp sv'. chat_admit E' mid kh u body sv = (Inl resp, sv'))"
proof -
  have ok1: "coord_ok st1" using read_step_ok [OF ok, of E usage k "WsMsg (PError er)"] f by auto
  obtain st0 where s0: "relayError mid er st = Some st0" "go" "st1 = st0\<lparr>reg := SetBackendOK (e_now E) mid False (reg st0)\<rparr>"
    using f er by (auto simp: read_step_def Let_def split: bind_splits)
  have "lost mid (reg st1)" using relayError_ok [OF ok, of mid er] s0 by (auto simp: coord_ok_def lost_marks)
  then have l: "lost mid (reg (sv_coord sv))" by (rule lost_stays.stable_run [OF ok1 n _ r [unfolded run_ops_def]])
  then have "\<not> HasModel mid model (reg (sv_coord sv))" by (auto simp: HasModel_def lost_def split: option.splits)
  with lost_refuses [OF l] s0(2) show ?thesis by blast
qed

theorem backend_error_for_good_witness:
  "\<exists>st1 st2. read_step demo_env (\<lambda>_. 0) 0 (WsMsg (PError \<lparr>er_request_id = ''r1'', er_code = ErrBackendUnavailable, er_message = []\<rparr>))
      (demo_coord\<lparr>reg := demo_registry\<rparr>) = Some (True, st1)
    \<and> run_ops [CFrame demo_env (\<lambda>_. 0) 0 (WsMsg PHeartbeat), CTick demo_env] st1 = Some st2
    \<and> \<not> HasModel ''mch_1'' ''llama3'' (reg st2)
    \<and> (\<exists>resp sv'. chat_admit demo_env ''mch_1'' ''h1'' 1 (Some demo_request) (demo_server\<lparr>sv_coord := st2\<rparr>) = (Inl resp, sv'))"
proof -
  let ?er = "\<lparr>er_request_id = ''r1'', er_code = ErrBackendUnavailable, er_message = []\<rparr> :: ErrorMsg"
    and ?st = "demo_coord\<lparr>reg := demo_registry\<rparr>" and ?ops = "[CFrame demo_env (\<lambda>_. 0) 0 (WsMsg PHeartbeat), CTick demo_env]"
  have ok: "coord_ok ?st" using demo_coord_ok demo_registry_ok by (simp add: coord_ok_def)
  have m: "ms_machine (heap (reg ?st) ! 0) = ''mch_1''"
    by (simp add: demo_registry_def Register_def NewRegistry_def GetSession_def)
  obtain go st1 where f: "read_step demo_env (\<lambda>_. 0) 0 (WsMsg (PError ?er)) ?st = Some (go, st1)" "coord_ok st1"
    using read_step_ok [OF ok] by blast
  obtain st2 where r: "run_ops ?ops st1 = Some st2" using run_ops_ok [OF f(2)] by blast
  have n: "unbroken coord_step (revives ''mch_1'') ?ops st1" by (simp split: option.split)
  have "run_ops ?ops st1 = Some (sv_coord (demo_server\<lparr>sv_coord := st2\<rparr>))" using r by simp
  from backend_error_for_good [OF ok _ m f(1) n this, of "''llama3''" demo_env "''h1''" 1 "Some demo_request"] f(1) r
  show ?thesis by auto
qed

end
