(* ===== verification/ProviderSetup.thy ===== *)
theory ProviderSetup
  imports AgentRun "HOL-Library.Word"
begin

text \<open>
  Starting the provider: the layers of its configuration (\<open>cmd/provider/main.go\<close>), the configuration file
  (\<open>internal/provider/config.go\<close>), the wizard (\<open>wizard.go\<close>) and the hardware description (\<open>hardware.go\<close>).
  The environment is a function from names to values, empty when unset; the outputs of the programs the
  code runs are arguments, \<open>None\<close> when they fail. What is only printed is not modelled. Case-insensitive
  comparison is that of ASCII.
\<close>

section \<open>Numbers\<close>

fun parseUint_from :: "64 word \<Rightarrow> string \<Rightarrow> 64 word \<times> bool" where
  "parseUint_from n [] = (n, True)"
| "parseUint_from n (c # cs) =
    (let d = (of_char c :: nat) in
     if d < 48 \<or> d > 57 then (0, False) else parseUint_from (n * 10 + of_nat (d - 48)) cs)"

definition parseUint :: "string \<Rightarrow> 64 word \<times> bool" where
  "parseUint s = parseUint_from 0 s"

text \<open>The loop fills a buffer of 20 bytes from its end; \<open>None\<close> would be an index below 0.\<close>

fun formatUint_loop :: "nat \<Rightarrow> nat \<Rightarrow> string \<Rightarrow> string option" where
  "formatUint_loop i n buf =
    (if n = 0 then Some buf
     else case i of 0 \<Rightarrow> None | Suc j \<Rightarrow> formatUint_loop j (n div 10) (digit (n mod 10) # buf))"

declare formatUint_loop.simps [simp del]

definition formatUint :: "64 word \<Rightarrow> string option" where
  "formatUint n = (if n = 0 then Some ''0'' else formatUint_loop 20 (unat n) [])"

section \<open>Hardware\<close>

definition formatRAM :: "64 word \<Rightarrow> string option" where
  "formatRAM gb = (if gb \<ge> 1024 then Some ''1TB+ RAM'' else map_option (\<lambda>s. s @ ''GB RAM'') (formatUint gb))"

text \<open>The line of \<open>nvidia-smi\<close>: a name and a size in MB, apart at the first comma.\<close>

definition nvidia_gpu :: "bool \<Rightarrow> string \<Rightarrow> string option option" where
  "nvidia_gpu windows out =
    (let line = TrimSpace out in
     if line = [] then Some None
     else case Cut1 line (CHR '','') of
       (_, _, False) \<Rightarrow> Some None
     | (f0, f1, True) \<Rightarrow>
         (let name = TrimSpace f0 in
          case parseUint (TrimSpace f1) of
            (mb, ok) \<Rightarrow>
              if ok \<and> mb > 0 then map_option (\<lambda>s. Some (name @ '' '' @ s @ ''GB'')) (formatUint (mb div 1024))
              else Some (Some name)))"

fun first_chipset :: "string list \<Rightarrow> string" where
  "first_chipset [] = []"
| "first_chipset (l # ls) =
    (if HasPrefix (TrimSpace l) ''Chipset Model:'' then TrimSpace (TrimPrefix (TrimSpace l) ''Chipset Model:'')
     else first_chipset ls)"

fun first_controller :: "string list \<Rightarrow> string" where
  "first_controller [] = []"
| "first_controller (l # ls) =
    (if TrimSpace l = [] \<or> EqualFold_ascii (TrimSpace l) ''name'' then first_controller ls else TrimSpace l)"

record host_tools =
  ht_goos :: string
  ht_nvidia :: "string option"
  ht_profiler :: "string option"
  ht_wmic :: "string option"
  ht_cpu :: "string option"
  ht_ram :: "64 word option"

definition detectGPULinux :: "host_tools \<Rightarrow> string option" where
  "detectGPULinux h = (case ht_nvidia h of None \<Rightarrow> Some []
     | Some out \<Rightarrow> map_option (\<lambda>g. case g of None \<Rightarrow> [] | Some s \<Rightarrow> s) (nvidia_gpu False out))"

definition detectGPUDarwin :: "host_tools \<Rightarrow> string option" where
  "detectGPUDarwin h = Some (case ht_profiler h of None \<Rightarrow> [] | Some out \<Rightarrow> first_chipset (Split1 (CHR 0x0A) out))"

definition wmic_gpu :: "host_tools \<Rightarrow> string" where
  "wmic_gpu h = (case ht_wmic h of None \<Rightarrow> [] | Some out \<Rightarrow> first_controller (Split1 (CHR 0x0A) out))"

definition detectGPUWindows :: "host_tools \<Rightarrow> string option" where
  "detectGPUWindows h = (case ht_nvidia h of None \<Rightarrow> Some (wmic_gpu h)
     | Some out \<Rightarrow> map_option (\<lambda>g. case g of None \<Rightarrow> wmic_gpu h | Some s \<Rightarrow> s) (nvidia_gpu True out))"

definition detectGPU :: "host_tools \<Rightarrow> string option" where
  "detectGPU h =
    (if ht_goos h = ''linux'' then detectGPULinux h
     else if ht_goos h = ''darwin'' then detectGPUDarwin h
     else if ht_goos h = ''windows'' then detectGPUWindows h
     else Some [])"

definition detectHardware :: "host_tools \<Rightarrow> string option" where
  "detectHardware h =
     do {
       mem \<leftarrow> (case ht_ram h of None \<Rightarrow> Some []
               | Some ram \<Rightarrow>
                   (let gb = ram div (1024 * 1024 * 1024) in
                    if ram > 0 \<and> gb > 0 then map_option (\<lambda>s. [s]) (formatRAM gb) else Some []));
       gpu \<leftarrow> detectGPU h;
       Some (Join ((case ht_cpu h of None \<Rightarrow> [] | Some m \<Rightarrow> if TrimSpace m \<noteq> [] then [TrimSpace m] else [])
                   @ mem @ (if gpu \<noteq> [] then [gpu] else [])) '', '')
     }"

section \<open>Layers of configuration\<close>

definition parseModels :: "string \<Rightarrow> string list" where
  "parseModels s = filter (\<lambda>m. m \<noteq> []) (map TrimSpace (Split1 (CHR '','') s))"

definition provider_defaults :: "string \<Rightarrow> Config \<Rightarrow> Config" where
  "provider_defaults hostname cfg = cfg\<lparr>
     cfg_url := (if cfg_url cfg = [] then ''wss://gpumesh.net/ws/provider'' else cfg_url cfg),
     cfg_ollama := (if cfg_ollama cfg = [] then ''http://localhost:11434'' else cfg_ollama cfg),
     cfg_max := (if cfg_max cfg \<le> 0 then 1 else cfg_max cfg),
     cfg_description := (if cfg_description cfg = [] then hostname else cfg_description cfg)\<rparr>"

definition provider_env :: "(string \<Rightarrow> string) \<Rightarrow> Config \<Rightarrow> Config" where
  "provider_env env cfg =
    (let pick = (\<lambda>k old. if env k \<noteq> [] then env k else old) in
     cfg\<lparr>cfg_url := pick ''MESH_COORDINATOR'' (cfg_url cfg),
         cfg_token := pick ''MESH_TOKEN'' (cfg_token cfg),
         cfg_ollama := pick ''MESH_OLLAMA_URL'' (cfg_ollama cfg),
         cfg_models := (if env ''MESH_MODELS'' \<noteq> [] then parseModels (env ''MESH_MODELS'') else cfg_models cfg),
         cfg_max := (if env ''MESH_MAX_CONCURRENT'' \<noteq> []
                     then (case ParseInt (env ''MESH_MAX_CONCURRENT'') of Some n \<Rightarrow> n | None \<Rightarrow> cfg_max cfg) else cfg_max cfg),
         cfg_description := pick ''MESH_DESCRIPTION'' (cfg_description cfg)\<rparr>)"

text \<open>The flags that were given.\<close>

record provider_flags =
  fl_coordinator :: "string option"
  fl_token :: "string option"
  fl_ollama :: "string option"
  fl_models :: "string option"
  fl_max :: "int option"
  fl_description :: "string option"

definition given :: "'a option \<Rightarrow> 'a \<Rightarrow> 'a" where
  "given f old = (case f of None \<Rightarrow> old | Some v \<Rightarrow> v)"

definition provider_flags_over :: "provider_flags \<Rightarrow> Config \<Rightarrow> Config" where
  "provider_flags_over f cfg = cfg\<lparr>
     cfg_url := given (fl_coordinator f) (cfg_url cfg),
     cfg_token := given (fl_token f) (cfg_token cfg),
     cfg_ollama := given (fl_ollama f) (cfg_ollama cfg),
     cfg_models := given (map_option parseModels (fl_models f)) (cfg_models cfg),
     cfg_max := given (fl_max f) (cfg_max cfg),
     cfg_description := given (fl_description f) (cfg_description cfg)\<rparr>"

definition provider_config :: "string \<Rightarrow> (string \<Rightarrow> string) \<Rightarrow> provider_flags \<Rightarrow> Config \<Rightarrow> Config" where
  "provider_config hostname env f file = provider_flags_over f (provider_env env (provider_defaults hostname file))"

text \<open>When the wizard runs; \<open>reachable\<close> says whether models can be listed at a URL.\<close>

definition wants_wizard :: "bool \<Rightarrow> bool \<Rightarrow> (string \<Rightarrow> bool) \<Rightarrow> Config \<Rightarrow> bool" where
  "wants_wizard wizard no_wizard reachable cfg =
    (if wizard \<and> \<not> no_wizard then True
     else if \<not> no_wizard then cfg_token cfg = [] \<or> \<not> reachable (cfg_ollama cfg)
     else False)"

section \<open>The configuration file\<close>

definition ConfigFilePath :: "(string \<Rightarrow> string) \<Rightarrow> string option \<Rightarrow> (string \<Rightarrow> string \<Rightarrow> string) \<Rightarrow> string" where
  "ConfigFilePath env home join =
    (if env ''MESH_CONFIG'' \<noteq> [] then env ''MESH_CONFIG''
     else case home of Some h \<Rightarrow> join h ''.gpumesh.json'' | None \<Rightarrow> ''./gpumesh.json'')"

definition zero_config :: Config where
  "zero_config = \<lparr>cfg_url = [], cfg_token = [], cfg_ollama = [], cfg_models = [], cfg_max = 0, cfg_description = [],
     cfg_rmin = 0, cfg_rmax = 0\<rparr>"

text \<open>Files are a map from paths to contents; \<open>broken\<close> is a path that exists and cannot be read.\<close>

definition LoadConfig :: "(string \<Rightarrow> Config option) \<Rightarrow> (string \<Rightarrow> bool) \<Rightarrow> (string \<rightharpoonup> string) \<Rightarrow> string \<Rightarrow> string + Config" where
  "LoadConfig decode broken fs path =
    (if broken path then Inl ''read''
     else case fs path of
       None \<Rightarrow> Inr zero_config
     | Some data \<Rightarrow> (case decode data of None \<Rightarrow> Inl ''json'' | Some cfg \<Rightarrow> Inr cfg))"

text \<open>The steps of \<open>SaveConfig\<close>, any of which can fail; a failing write may leave any content in the file.\<close>

record save_world =
  sw_mkdir :: bool
  sw_write :: "string option"
  sw_rename :: bool

definition SaveConfig :: "(Config \<Rightarrow> string) \<Rightarrow> save_world \<Rightarrow> string \<Rightarrow> Config \<Rightarrow> (string \<rightharpoonup> string)
    \<Rightarrow> (string + unit) \<times> (string \<rightharpoonup> string)" where
  "SaveConfig encode w path cfg fs =
    (if \<not> sw_mkdir w then (Inl ''mkdir'', fs)
     else
       let data = encode cfg; tmp = path @ ''.tmp'' in
       case sw_write w of
         Some partial \<Rightarrow> (Inl ''write'', fs(tmp \<mapsto> partial))
       | None \<Rightarrow>
           if \<not> sw_rename w then (Inl ''rename'', fs(tmp \<mapsto> data))
           else (Inr (), (fs(path \<mapsto> data))(tmp := None)))"

section \<open>The wizard\<close>

datatype wizard_result = WizardError string | WizardCancelled | WizardDone Config

text \<open>The attempts to reach the model server: the URL and models, or the error.\<close>

fun ask_url :: "nat \<Rightarrow> (string \<Rightarrow> string list option) list \<Rightarrow> string list
    \<Rightarrow> string + ((string \<times> string list) \<times> string list)" where
  "ask_url 0 ds ins = Inl ''could not reach Ollama after 3 attempts''"
| "ask_url (Suc n) ds [] = Inl ''input interrupted''"
| "ask_url (Suc n) ds (l # ins) =
    (let input = (if TrimSpace l = [] then ''http://localhost:11434'' else TrimSpace l) in
     case (case ds of [] \<Rightarrow> None | d # _ \<Rightarrow> d input) of
       Some models \<Rightarrow> Inr ((input, models), ins)
     | None \<Rightarrow> ask_url n (tl ds) ins)"

definition yes :: "string \<Rightarrow> bool" where
  "yes s \<longleftrightarrow> s = [] \<or> EqualFold_ascii s ''y'' \<or> EqualFold_ascii s ''yes''"

definition pick_model :: "string list \<Rightarrow> string \<Rightarrow> string list" where
  "pick_model models s = (case ParseInt (TrimSpace s) of
       None \<Rightarrow> []
     | Some idx \<Rightarrow> if idx < 1 \<or> idx > int (length models) then [] else [models ! nat (idx - 1)])"

definition pick_models :: "string list \<Rightarrow> string \<Rightarrow> string list \<Rightarrow> string list" where
  "pick_models models selection old =
    (if EqualFold_ascii selection ''all'' then models
     else let ms = old @ concat (map (pick_model models) (Split1 (CHR '','') selection))
          in if ms = [] then models else ms)"

fun ask_models :: "string list \<Rightarrow> string list \<Rightarrow> string list \<Rightarrow> string + (string list \<times> string list)" where
  "ask_models models old [] = Inl ''input interrupted''"
| "ask_models models old (l # ins) =
    (if yes (TrimSpace l) then Inr (models, ins)
     else case ins of [] \<Rightarrow> Inl ''input interrupted''
       | l2 # ins2 \<Rightarrow> Inr (pick_models models (TrimSpace l2) old, ins2))"

definition ws_url :: "string \<Rightarrow> string" where
  "ws_url u = (if \<not> HasPrefix u ''ws://'' \<and> \<not> HasPrefix u ''wss://'' then ''wss://'' @ u else u)"

text \<open>The three questions that end the wizard; the token is asked for only when there is none.\<close>

fun ask_rest :: "Config \<Rightarrow> string list \<Rightarrow> wizard_result" where
  "ask_rest cfg ins =
    (case ins of
       [] \<Rightarrow> WizardError ''input interrupted''
     | l # ins1 \<Rightarrow>
         let cfg1 = (if TrimSpace l \<noteq> [] then cfg\<lparr>cfg_url := ws_url (TrimSpace l)\<rparr> else cfg) in
         case (if cfg_token cfg1 = []
               then (case ins1 of [] \<Rightarrow> None | t # ins2 \<Rightarrow> Some (cfg1\<lparr>cfg_token := TrimSpace t\<rparr>, ins2))
               else Some (cfg1, ins1)) of
           None \<Rightarrow> WizardError ''input interrupted''
         | Some (cfg2, ins3) \<Rightarrow>
             (case ins3 of
                [] \<Rightarrow> WizardError ''input interrupted''
              | p # _ \<Rightarrow> if yes (TrimSpace p) then WizardDone cfg2 else WizardCancelled))"

text \<open>
  \<open>d0\<close> and \<open>ds\<close> are the answers of the model server at each attempt, \<open>ins\<close> the lines typed, \<open>path\<close> what
  \<open>ConfigFilePath\<close> returns. A confirmed configuration is saved; an error of saving is only printed.
\<close>

definition RunWizard :: "(string \<Rightarrow> string list option) \<Rightarrow> (string \<Rightarrow> string list option) list \<Rightarrow> string list
    \<Rightarrow> (Config \<Rightarrow> string) \<Rightarrow> save_world \<Rightarrow> string \<Rightarrow> Config \<Rightarrow> (string \<rightharpoonup> string) \<Rightarrow> wizard_result \<times> (string \<rightharpoonup> string)" where
  "RunWizard d0 ds ins encode w path cfg fs =
    (let r = (case (case d0 (cfg_ollama cfg) of
                      Some models \<Rightarrow> Inr ((cfg_ollama cfg, models), ins)
                    | None \<Rightarrow> ask_url 3 ds ins) of
                Inl e \<Rightarrow> WizardError e
              | Inr ((url, models), ins1) \<Rightarrow>
                  (case ask_models models (cfg_models cfg) ins1 of
                     Inl e \<Rightarrow> WizardError e
                   | Inr (ms, ins2) \<Rightarrow> ask_rest (cfg\<lparr>cfg_ollama := url, cfg_models := ms\<rparr>) ins2))
     in case r of
          WizardDone c \<Rightarrow> (WizardDone c, snd (SaveConfig encode w path c fs))
        | _ \<Rightarrow> (r, fs))"

section \<open>The provider program\<close>

text \<open>
  What \<open>main\<close> reads from its surroundings: environment, host name, home directory, the arguments, the model
  server's answers (to the check before the wizard and to the wizard), the lines typed, and the outcome of
  the steps that write the file.
\<close>

record main_world =
  mw_env :: "string \<Rightarrow> string"
  mw_hostname :: string
  mw_home :: "string option"
  mw_flags :: provider_flags
  mw_config :: string
  mw_wizard :: bool
  mw_no_wizard :: bool
  mw_reachable :: "string \<Rightarrow> bool"
  mw_first :: "string \<Rightarrow> string list option"
  mw_retries :: "(string \<Rightarrow> string list option) list"
  mw_lines :: "string list"
  mw_save :: save_world

text \<open>The configuration before the wizard; a file that cannot be read or decoded counts as empty.\<close>

definition main_config :: "(string \<Rightarrow> Config option) \<Rightarrow> (string \<Rightarrow> bool) \<Rightarrow> (string \<Rightarrow> string \<Rightarrow> string) \<Rightarrow> main_world
    \<Rightarrow> (string \<rightharpoonup> string) \<Rightarrow> Config" where
  "main_config decode broken join m fs =
    (let path = (if mw_config m = [] then ConfigFilePath (mw_env m) (mw_home m) join else mw_config m)
     in provider_config (mw_hostname m) (mw_env m) (mw_flags m)
          (case LoadConfig decode broken fs path of Inl e \<Rightarrow> zero_config | Inr c \<Rightarrow> c))"

text \<open>\<open>main\<close> up to the start of the agent: why the program ends, or the configuration of the agent, and the files.\<close>

definition provider_main :: "(Config \<Rightarrow> string) \<Rightarrow> (string \<Rightarrow> Config option) \<Rightarrow> (string \<Rightarrow> bool) \<Rightarrow> (string \<Rightarrow> string \<Rightarrow> string)
    \<Rightarrow> main_world \<Rightarrow> (string \<rightharpoonup> string) \<Rightarrow> (string + Config) \<times> (string \<rightharpoonup> string)" where
  "provider_main encode decode broken join m fs =
    (let cfg = main_config decode broken join m fs in
     case (if wants_wizard (mw_wizard m) (mw_no_wizard m) (mw_reachable m) cfg
           then RunWizard (mw_first m) (mw_retries m) (mw_lines m) encode (mw_save m)
                  (ConfigFilePath (mw_env m) (mw_home m) join) cfg fs
           else (WizardDone cfg, fs)) of
       (WizardError e, fs') \<Rightarrow> (Inl (''wizard: '' @ e), fs')
     | (WizardCancelled, fs') \<Rightarrow> (Inl ''cancelled'', fs')
     | (WizardDone c, fs') \<Rightarrow>
         (if cfg_token c = [] then Inl ''No token. Get one at https://gpumesh.net/dashboard'' else Inr c, fs'))"

section \<open>Display\<close>

definition maskToken :: "string \<Rightarrow> string" where
  "maskToken token =
    (if token = [] then ''(none)''
     else if length token \<le> 8 then replicate (length token) (CHR ''*'')
     else take 4 token @ replicate (length token - 8) (CHR ''*'') @ drop (length token - 4) token)"

definition modelsSummary :: "string list \<Rightarrow> string" where
  "modelsSummary models = (if models = [] then ''(none)'' else Join models '', '')"

section \<open>Names\<close>

text \<open>\<open>DiscoverModelsWithURL\<close>, from the answers of the two listings of the URL.\<close>

definition DiscoverModelsWithURL :: "listing \<Rightarrow> listing \<Rightarrow> string + string list" where
  "DiscoverModelsWithURL tags models =
    (case FetchModels tags models of Inl e \<Rightarrow> Inl e | Inr (ms, bt) \<Rightarrow> Inr ms)"

text \<open>\<open>hostname\<close>: the model name that \<open>sysctl\<close> prints, if it runs, or the name of the host.\<close>

definition darwinModel :: "string option \<Rightarrow> string" where
  "darwinModel out = (case out of None \<Rightarrow> [] | Some s \<Rightarrow> TrimSpace s)"

definition hostname_of :: "string option \<Rightarrow> string \<Rightarrow> string" where
  "hostname_of sysctl h = (if darwinModel sysctl \<noteq> [] then darwinModel sysctl else h)"

section \<open>The program\<close>

text \<open>
  \<open>main\<close> with the agent: why it ends, or the waits of the agent over the connections \<open>ws\<close>. \<open>host\<close>,
  \<open>probe\<close> and \<open>hn\<close> are what \<open>NewAgent\<close> asks of the system.
\<close>

definition run_agent :: "string \<Rightarrow> bool \<Rightarrow> string \<Rightarrow> Config \<Rightarrow> (connect_world \<times> nat) list \<Rightarrow> string + int list option" where
  "run_agent host probe hn cfg ws =
    (case agent_Run (NewAgent host probe hn cfg) ws of Inl e \<Rightarrow> Inl (''agent: '' @ e) | Inr waits \<Rightarrow> Inr waits)"

end
