(* ===== verification/ProviderSetupProps.thy ===== *)
theory ProviderSetupProps
  imports ProviderSetup AgentRunProps
begin

text \<open>
  Starting the provider: the home-made number formatting is inverse to the parser and fits its buffer, the
  layers of configuration have the documented precedence, and saving the configuration is atomic.
\<close>

section \<open>Numbers\<close>

lemma formatUint_loop_digits:
  "n < 10 ^ i \<Longrightarrow> formatUint_loop i n buf = Some (if n = 0 then buf else nat_digits n @ buf)"
proof (induction i arbitrary: n buf)
  case (Suc i)
  show ?case
  proof (cases "n = 0")
    case False
    have "n div 10 < 10 ^ i" using Suc.prems by (simp add: less_mult_imp_div_less)
    from Suc.IH [OF this, of "digit (n mod 10) # buf"] False show ?thesis
      by (cases "n < 10") (simp_all add: formatUint_loop.simps [of "Suc i" n] nat_digits.simps [of n])
  qed (simp add: formatUint_loop.simps)
qed (simp add: formatUint_loop.simps)

lemma formatUint_digits: "formatUint n = Some (nat_digits (unat n))"
proof (cases "n = 0")
  case True
  then show ?thesis by (simp add: formatUint_def nat_digits.simps digit_def char_of_def bit_0)
next
  case False
  then have z: "unat n \<noteq> 0" by (simp add: unat_eq_0)
  have "unat n < 2 ^ 64" using unsigned_less [of n] by simp
  also have "(2::nat) ^ 64 \<le> 10 ^ 20" by simp
  finally show ?thesis using False z formatUint_loop_digits [of "unat n" 20 "[]"] by (simp add: formatUint_def)
qed

lemma nat_digits_length: "n < 10 ^ Suc i \<Longrightarrow> length (nat_digits n) \<le> Suc i"
proof (induction i arbitrary: n)
  case (Suc i)
  show ?case
  proof (cases "n < 10")
    case False
    have "n div 10 < 10 ^ Suc i" using Suc.prems by (simp add: less_mult_imp_div_less)
    from Suc.IH [OF this] False show ?thesis by (simp add: nat_digits.simps [of n])
  qed (simp add: nat_digits.simps)
qed (simp add: nat_digits.simps)

lemma parseUint_value: "digits_value a s = Some v \<Longrightarrow> parseUint_from (of_nat a) s = (of_nat v, True)"
proof (induction s arbitrary: a)
  case (Cons c s)
  define d where "d = (of_char c :: nat)"
  have d: "48 \<le> d" "d \<le> 57" "digits_value (10 * a + (d - 48)) s = Some v"
    using Cons.prems by (auto simp: d_def Let_def split: if_splits)
  from Cons.IH [OF d(3)] d(1,2) show ?case
    by (simp add: d_def [symmetric] Let_def algebra_simps)
qed simp

text \<open>
  C38: The number helpers agree. \<open>formatUint\<close> never runs out of its 20 bytes, and \<open>parseUint\<close> reads back the
  number it wrote, for every 64-bit number.
\<close>

theorem format_parse_uint:
  "\<exists>s. formatUint n = Some s \<and> length s \<le> 20 \<and> parseUint s = (n, True)"
proof -
  have "unat n < 2 ^ 64" using unsigned_less [of n] by simp
  also have "(2::nat) ^ 64 \<le> 10 ^ Suc 19" by simp
  finally have l: "length (nat_digits (unat n)) \<le> 20" using nat_digits_length [of "unat n" 19] by simp
  have "parseUint (nat_digits (unat n)) = (n, True)"
    using parseUint_value [OF digits_value_nat_digits, of "unat n"] by (simp add: parseUint_def)
  with l formatUint_digits show ?thesis by blast
qed

lemma hardware_total: "\<exists>s. detectHardware h = Some s"
proof -
  have n: "\<exists>g. nvidia_gpu b out = Some g" for b out
    by (auto simp: nvidia_gpu_def Let_def formatUint_digits split: prod.split bool.split)
  have "\<exists>g. detectGPU h = Some g"
    using n by (auto simp: detectGPU_def detectGPULinux_def detectGPUDarwin_def detectGPUWindows_def split: option.split)
  then show ?thesis unfolding detectHardware_def
    by (cases "ht_ram h") (auto simp: Let_def formatRAM_def formatUint_digits)
qed

section \<open>Configuration\<close>

text \<open>A text setting by layers: the flag, the environment, the file, the default.\<close>

definition layered :: "string option \<Rightarrow> string \<Rightarrow> string \<Rightarrow> string \<Rightarrow> string" where
  "layered flag env file dflt =
    (case flag of Some v \<Rightarrow> v | None \<Rightarrow> if env \<noteq> [] then env else if file \<noteq> [] then file else dflt)"

lemma config_texts:
  "cfg_url (provider_config hostname env f file)
     = layered (fl_coordinator f) (env ''MESH_COORDINATOR'') (cfg_url file) ''wss://gpumesh.net/ws/provider''"
  "cfg_token (provider_config hostname env f file) = layered (fl_token f) (env ''MESH_TOKEN'') (cfg_token file) []"
  "cfg_ollama (provider_config hostname env f file)
     = layered (fl_ollama f) (env ''MESH_OLLAMA_URL'') (cfg_ollama file) ''http://localhost:11434''"
  "cfg_description (provider_config hostname env f file)
     = layered (fl_description f) (env ''MESH_DESCRIPTION'') (cfg_description file) hostname"
  by (simp_all add: provider_config_def provider_flags_over_def provider_env_def provider_defaults_def layered_def
      given_def Let_def split: option.split)

lemma config_max: "cfg_max (provider_config hostname env f file) = given (fl_max f)
    (case (if env ''MESH_MAX_CONCURRENT'' = [] then None else ParseInt (env ''MESH_MAX_CONCURRENT'')) of
       Some n \<Rightarrow> n | None \<Rightarrow> max 1 (cfg_max file))"
  by (cases "env ''MESH_MAX_CONCURRENT'' = []"; cases "cfg_max file \<le> 0")
    (auto simp: provider_config_def provider_flags_over_def provider_env_def provider_defaults_def Let_def
      split: option.split)

lemma NewAgent_fields: "cfg_max (NewAgent oh pr hn c) = max 1 (cfg_max c)"
  "cfg_ollama c \<noteq> [] \<Longrightarrow> cfg_ollama (NewAgent oh pr hn c) = cfg_ollama c"
  by (auto simp: NewAgent_def)

lemma ollama_set: "cfg_ollama (provider_config hostname env f file) \<noteq> [] \<or> fl_ollama f = Some []"
  by (auto simp: config_texts layered_def split: option.splits)

text \<open>
  The precedence of the provider's settings. A flag that was given wins over the environment, that over
  the file and that over the default, for the coordinator's and the model server's URL, the token and the
  description; an environment number that does not parse is ignored. The agent made from the result never
  probes \<open>OLLAMA_HOST\<close> unless the URL was explicitly set to nothing by a flag, since a default is always there.
\<close>

theorem config_precedence:
  "let c = provider_config hostname env f file in
    cfg_url c = layered (fl_coordinator f) (env ''MESH_COORDINATOR'') (cfg_url file) ''wss://gpumesh.net/ws/provider''
    \<and> cfg_token c = layered (fl_token f) (env ''MESH_TOKEN'') (cfg_token file) []
    \<and> cfg_ollama c = layered (fl_ollama f) (env ''MESH_OLLAMA_URL'') (cfg_ollama file) ''http://localhost:11434''
    \<and> cfg_description c = layered (fl_description f) (env ''MESH_DESCRIPTION'') (cfg_description file) hostname
    \<and> cfg_max (NewAgent oh pr hn c) = max 1 (given (fl_max f)
         (case (if env ''MESH_MAX_CONCURRENT'' = [] then None else ParseInt (env ''MESH_MAX_CONCURRENT'')) of
            Some n \<Rightarrow> n | None \<Rightarrow> max 1 (cfg_max file)))
    \<and> (cfg_ollama (NewAgent oh pr hn c) = cfg_ollama c \<or> fl_ollama f = Some [])"
  unfolding Let_def
proof (intro conjI)
  let ?c = "provider_config hostname env f file"
  show "cfg_ollama (NewAgent oh pr hn ?c) = cfg_ollama ?c \<or> fl_ollama f = Some []"
    using ollama_set NewAgent_fields(2) by blast
qed (rule config_texts NewAgent_fields(1) [THEN trans] | simp only: config_max)+

text \<open>
  Saving the configuration is atomic. Whichever step fails, the file at the path holds what it held before
  or the whole new text, no other file but the temporary one is touched, and after a success, when decoding
  inverts encoding, loading returns the saved configuration.
\<close>

theorem save_config_atomic:
  assumes s: "SaveConfig encode w path cfg fs = (res, fs')" and d: "decode (encode cfg) = Some cfg" and b: "\<not> broken path"
  shows "(fs' path = fs path \<or> fs' path = Some (encode cfg))
    \<and> (\<forall>q. q = path \<or> q = path @ ''.tmp'' \<or> fs' q = fs q)
    \<and> (res = Inr () \<longrightarrow> LoadConfig decode broken fs' path = Inr cfg \<and> fs' (path @ ''.tmp'') = None)"
  using s d b by (auto simp: SaveConfig_def LoadConfig_def Let_def split: if_splits option.splits)

theorem save_config_atomic_witness:
  "LoadConfig (\<lambda>_. Some zero_config) (\<lambda>_. False)
     (snd (SaveConfig (\<lambda>_. ''{}'') \<lparr>sw_mkdir = True, sw_write = None, sw_rename = True\<rparr> ''c'' zero_config Map.empty)) ''c''
   = Inr zero_config"
proof -
  obtain fs' where s: "SaveConfig (\<lambda>_. ''{}'') \<lparr>sw_mkdir = True, sw_write = None, sw_rename = True\<rparr> ''c'' zero_config Map.empty
      = (Inr (), fs')"
    by (simp add: SaveConfig_def)
  from save_config_atomic [OF s, of "\<lambda>_. Some zero_config" "\<lambda>_. False"] show ?thesis by (simp add: s)
qed

section \<open>The wizard\<close>

definition all_written :: save_world where
  "all_written = \<lparr>sw_mkdir = True, sw_write = None, sw_rename = True\<rparr>"

lemma wizard_saves:
  assumes "provider_main encode decode broken join m fs = (Inr c, fs')" and "mw_save m = all_written"
    and "wants_wizard (mw_wizard m) (mw_no_wizard m) (mw_reachable m) (main_config decode broken join m fs)"
    and "p = ConfigFilePath (mw_env m) (mw_home m) join"
  shows "cfg_token c \<noteq> [] \<and> fs' = (fs(p \<mapsto> encode c))(p @ ''.tmp'' := None)"
  using assms
  by (auto simp: provider_main_def RunWizard_def SaveConfig_def all_written_def Let_def
      split: wizard_result.splits prod.splits if_splits)


definition no_flags :: provider_flags where
  "no_flags = \<lparr>fl_coordinator = None, fl_token = None, fl_ollama = None, fl_models = None, fl_max = None, fl_description = None\<rparr>"

text \<open>A first start that types a token, with the answers the wizard expects.\<close>

definition demo_main :: "string \<Rightarrow> main_world" where
  "demo_main config = \<lparr>mw_env = \<lambda>_. [], mw_hostname = ''host'', mw_home = None, mw_flags = no_flags, mw_config = config,
     mw_wizard = False, mw_no_wizard = False, mw_reachable = \<lambda>_. True, mw_first = \<lambda>_. Some [''llama3''], mw_retries = [],
     mw_lines = [''y'', [], ''inf_01'', ''y''], mw_save = all_written\<rparr>"

definition demo_saved :: Config where
  "demo_saved = zero_config\<lparr>cfg_url := ''wss://gpumesh.net/ws/provider'', cfg_token := ''inf_01'',
     cfg_ollama := ''http://localhost:11434'', cfg_models := [''llama3''], cfg_max := 1, cfg_description := ''host''\<rparr>"

lemma demo_typed: "TrimSpace ''y'' = ''y''" "TrimSpace [] = []" "TrimSpace ''inf_01'' = ''inf_01''" "yes ''y''"
  by code_simp+

lemma demo_first_start:
  "provider_main (\<lambda>_. ''{}'') (\<lambda>_. Some demo_saved) (\<lambda>_. False) (\<lambda>a b. a @ b) (demo_main config) Map.empty
     = (Inr demo_saved, (Map.empty(''./gpumesh.json'' \<mapsto> ''{}''))(''./gpumesh.json.tmp'' := None))"
  by (simp add: provider_main_def main_config_def demo_main_def LoadConfig_def ConfigFilePath_def RunWizard_def
      provider_config_def provider_defaults_def provider_env_def provider_flags_over_def no_flags_def given_def
      wants_wizard_def zero_config_def demo_saved_def all_written_def SaveConfig_def Let_def demo_typed)


lemma pick_models_subset: "set (pick_models models selection []) \<subseteq> set models"
proof -
  have "set (pick_model models s) \<subseteq> set models" for s
    by (auto simp: pick_model_def split: option.splits if_splits intro!: nth_mem)
  then show ?thesis by (auto simp: pick_models_def Let_def)
qed

lemma mask_length: "token \<noteq> [] \<Longrightarrow> length (maskToken token) = length token"
  by (simp add: maskToken_def)

text \<open>A masked token depends on its length and, beyond eight characters, on its first and last four only.\<close>

lemma mask_hides:
  assumes "length t = length t'" and "8 < length t" and "take 4 t = take 4 t'"
    and "drop (length t - 4) t = drop (length t - 4) t'"
  shows "maskToken t = maskToken t'"
  using assms by (auto simp: maskToken_def)

section \<open>The program\<close>

text \<open>
  Once \<open>main\<close> has a configuration the agent runs: there is a token, so \<open>Run\<close> does not refuse, and with the
  default reconnection times (neither given in the file) it waits between one second and one minute each time.
\<close>

lemma program_waits:
  assumes "provider_main encode decode broken join m fs = (Inr cfg, fs')" and "cfg_rmin cfg = 0" "cfg_rmax cfg = 0"
  shows "\<exists>waits. run_agent host probe hn cfg ws = Inr (Some waits) \<and> list_all (\<lambda>t. second \<le> t \<and> t \<le> minute) waits"
proof -
  let ?c = "NewAgent host probe hn cfg"
  have t: "cfg_token cfg \<noteq> []"
    using assms(1) by (auto simp: provider_main_def Let_def split: prod.splits wizard_result.splits if_splits)
  have b: "cfg_rmin ?c = second" "cfg_rmax ?c = minute" "cfg_token ?c = cfg_token cfg"
    using assms(2,3) by (simp_all add: NewAgent_def minute_def)
  then have "sane_backoff ?c" by (simp add: sane_backoff_def minute_def second_def)
  from run_waits_bounds [OF this, of second ws] b t show ?thesis
    by (auto simp: run_agent_def agent_Run_def minute_def second_def)
qed

end
