(* ===== verification/GoTime.thy ===== *)
theory GoTime
  imports RateLimiter GoStrings "HOL-Library.Signed_Division"
begin

text \<open>
  What the coordinator uses of Go's \<open>time\<close> package to show times: dates in UTC, durations in hours and
  minutes as \<open>float64\<close>, and the texts of \<open>formatDuration\<close>, \<open>formatRelative\<close> and \<open>formatExpiresRel\<close>
  (\<open>internal/coord/frontend.go\<close>, \<open>templates.go\<close>). A stored time is a number of seconds since 1970, the
  clock and durations are nanoseconds.
\<close>

section \<open>Dates\<close>

text \<open>Year, month and day of a day number, in the proleptic Gregorian calendar (eras of 400 years from March).\<close>

definition civil :: "int \<Rightarrow> int \<times> int \<times> int" where
  "civil days =
    (let z = days + 719468;
         doe = z mod 146097;
         yoe = (doe - doe div 1460 + doe div 36524 - doe div 146096) div 365;
         doy = doe - (365 * yoe + yoe div 4 - yoe div 100);
         mp = (5 * doy + 2) div 153;
         m = (if mp < 10 then mp + 3 else mp - 9)
     in (yoe + z div 146097 * 400 + (if m \<le> 2 then 1 else 0), m, doy - (153 * mp + 2) div 5 + 1))"

definition pad :: "nat \<Rightarrow> int \<Rightarrow> string" where
  "pad w n = (let s = Itoa \<bar>n\<bar> in (if n < 0 then ''-'' else []) @ replicate (w - length s) (CHR ''0'') @ s)"

definition date_text :: "int \<Rightarrow> string" where
  "date_text t = (case civil (t div 86400) of (y, m, d) \<Rightarrow> pad 4 y @ ''-'' @ pad 2 m @ ''-'' @ pad 2 d)"

definition clock_text :: "int \<Rightarrow> string" where
  "clock_text t = (let r = t mod 86400 in pad 2 (r div 3600) @ '':'' @ pad 2 (r div 60 mod 60) @ '':'' @ pad 2 (r mod 60))"

definition RFC3339 :: "int \<Rightarrow> string" where
  "RFC3339 t = date_text t @ ''T'' @ clock_text t @ ''Z''"

definition datetime_text :: "int \<Rightarrow> string" where
  "datetime_text t = date_text t @ '' '' @ clock_text t"

lemma civil_samples:
  "civil 0 = (1970, 1, 1)" "civil 59 = (1970, 3, 1)" "civil 11016 = (2000, 2, 29)" "civil 20454 = (2026, 1, 1)"
  "civil (-1) = (1969, 12, 31)"
  by code_simp+

lemma RFC3339_sample: "RFC3339 1767225599 = ''2025-12-31T23:59:59Z''"
  by code_simp

section \<open>Durations\<close>

text \<open>\<open>d.Hours()\<close> and \<open>d.Minutes()\<close>: two exact parts, added with \<open>float64\<close> rounding; then \<open>int(\<dots>)\<close>.\<close>

definition dur_units :: "int \<Rightarrow> int \<Rightarrow> int" where
  "dur_units u d =
    (let q = rnd64 (of_int (d sdiv u) + rnd64 (of_int (d smod u) / of_int u))
     in if q \<ge> 0 then \<lfloor>q\<rfloor> else \<lceil>q\<rceil>)"

definition formatDuration :: "int \<Rightarrow> string" where
  "formatDuration d =
    (let days = dur_units hour d sdiv 24; hours = dur_units hour d smod 24; minutes = dur_units minute d smod 60 in
     if days > 0 then Itoa days @ ''d '' @ Itoa hours @ ''h '' @ Itoa minutes @ ''m''
     else if hours > 0 then Itoa hours @ ''h '' @ Itoa minutes @ ''m''
     else Itoa minutes @ ''m'')"

text \<open>\<open>since\<close> is the duration from the time to now, \<open>until\<close> that from now to the time.\<close>

definition formatRelative :: "int \<Rightarrow> string" where
  "formatRelative since =
    (if since < minute then ''just now''
     else if since < hour then formatDuration since
     else if since < 24 * hour then
       (let h = dur_units hour since in if h = 1 then ''1h ago'' else Itoa h @ ''h ago'')
     else
       (let days = dur_units hour since sdiv 24 in if days = 1 then ''1d ago'' else Itoa days @ ''d ago''))"

definition formatExpiresRel :: "int \<Rightarrow> string" where
  "formatExpiresRel until =
    (if until < 0 then ''expired''
     else
       (let days = dur_units hour until sdiv 24 in
        if days \<le> 0 then ''soon'' else if days = 1 then ''in 1d'' else ''in '' @ Itoa days @ ''d''))"

end
