(* ===== verification/Web.thy ===== *)
theory Web
  imports Chat GoTime
begin

text \<open>
  The coordinator's pages and logins: requests and replies, the session cookie (\<open>requireAuth\<close>, \<open>pageData\<close>),
  GitHub login, logout and the full pages of \<open>internal/coord/oauth.go\<close>, \<open>templates.go\<close> and \<open>server.go\<close>, and the
  endpoints of \<open>testmode.go\<close>. A page is its template with the data it is given. Each handler is a function of
  the request and the server; statements on the database are numbered for \<open>e_fault\<close> through \<open>shift\<close>.
\<close>

unbundle bit_operations_syntax

section \<open>Requests and replies\<close>

text \<open>
  What handlers read of a request: the cookie \<open>gpumesh_session\<close>, query, path and form values and headers
  (empty when absent), the form as a whole (\<open>None\<close> when it does not parse), the first JSON value of the body
  (\<open>None\<close> when it does not decode), the peer address and its host part.
\<close>

record http =
  h_method :: string
  h_cookie :: "string option"
  h_query :: "string \<Rightarrow> string"
  h_path :: "string \<Rightarrow> string"
  h_header :: "string \<Rightarrow> string"
  h_form :: "(string \<Rightarrow> string) option"
  h_body :: "json option"
  h_remote :: string
  h_host :: "string option"
  h_tls :: bool

record PageData =
  pd_logged_in :: bool
  pd_login :: string
  pd_has_oauth :: bool
  pd_has_keys :: bool
  pd_new_key :: string
  pd_title :: string
  pd_active_nav :: string
  pd_pin :: string
  pd_redirect :: string
  pd_has_provider :: bool
  pd_has_donor :: bool
  pd_tab :: string
  pd_setup_machine :: string
  pd_keys :: "APIKey list"
  pd_rate_limit :: int
  pd_base_url :: string
  pd_error_code :: "int option"

text \<open>The session cookie set by a reply: its value, \<open>MaxAge\<close>, and whether it is \<open>Secure\<close>.\<close>

record set_cookie =
  ck_value :: string
  ck_max_age :: int
  ck_secure :: bool

datatype reply =
    Reply response
  | FullPage nat string PageData
  | Fragment string json
  | Redirect nat string
  | Plain nat string
  | NoBody nat
  | WithCookie set_cookie reply
  | Trigger string reply

definition put_db :: "store \<Rightarrow> server \<Rightarrow> server" where
  "put_db s sv = sv\<lparr>sv_coord := (sv_coord sv)\<lparr>dbs := s\<rparr>\<rparr>"

definition db :: "server \<Rightarrow> store" where
  "db sv = dbs (sv_coord sv)"

definition get_ok :: "'a \<Rightarrow> 'a result \<Rightarrow> 'a" where
  "get_ok z r = (case r of Inl e \<Rightarrow> z | Inr x \<Rightarrow> x)"

definition base_of :: "server \<Rightarrow> string" where
  "base_of sv = TrimRight1 (sv_base_url sv) (CHR ''/'')"

definition is_provider_key :: "APIKey \<Rightarrow> bool" where
  "is_provider_key k \<longleftrightarrow> k_scope k = ''provider'' \<or> k_scope k = ''donor'' \<or> k_scope k = ''both''"

section \<open>The session cookie\<close>

text \<open>The user of the cookie, 0 when there is none, it is not valid or the lookup fails.\<close>

definition cookie_user :: "hostenv \<Rightarrow> http \<Rightarrow> server \<Rightarrow> int" where
  "cookie_user E h sv = (case h_cookie h of None \<Rightarrow> 0 | Some c \<Rightarrow> get_ok 0 (ValidateSession E c (db sv)))"

definition requireAuth :: "hostenv \<Rightarrow> http \<Rightarrow> server \<Rightarrow> reply + int" where
  "requireAuth E h sv =
    (case h_cookie h of
       None \<Rightarrow> Inl (Redirect 302 ''/login'')
     | Some c \<Rightarrow>
         (case ValidateSession E c (db sv) of
            Inl e \<Rightarrow> Inl (Redirect 302 ''/login'')
          | Inr u \<Rightarrow> if u = 0 then Inl (Redirect 302 ''/login'') else Inr u))"

text \<open>\<open>client\<close> is \<open>GITHUB_CLIENT_ID\<close>.\<close>

definition pageData :: "hostenv \<Rightarrow> string \<Rightarrow> http \<Rightarrow> server \<Rightarrow> PageData" where
  "pageData E client h sv =
    (let uid = cookie_user E h sv; on = uid \<noteq> 0;
         prov = on \<and> list_ex is_provider_key (get_ok [] (ListKeys (shift 3 E) uid (db sv)))
     in \<lparr>pd_logged_in = on,
         pd_login = (if on then get_ok [] (GetUserByID (shift 1 E) uid (db sv)) else []),
         pd_has_oauth = client \<noteq> [],
         pd_has_keys = on \<and> get_ok 0 (CountKeys (shift 2 E) uid (db sv)) > 0,
         pd_new_key = [], pd_title = [], pd_active_nav = [], pd_pin = [], pd_redirect = [],
         pd_has_provider = prov, pd_has_donor = prov, pd_tab = [], pd_setup_machine = [], pd_keys = [],
         pd_rate_limit = 0, pd_base_url = base_of sv, pd_error_code = None\<rparr>)"

section \<open>Login\<close>

text \<open>The configuration given to the OAuth library, without its endpoints; \<open>env\<close> is the environment.\<close>

record OAuthConfig =
  oc_client_id :: string
  oc_client_secret :: string
  oc_redirect_url :: string
  oc_scopes :: "string list"

definition initOAuthConfig :: "(string \<Rightarrow> string) \<Rightarrow> string \<Rightarrow> OAuthConfig" where
  "initOAuthConfig env baseURL = \<lparr>oc_client_id = env ''GITHUB_CLIENT_ID'', oc_client_secret = env ''GITHUB_CLIENT_SECRET'',
     oc_redirect_url = baseURL @ ''/auth/github/callback'', oc_scopes = [''user:email'']\<rparr>"

text \<open>The user id that \<open>requireAuth\<close> left in the context of a request, 0 when there is none.\<close>

definition getUserID :: "int option \<Rightarrow> int" where
  "getUserID v = (case v of None \<Rightarrow> 0 | Some u \<Rightarrow> u)"

definition login_start :: "string \<Rightarrow> (string \<Rightarrow> string) \<Rightarrow> http \<Rightarrow> reply" where
  "login_start client authURL h =
    (if client = [] then Plain 503 ''GitHub OAuth not configured''
     else Redirect 302 (authURL (if h_query h ''redirect'' = [] then ''/use'' else h_query h ''redirect'')))"

text \<open>
  What GitHub answers to a code: the exchange or the request fails, or a body, decoded or not. The status of
  the answer is not looked at.
\<close>

datatype github = ExchangeFails | FetchFails | UserBody "json option"

definition github_user :: "json \<Rightarrow> (int \<times> string) option" where
  "github_user v = (case top_object v of None \<Rightarrow> None
     | Some v1 \<Rightarrow> (case (int_field ''id'' v1, string_field ''login'' v1) of
         (Some i, Some l) \<Rightarrow> Some (i, l) | _ \<Rightarrow> None))"

definition session_cookie :: "string \<Rightarrow> bool \<Rightarrow> set_cookie" where
  "session_cookie token secure = \<lparr>ck_value = token, ck_max_age = 86400, ck_secure = secure\<rparr>"

definition after_login :: "hostenv \<Rightarrow> int \<Rightarrow> string \<Rightarrow> store \<Rightarrow> string" where
  "after_login E u redirect s =
    (if redirect = ''/use'' then
       (if get_ok 0 (CountKeysByScope E u ''consumer'' s) = 0 then redirect @ ''?new=1'' else redirect)
     else if redirect = ''/share'' then
       (if get_ok 0 (CountKeysByScope E u ''provider'' s) = 0 then redirect @ ''?new=1'' else redirect)
     else redirect)"

definition handleGitHubCallback :: "hostenv \<Rightarrow> string option \<Rightarrow> (string \<Rightarrow> github) \<Rightarrow> http \<Rightarrow> server \<Rightarrow> reply \<times> server" where
  "handleGitHubCallback E rnd gh h sv =
    (if h_query h ''code'' = [] then (Plain 400 ''missing code'', sv)
     else case gh (h_query h ''code'') of
       ExchangeFails \<Rightarrow> (Plain 500 ''auth failed'', sv)
     | FetchFails \<Rightarrow> (Plain 500 ''failed to get user info'', sv)
     | UserBody body \<Rightarrow>
         (case Option.bind body github_user of
            None \<Rightarrow> (Plain 500 ''failed to parse user info'', sv)
          | Some (gid, login) \<Rightarrow>
              (case UpsertUser E gid login (db sv) of
                 (Inl e, s1) \<Rightarrow> (Plain 500 ''failed to save user'', put_db s1 sv)
               | (Inr u, s1) \<Rightarrow>
                   (case CreateSession (shift 2 E) rnd u s1 of
                      (Inl e, s2) \<Rightarrow> (Plain 500 ''failed to create session'', put_db s2 sv)
                    | (Inr token, s2) \<Rightarrow>
                        (WithCookie (session_cookie token (h_tls h))
                           (Redirect 302 (after_login (shift 3 E) u
                              (if h_query h ''state'' = [] then ''/use'' else h_query h ''state'') s2)),
                         put_db s2 sv)))))"

definition handleLogout :: "hostenv \<Rightarrow> http \<Rightarrow> server \<Rightarrow> reply \<times> server" where
  "handleLogout E h sv =
    (WithCookie \<lparr>ck_value = [], ck_max_age = -1, ck_secure = False\<rparr> (Redirect 302 ''/''),
     case h_cookie h of None \<Rightarrow> sv | Some c \<Rightarrow> put_db (snd (DeleteSession E c (db sv))) sv)"

section \<open>Pages\<close>

definition handleIndex :: "hostenv \<Rightarrow> string \<Rightarrow> http \<Rightarrow> server \<Rightarrow> reply" where
  "handleIndex E client h sv = FullPage 200 ''index.html'' ((pageData E client h sv)\<lparr>pd_active_nav := ''home''\<rparr>)"

definition handleAbout :: "hostenv \<Rightarrow> string \<Rightarrow> http \<Rightarrow> server \<Rightarrow> reply" where
  "handleAbout E client h sv = FullPage 200 ''about.html'' ((pageData E client h sv)\<lparr>pd_active_nav := ''about''\<rparr>)"

definition redirectUse :: reply where
  "redirectUse = Redirect 301 ''/use''"

definition handleHealth :: reply where
  "handleHealth = Plain 200 ''OK''"

definition handleLoginPage :: "hostenv \<Rightarrow> string \<Rightarrow> http \<Rightarrow> server \<Rightarrow> reply" where
  "handleLoginPage E client h sv = FullPage 200 ''login.html''
     ((pageData E client h sv)\<lparr>pd_active_nav := ''login'',
        pd_redirect := (if h_query h ''redirect'' = [] then ''/use'' else h_query h ''redirect'')\<rparr>)"

definition handleJoinPage :: "hostenv \<Rightarrow> string \<Rightarrow> http \<Rightarrow> server \<Rightarrow> reply" where
  "handleJoinPage E client h sv = FullPage 200 ''join.html''
     ((pageData E client h sv)\<lparr>pd_active_nav := ''join'', pd_pin := h_query h ''pin'',
        pd_redirect := (if h_query h ''pin'' \<noteq> [] then ''/join?pin='' @ h_query h ''pin'' else ''/join'')\<rparr>)"

definition handleShare :: "hostenv \<Rightarrow> string \<Rightarrow> http \<Rightarrow> server \<Rightarrow> reply" where
  "handleShare E client h sv = FullPage 200 ''share.html''
     ((pageData E client h sv)\<lparr>pd_active_nav := ''share'', pd_redirect := ''/share'', pd_base_url := base_of sv\<rparr>)"

text \<open>The member page creates the first consumer key when it is opened with \<open>new=1\<close>.\<close>

definition handleUse :: "hostenv \<Rightarrow> string option \<Rightarrow> string \<Rightarrow> http \<Rightarrow> server \<Rightarrow> reply \<times> server" where
  "handleUse E rnd client h sv =
    (let pd = (pageData E client h sv)\<lparr>pd_active_nav := ''use'', pd_redirect := ''/use'',
                pd_rate_limit := (case sv_limiter sv of None \<Rightarrow> 0 | Some rl \<Rightarrow> Burst rl), pd_base_url := base_of sv,
                pd_tab := (if h_query h ''tab'' = [] then ''machines'' else h_query h ''tab''),
                pd_setup_machine := TrimSpace (h_query h ''setup'')\<rparr>;
         u = cookie_user (shift 4 E) h sv
     in if u = 0 then (FullPage 200 ''use.html'' pd, sv)
        else
          let (new_key, s1) =
                (if h_query h ''new'' = ''1'' \<and> get_ok 0 (CountKeysByScope (shift 5 E) u ''consumer'' (db sv)) = 0
                 then (case CreateKey (shift 6 E) rnd u ''consumer'' (db sv) of
                         (Inl e, s) \<Rightarrow> ([], s) | (Inr (raw, kid), s) \<Rightarrow> (raw, s))
                 else ([], db sv))
          in (FullPage 200 ''use.html'' (pd\<lparr>pd_new_key := new_key, pd_keys := get_ok [] (ListKeys (shift 8 E) u s1)\<rparr>),
              put_db s1 sv))"

section \<open>Test endpoints\<close>

text \<open>\<open>test\<close> says whether \<open>TEST_MODE\<close> is \<open>true\<close>; otherwise these endpoints answer 404.\<close>

definition testModeOnly :: "bool \<Rightarrow> server \<Rightarrow> reply \<times> server \<Rightarrow> reply \<times> server" where
  "testModeOnly test sv next = (if \<not> test then (Plain 404 ''404 page not found'', sv) else next)"

text \<open>FNV-1a, 64 bits, of the login, without the upper 11 bits.\<close>

definition fnv64a :: "string \<Rightarrow> 64 word" where
  "fnv64a s = fold (\<lambda>c h. (h XOR of_nat (of_char c)) * 1099511628211) s 14695981039346656037"

definition testGithubID :: "string \<Rightarrow> int" where
  "testGithubID login = uint (fnv64a login AND 0x1FFFFFFFFFFFFF)"

definition test_login :: "hostenv \<Rightarrow> string option \<Rightarrow> int \<Rightarrow> string \<Rightarrow> server \<Rightarrow> (response + (int \<times> string)) \<times> store" where
  "test_login E rnd gid login sv =
    (case UpsertUser E gid login (db sv) of
       (Inl e, s1) \<Rightarrow> (Inl (writeError 500 ''failed to create test user''), s1)
     | (Inr u, s1) \<Rightarrow>
         (case CreateSession (shift 2 E) rnd u s1 of
            (Inl e, s2) \<Rightarrow> (Inl (writeError 500 ''failed to create session''), s2)
          | (Inr token, s2) \<Rightarrow> (Inr (u, token), s2)))"

definition handleTestSession :: "hostenv \<Rightarrow> string option \<Rightarrow> http \<Rightarrow> server \<Rightarrow> reply \<times> server" where
  "handleTestSession E rnd h sv =
    (let login = (if h_query h ''user'' = [] then ''testuser'' else h_query h ''user'') in
     case test_login E rnd (testGithubID login) login sv of
       (Inl r, s) \<Rightarrow> (Reply r, put_db s sv)
     | (Inr (u, token), s) \<Rightarrow>
         (WithCookie (session_cookie token False)
            (Redirect 303 (if h_query h ''redirect'' = [] then ''/'' else h_query h ''redirect'')), put_db s sv))"

definition handleTestSessionToken :: "hostenv \<Rightarrow> string option \<Rightarrow> http \<Rightarrow> server \<Rightarrow> reply \<times> server" where
  "handleTestSessionToken E rnd h sv =
    (let login = (if h_query h ''user'' = [] then ''testuser'' else h_query h ''user'') in
     case test_login E rnd (testGithubID login) login sv of
       (Inl r, s) \<Rightarrow> (Reply r, put_db s sv)
     | (Inr (u, token), s) \<Rightarrow>
         (Reply (JsonBody 200 (JObj [(''token'', JStr token), (''cookie'', JStr (''gpumesh_session='' @ token)),
            (''user_id'', jint u), (''login'', JStr login)])), put_db s sv))"

definition handleTestAuthGitHub :: "hostenv \<Rightarrow> string option \<Rightarrow> string option \<Rightarrow> http \<Rightarrow> server \<Rightarrow> reply \<times> server" where
  "handleTestAuthGitHub E rnd rnd2 h sv =
    (let login = (if h_query h ''test_user'' = [] then ''testuser'' else h_query h ''test_user'');
         redirect = (if h_query h ''redirect'' = [] then ''/use'' else h_query h ''redirect'') in
     case test_login E rnd 0 login sv of
       (Inl r, s) \<Rightarrow> (Reply r, put_db s sv)
     | (Inr (u, token), s) \<Rightarrow>
         let first = get_ok 0 (CountKeys (shift 3 E) u s) = 0 \<and> (redirect = ''/use'' \<or> redirect = ''/'');
             s1 = (if first then snd (CreateKey (shift 4 E) rnd2 u ScopeConsumer s) else s)
         in (WithCookie (session_cookie token False) (Redirect 303 (if first then redirect @ ''?new=1'' else redirect)),
             put_db s1 sv))"

definition handleLoginStart :: "hostenv \<Rightarrow> string option \<Rightarrow> string option \<Rightarrow> bool \<Rightarrow> string \<Rightarrow> (string \<Rightarrow> string) \<Rightarrow> http \<Rightarrow> server
    \<Rightarrow> reply \<times> server" where
  "handleLoginStart E rnd rnd2 test client authURL h sv =
    (if test \<and> h_query h ''test_user'' \<noteq> [] then handleTestAuthGitHub E rnd rnd2 h sv
     else (login_start client authURL h, sv))"

text \<open>The embedded templates hold error pages for these codes.\<close>

definition error_template :: "int \<Rightarrow> string" where
  "error_template code = (if code \<in> {401, 404, 500, 503} then ''error-'' @ Itoa code @ ''.html'' else ''error-500.html'')"

text \<open>\<open>None\<close> is the panic of \<open>WriteHeader\<close> on a code of more than three digits.\<close>

definition handleTestError :: "hostenv \<Rightarrow> string \<Rightarrow> http \<Rightarrow> server \<Rightarrow> reply option" where
  "handleTestError E client h sv =
    (let code = (case ParseInt (h_query h ''code'') of None \<Rightarrow> 500 | Some c \<Rightarrow> if c < 400 then 500 else c)
     in if code > 999 then None
        else Some (FullPage (nat code) (error_template code) ((pageData E client h sv)\<lparr>pd_title := ''Error '' @ Itoa code,
               pd_error_code := Some code, pd_active_nav := ''home''\<rparr>)))"

text \<open>\<open>None\<close> is the panic of \<open>Reset\<close> on a limiter that does not exist.\<close>

definition handleTestResetRateLimit :: "hostenv \<Rightarrow> http \<Rightarrow> server \<Rightarrow> (reply \<times> server) option" where
  "handleTestResetRateLimit E h sv =
    (if h_query h ''key'' = [] then Some (Reply (writeError 400 ''missing key parameter''), sv)
     else case sv_limiter sv of
       None \<Rightarrow> None
     | Some rl \<Rightarrow> Some (Reply (JsonBody 200 (JObj [(''status'', JStr ''reset'')])),
                          sv\<lparr>sv_limiter := Some (Reset (hashKey E (h_query h ''key'')) rl)\<rparr>))"

definition handleTestSetMachineLoad :: "http \<Rightarrow> server \<Rightarrow> reply \<times> server" where
  "handleTestSetMachineLoad h sv =
    (if h_query h ''machine'' = [] \<or> h_query h ''load'' = []
     then (Reply (writeError 400 ''machine and load params required''), sv)
     else case ParseInt (h_query h ''load'') of
       None \<Rightarrow> (Reply (writeError 400 ''invalid load''), sv)
     | Some load \<Rightarrow>
         if load < 0 then (Reply (writeError 400 ''invalid load''), sv)
         else case GetSession (h_query h ''machine'') (reg (sv_coord sv)) of
           None \<Rightarrow> (Reply (writeError 404 ''machine not found''), sv)
         | Some k \<Rightarrow> (Reply (JsonBody 200 (JObj [(''status'', JStr ''ok''), (''load'', jint load)])),
             sv\<lparr>sv_coord := (sv_coord sv)\<lparr>reg := upd_session k (\<lambda>s. s\<lparr>ms_load := load\<rparr>) (reg (sv_coord sv))\<rparr>\<rparr>))"

end
