(* ===== verification/KeyHandlers.thy ===== *)
theory KeyHandlers
  imports Web
begin

text \<open>
  The endpoints that manage API keys (\<open>internal/coord/keys.go\<close>) and the key panel of the member page
  (\<open>frontend.go\<close>), for the user that \<open>requireAuth\<close> has found. \<open>None\<close> is a panic: a slice out of range, or the
  one of the registry.
\<close>

type_synonym outcome = "(reply \<times> server) option"

definition reply_json :: "nat \<Rightarrow> json \<Rightarrow> reply" where
  "reply_json code v = Reply (JsonBody code v)"

definition reply_error :: "nat \<Rightarrow> string \<Rightarrow> reply" where
  "reply_error code msg = Reply (writeError code msg)"

definition err_text :: "store_error \<Rightarrow> string" where
  "err_text e = (case e of ErrInvalidPin \<Rightarrow> ''invalid_pin'' | ErrExpiredPin \<Rightarrow> ''expired'' | ErrExhausted \<Rightarrow> ''exhausted''
     | ErrRevokedPin \<Rightarrow> ''revoked'' | ErrMachineGone \<Rightarrow> ''machine_gone'' | DbErr m \<Rightarrow> m | MsgErr m \<Rightarrow> m)"

text \<open>\<open>rawKey[:12]\<close>.\<close>

definition key_prefix :: "string \<Rightarrow> string option" where
  "key_prefix raw = (if length raw < 12 then None else Some (take 12 raw))"

definition copy_warning :: string where
  "copy_warning = ''Copy this key now. It will not be shown again.''"

text \<open>The session of a machine is taken out of the registry.\<close>

definition unregister :: "string \<Rightarrow> server \<Rightarrow> server option" where
  "unregister mid sv = map_option (\<lambda>(_, r). sv\<lparr>sv_coord := (sv_coord sv)\<lparr>reg := r\<rparr>\<rparr>) (Unregister mid (reg (sv_coord sv)))"

section \<open>Creating and listing\<close>

definition body_string :: "string \<Rightarrow> http \<Rightarrow> string option" where
  "body_string k h = Option.bind (Option.bind (h_body h) top_object) (string_field k)"

definition requested_scope :: "http \<Rightarrow> string" where
  "requested_scope h =
    (let q = h_query h ''scope'';
         s = (if q = [] then (case body_string ''scope'' h of None \<Rightarrow> [] | Some b \<Rightarrow> b) else q);
         s1 = (if s = [] then ScopeConsumer else s)
     in if s1 = ScopeDonor then ScopeProvider else s1)"

definition new_key_body :: "int \<Rightarrow> string \<Rightarrow> string \<Rightarrow> string \<Rightarrow> (string \<times> json) list" where
  "new_key_body kid raw prefix scope = [(''id'', jint kid), (''key'', JStr raw), (''key_prefix'', JStr prefix),
     (''scope'', JStr scope), (''warning'', JStr copy_warning)]"

definition handleCreateKey :: "hostenv \<Rightarrow> string option \<Rightarrow> http \<Rightarrow> int \<Rightarrow> server \<Rightarrow> outcome" where
  "handleCreateKey E rnd h u sv =
    (if u = 0 then Some (reply_error 401 ''not authenticated'', sv)
     else
       let scope = requested_scope h in
       case CreateKey E rnd u scope (db sv) of
         (Inl e, s1) \<Rightarrow> Some (reply_error 500 ''failed to create key'', put_db s1 sv)
       | (Inr (raw, kid), s1) \<Rightarrow>
           do {
             prefix \<leftarrow> key_prefix raw;
             Some (reply_json 201 (JObj (new_key_body kid raw prefix scope)), put_db s1 sv)
           })"

definition key_entry :: "APIKey \<Rightarrow> json" where
  "key_entry k = JObj [(''id'', jint (k_id k)), (''prefix'', JStr (k_prefix k)), (''scope'', JStr (k_scope k)),
     (''created_at'', JStr (datetime_text (k_created k)))]"

definition handleListKeys :: "hostenv \<Rightarrow> int \<Rightarrow> server \<Rightarrow> reply" where
  "handleListKeys E u sv =
    (if u = 0 then reply_error 401 ''not authenticated''
     else case ListKeys E u (db sv) of
       Inl e \<Rightarrow> reply_error 500 ''failed to list keys''
     | Inr keys \<Rightarrow> reply_json 200 (JObj [(''keys'', JArr (map key_entry keys))]))"

section \<open>The key panel\<close>

definition scope_label :: "string \<Rightarrow> string" where
  "scope_label scope = (if scope = ''provider'' \<or> scope = ''donor'' then ''for provider''
     else if scope = ''both'' then ''for tools & provider'' else ''for tools'')"

definition key_view :: "APIKey \<Rightarrow> json" where
  "key_view k = JObj [(''ID'', jint (k_id k)), (''Prefix'', JStr (k_prefix k)), (''Scope'', JStr (k_scope k)),
     (''ScopeLabel'', JStr (scope_label (k_scope k))), (''CreatedAt'', JStr (date_text (k_created k)))]"

definition keysViewData :: "hostenv \<Rightarrow> int \<Rightarrow> string \<Rightarrow> store \<Rightarrow> json" where
  "keysViewData E u newKey s = JObj [(''Keys'', JArr (map key_view (get_ok [] (ListKeys E u s)))), (''NewKey'', JStr newKey)]"

definition handleUseKeys :: "hostenv \<Rightarrow> int \<Rightarrow> server \<Rightarrow> reply" where
  "handleUseKeys E u sv =
    (if u = 0 then reply_error 401 ''not authenticated'' else Fragment ''use-keys.html'' (keysViewData E u [] (db sv)))"

definition handleUseCreateKey :: "hostenv \<Rightarrow> string option \<Rightarrow> int \<Rightarrow> server \<Rightarrow> reply \<times> server" where
  "handleUseCreateKey E rnd u sv =
    (if u = 0 then (reply_error 401 ''not authenticated'', sv)
     else case CreateKey E rnd u ''consumer'' (db sv) of
       (Inl e, s1) \<Rightarrow> (reply_error 500 ''failed to create key'', put_db s1 sv)
     | (Inr (raw, kid), s1) \<Rightarrow> (Fragment ''use-keys.html'' (keysViewData (shift 2 E) u raw s1), put_db s1 sv))"

section \<open>Revoking\<close>

text \<open>A provider key takes its machine with it: the session ends, its invites and bindings are revoked.\<close>

definition retire_by_key :: "hostenv \<Rightarrow> int \<Rightarrow> server \<Rightarrow> server option" where
  "retire_by_key E keyID sv =
     do {
       sv1 \<leftarrow> (case get_ok None (GetMachineByProviderKeyID E keyID (db sv)) of
                 None \<Rightarrow> Some sv
               | Some m \<Rightarrow> unregister (m_id m) sv);
       Some (put_db (snd (RetireMachineByProviderKeyID (shift 1 E) keyID (db sv1))) sv1)
     }"

definition is_htmx :: "http \<Rightarrow> bool" where
  "is_htmx h \<longleftrightarrow> h_header h ''HX-Request'' = ''true''"

definition handleRevokeKey :: "hostenv \<Rightarrow> http \<Rightarrow> int \<Rightarrow> server \<Rightarrow> outcome" where
  "handleRevokeKey E h u sv =
    (if u = 0 then Some (reply_error 401 ''not authenticated'', sv)
     else case ParseInt (h_path h ''id'') of
       None \<Rightarrow> Some (reply_error 400 ''invalid key id'', sv)
     | Some keyID \<Rightarrow>
         (case FindKeyByID E keyID (db sv) of
            Inl e \<Rightarrow> Some (reply_error 500 ''failed to find key'', sv)
          | Inr None \<Rightarrow> Some (reply_error 404 ''key not found'', sv)
          | Inr (Some old) \<Rightarrow>
              if k_user old \<noteq> u then Some (reply_error 404 ''key not found'', sv)
              else case RevokeKey (shift 1 E) u keyID (db sv) of
                (Inl e, s1) \<Rightarrow> Some (reply_error 404 (''key not found: '' @ err_text e), put_db s1 sv)
              | (Inr _, s1) \<Rightarrow>
                  do {
                    sv2 \<leftarrow> (if IsProviderScope (k_scope old) then retire_by_key (shift 2 E) keyID (put_db s1 sv)
                            else Some (put_db s1 sv));
                    Some (if is_htmx h \<and> h_header h ''X-Share-Panel'' = ''1'' then Trigger ''refreshPanel'' (NoBody 200)
                          else if is_htmx h then handleUseKeys (shift 6 E) u sv2
                          else reply_json 200 (JObj [(''revoked'', JBool True)]), sv2)
                  }))"

section \<open>Regenerating\<close>

definition providerWSURL :: "string \<Rightarrow> string" where
  "providerWSURL b =
    (if Contains b ''localhost'' \<or> Contains b ''127.0.0.1''
     then ''ws://'' @ TrimPrefix (TrimPrefix b ''https://'') ''http://'' @ ''/ws/provider''
     else if HasPrefix b ''https://'' then ''wss://'' @ TrimPrefix b ''https://'' @ ''/ws/provider''
     else ''ws://'' @ TrimPrefix b ''http://'' @ ''/ws/provider'')"

definition token_modal :: "server \<Rightarrow> string \<Rightarrow> reply" where
  "token_modal sv raw = Trigger ''refreshPanel'' (Fragment ''share-token-modal.html''
     (JObj [(''Token'', JStr raw), (''CoordinatorURL'', JStr (providerWSURL (base_of sv))), (''CoordinatorHTTP'', JStr (base_of sv))]))"

text \<open>The machine of a regenerated provider key: the old one is closed and a new one made. Failures are logged only.\<close>

definition move_machine :: "hostenv \<Rightarrow> string option \<Rightarrow> int \<Rightarrow> int \<Rightarrow> int \<Rightarrow> server \<Rightarrow> (string \<times> server) option" where
  "move_machine E rnd u keyID newID sv =
     do {
       (name, sv1) \<leftarrow> (case get_ok None (GetMachineByProviderKeyID E keyID (db sv)) of
           None \<Rightarrow> Some (''machine'', sv)
         | Some m \<Rightarrow> do {
             sva \<leftarrow> unregister (m_id m) sv;
             Some (m_name m, put_db (snd (RetireMachine (shift 1 E) (m_id m) (db sva))) sva)
           });
       (case CreateMachineOnKeyRegen (shift 3 E) rnd u newID name (db sv1) of
          (r, s2) \<Rightarrow> Some (case get_ok None r of None \<Rightarrow> [] | Some m \<Rightarrow> m_id m, put_db s2 sv1))
     }"

definition handleRegenerateKey :: "hostenv \<Rightarrow> string option \<Rightarrow> string option \<Rightarrow> http \<Rightarrow> int \<Rightarrow> server \<Rightarrow> outcome" where
  "handleRegenerateKey E rnd rnd2 h u sv =
    (if u = 0 then Some (reply_error 401 ''not authenticated'', sv)
     else case ParseInt (h_path h ''id'') of
       None \<Rightarrow> Some (reply_error 400 ''invalid key id'', sv)
     | Some keyID \<Rightarrow>
         (case FindKeyByID E keyID (db sv) of
            Inl e \<Rightarrow> Some (reply_error 500 ''failed to find key'', sv)
          | Inr None \<Rightarrow> Some (reply_error 404 ''key not found'', sv)
          | Inr (Some old) \<Rightarrow>
              (case RevokeKey (shift 1 E) u keyID (db sv) of
                 (Inl e, s1) \<Rightarrow> Some (reply_error 404 ''key not found'', put_db s1 sv)
               | (Inr _, s1) \<Rightarrow>
                   (let scope = (if k_scope old = ScopeDonor then ScopeProvider else k_scope old) in
                    case CreateKey (shift 2 E) rnd u scope s1 of
                      (Inl e, s2) \<Rightarrow> Some (reply_error 500 ''failed to create key'', put_db s2 sv)
                    | (Inr (raw, newID), s2) \<Rightarrow>
                        do {
                          (mid, sv3) \<leftarrow> (if IsProviderScope scope then move_machine (shift 4 E) rnd2 u keyID newID (put_db s2 sv)
                                         else Some ([], put_db s2 sv));
                          (if is_htmx h then Some (token_modal sv raw, sv3)
                           else do {
                             prefix \<leftarrow> key_prefix raw;
                             Some (reply_json 200 (JObj (new_key_body newID raw prefix scope
                                     @ (if mid \<noteq> [] then [(''machine_id'', JStr mid)] else []))), sv3)
                           })
                        }))))"

section \<open>Provider tokens from the page\<close>

definition handleShareCreateToken :: "hostenv \<Rightarrow> string option \<Rightarrow> int \<Rightarrow> server \<Rightarrow> reply \<times> server" where
  "handleShareCreateToken E rnd u sv =
    (if u = 0 then (reply_error 401 ''not authenticated'', sv)
     else case CreateKey E rnd u ''provider'' (db sv) of
       (Inl e, s1) \<Rightarrow> (reply_error 500 ''failed to create token'', put_db s1 sv)
     | (Inr (raw, kid), s1) \<Rightarrow> (token_modal sv raw, put_db s1 sv))"

end
