(* ===== verification/InviteHandlers.thy ===== *)
theory InviteHandlers
  imports KeyHandlers
begin

text \<open>
  The endpoints for invites, joining and bindings (\<open>internal/coord/invites.go\<close>), and the ones of the owner's page
  that create an invite and list members (\<open>frontend.go\<close>).
\<close>

section \<open>Invites\<close>

definition body_int :: "string \<Rightarrow> http \<Rightarrow> int option" where
  "body_int k h = Option.bind (Option.bind (h_body h) top_object) (int_field k)"

text \<open>The decoded body: machine, uses, days and label.\<close>

definition invite_body :: "http \<Rightarrow> (string \<times> int \<times> int \<times> string) option" where
  "invite_body h =
     do {
       mid \<leftarrow> body_string ''machine_id'' h;
       uses \<leftarrow> body_int ''max_uses'' h;
       ttl \<leftarrow> body_int ''ttl_days'' h;
       label \<leftarrow> body_string ''label'' h;
       Some (mid, uses, ttl, label)
     }"

definition join_link :: "server \<Rightarrow> string \<Rightarrow> string" where
  "join_link sv pin = base_of sv @ ''/join?pin='' @ pin"

text \<open>\<open>None\<close> is the panic on an invite that the store did not find again.\<close>

definition handleCreateInvite :: "hostenv \<Rightarrow> string option \<Rightarrow> http \<Rightarrow> int \<Rightarrow> server \<Rightarrow> outcome" where
  "handleCreateInvite E rnd h u sv =
    (case invite_body h of
       None \<Rightarrow> Some (reply_error 400 ''invalid request body'', sv)
     | Some (mid, uses0, ttl0, label) \<Rightarrow>
         if mid = [] then Some (reply_error 400 ''machine_id is required'', sv)
         else
           let uses = (if uses0 = 0 then sv_invite_uses sv else uses0);
               ttl = (if ttl0 = 0 then sv_invite_ttl sv else ttl0)
           in case CreateInvite E rnd mid u uses ttl label (db sv) of
                (Inl e, s1) \<Rightarrow> Some (reply_error 403 ''cannot create invite for this machine'', put_db s1 sv)
              | (Inr (None, pin), s1) \<Rightarrow> None
              | (Inr (Some iv, pin), s1) \<Rightarrow>
                  Some (reply_json 201 (JObj [(''id'', jint (i_id iv)), (''machine_id'', JStr (i_machine iv)), (''pin'', JStr pin),
                      (''join_link'', JStr (join_link sv pin)), (''max_uses'', jint (i_max_uses iv)),
                      (''expires_at'', JStr (RFC3339 (i_expires iv))), (''label'', JStr (invite_label iv)),
                      (''warning'', JStr ''Copy this PIN now. It will not be shown again.'')]), put_db s1 sv))"

definition invite_entry :: "hostenv \<Rightarrow> (int \<Rightarrow> string list) \<Rightarrow> Invite \<Rightarrow> json" where
  "invite_entry E redeemers iv = JObj [(''id'', jint (i_id iv)), (''machine_id'', JStr (i_machine iv)),
     (''pin_masked'', JStr (MaskedPIN iv)), (''max_uses'', jint (i_max_uses iv)), (''uses'', jint (i_uses iv)),
     (''expires_at'', JStr (RFC3339 (i_expires iv))), (''status'', JStr (InviteStatus E iv)), (''label'', JStr (invite_label iv)),
     (''created_at'', JStr (RFC3339 (i_created iv))), (''used_by'', JArr (map JStr (redeemers (i_id iv))))]"

definition handleListInvites :: "hostenv \<Rightarrow> int \<Rightarrow> server \<Rightarrow> reply" where
  "handleListInvites E u sv =
    (case ListInvitesByOwner E u (db sv) of
       Inl e \<Rightarrow> reply_error 500 ''failed to list invites''
     | Inr ivs \<Rightarrow>
         (let redeemers = get_ok (\<lambda>_. []) (ListInviteRedeemers (shift 1 E) (map i_id ivs) (db sv))
          in reply_json 200 (JObj [(''invites'', JArr (map (invite_entry E redeemers) ivs))])))"

definition revoked_reply :: reply where
  "revoked_reply = reply_json 200 (JObj [(''revoked'', JBool True)])"

definition handleRevokeInvite :: "hostenv \<Rightarrow> http \<Rightarrow> int \<Rightarrow> server \<Rightarrow> reply \<times> server" where
  "handleRevokeInvite E h u sv =
    (case ParseInt (h_path h ''id'') of
       None \<Rightarrow> (reply_error 400 ''invalid invite id'', sv)
     | Some iid \<Rightarrow>
         (case RevokeInvite E u iid (db sv) of
            (Inl e, s1) \<Rightarrow> (reply_error 404 ''invite not found'', put_db s1 sv)
          | (Inr _, s1) \<Rightarrow> (revoked_reply, put_db s1 sv)))"

section \<open>Joining\<close>

text \<open>Every attempt is counted for the user and for the address.\<close>

definition join_allowed :: "hostenv \<Rightarrow> http \<Rightarrow> int \<Rightarrow> server \<Rightarrow> bool \<times> server" where
  "join_allowed E h u sv =
    (case allow (e_now E) [''user:'' @ Itoa u, ''ip:'' @ clientIP (h_header h ''X-Forwarded-For'') (h_remote h) (h_host h)] (sv_pins sv) of
       (ok, p) \<Rightarrow> (ok, sv\<lparr>sv_pins := p\<rparr>))"

definition is_pin_error :: "store_error \<Rightarrow> bool" where
  "is_pin_error e \<longleftrightarrow> e \<in> {ErrInvalidPin, ErrExpiredPin, ErrExhausted, ErrRevokedPin, ErrMachineGone}"

definition machine_url :: "server \<Rightarrow> string \<Rightarrow> string" where
  "machine_url sv mid = base_of sv @ ''/v1/machines/'' @ mid"

definition handleJoin :: "hostenv \<Rightarrow> string option \<Rightarrow> http \<Rightarrow> int \<Rightarrow> server \<Rightarrow> reply \<times> server" where
  "handleJoin E rnd h u sv =
    (case body_string ''pin'' h of
       None \<Rightarrow> (reply_error 400 ''invalid request body'', sv)
     | Some pin \<Rightarrow>
         (let (ok, sv1) = join_allowed E h u sv in
          if \<not> ok then (Reply (writeAPIError 429 ''rate_limited'' ''rate_limited''), sv1)
          else case RedeemPIN E u pin (db sv1) of
            (Inl e, s2) \<Rightarrow>
              (if is_pin_error e then Reply (writeAPIError 400 (err_text e) (err_text e)) else reply_error 500 ''internal error'',
               put_db s2 sv1)
          | (Inr (mid, _), s2) \<Rightarrow>
              (case EnsureConsumerKey (shift 6 E) rnd u s2 of
                 (Inl e, s3) \<Rightarrow> (reply_error 500 ''failed to ensure API key'', put_db s3 sv1)
               | (Inr (raw, kid, created), s3) \<Rightarrow>
                   (reply_json 200 (JObj ([(''machine_id'', JStr mid), (''base_url'', JStr (machine_url sv mid)), (''key_id'', jint kid)]
                      @ (if created then [(''api_key'', JStr raw), (''warning'', JStr copy_warning)] else []))),
                    put_db s3 sv1))))"

definition joinErrorCopy :: "store_error \<Rightarrow> string \<times> string" where
  "joinErrorCopy e = (case e of
       ErrInvalidPin \<Rightarrow> (''Invalid code'', ''That PIN isn'' @ [CHR 0xE2, CHR 0x80, CHR 0x99] @ ''t recognized. Check for typos.'')
     | ErrExpiredPin \<Rightarrow> (''Code expired'', ''This invite expired. Ask for a new PIN.'')
     | ErrExhausted \<Rightarrow> (''Code already used'', ''This invite already hit its use limit.'')
     | ErrRevokedPin \<Rightarrow> (''Invite revoked'', ''The owner revoked this invite. Ask them for a new code.'')
     | ErrMachineGone \<Rightarrow> (''Machine gone'', ''The machine for this invite no longer exists.'')
     | _ \<Rightarrow> (''Could not join'', ''Something went wrong. Try again.''))"

definition join_failed :: "string \<Rightarrow> string \<times> string \<Rightarrow> reply" where
  "join_failed pin texts = Fragment ''join-result.html'' (JObj [(''Success'', JBool False), (''Pin'', JStr pin),
     (''ErrorTitle'', JStr (fst texts)), (''ErrorMsg'', JStr (snd texts))])"

definition joinModels :: "string list \<Rightarrow> string" where
  "joinModels models = Join models '', ''"

text \<open>The name, online flag and models of a machine as the pages show them.\<close>

definition machine_name :: "hostenv \<Rightarrow> string \<Rightarrow> store \<Rightarrow> string" where
  "machine_name E mid s = (case GetMachine E mid s of
       Inr (Some m) \<Rightarrow> if m_name m \<noteq> [] then m_name m else mid
     | _ \<Rightarrow> mid)"

definition session_of :: "string \<Rightarrow> server \<Rightarrow> MachineSession option" where
  "session_of mid sv = map_option (\<lambda>k. heap (reg (sv_coord sv)) ! k) (GetSession mid (reg (sv_coord sv)))"

definition is_online :: "string \<Rightarrow> server \<Rightarrow> bool" where
  "is_online mid sv = (case session_of mid sv of None \<Rightarrow> False | Some s \<Rightarrow> ms_backend_ok s)"

definition shown_models :: "string \<Rightarrow> server \<Rightarrow> string list" where
  "shown_models mid sv = (case session_of mid sv of None \<Rightarrow> [] | Some s \<Rightarrow> ms_models s)"

definition handleJoinHTMX :: "hostenv \<Rightarrow> string option \<Rightarrow> http \<Rightarrow> int \<Rightarrow> server \<Rightarrow> reply \<times> server" where
  "handleJoinHTMX E rnd h u sv =
    (if u = 0 then (Plain 401 ''unauthorized'', sv)
     else case h_form h of
       None \<Rightarrow> (reply_error 400 ''invalid form'', sv)
     | Some form \<Rightarrow>
         (let pin = TrimSpace (form ''pin''); (ok, sv1) = join_allowed E h u sv in
          if \<not> ok then (join_failed pin (''Too many attempts'', ''Wait a few minutes before trying again.''), sv1)
          else case RedeemPIN E u pin (db sv1) of
            (Inl e, s2) \<Rightarrow> (join_failed pin (joinErrorCopy e), put_db s2 sv1)
          | (Inr (mid, _), s2) \<Rightarrow>
              (case EnsureConsumerKey (shift 6 E) rnd u s2 of
                 (Inl e, s3) \<Rightarrow> (reply_error 500 ''failed to ensure API key'', put_db s3 sv1)
               | (Inr (raw, kid, created), s3) \<Rightarrow>
                   (Fragment ''join-result.html'' (JObj ([(''Success'', JBool True),
                        (''MachineName'', JStr (machine_name (shift 9 E) mid s3)), (''MachineID'', JStr mid),
                        (''Models'', JStr (joinModels (shown_models mid sv))), (''Online'', JBool (is_online mid sv)),
                        (''BaseURL'', JStr (machine_url sv mid))]
                      @ (if created then [(''NewKey'', JStr raw)] else []))),
                    put_db s3 sv1))))"

section \<open>Bindings\<close>

definition load_value :: "int \<times> int \<Rightarrow> json" where
  "load_value q = JNum (rnd64 (of_int (fst q) / of_int (snd q)))"

definition binding_entry :: "server \<Rightarrow> BindingInfo \<Rightarrow> json" where
  "binding_entry sv bi = JObj [(''machine_id'', JStr (bi_machine bi)), (''machine_name'', JStr (bi_name bi)),
     (''role'', JStr (bi_role bi)), (''online'', JBool (is_online (bi_machine bi) sv)),
     (''load'', case session_of (bi_machine bi) sv of None \<Rightarrow> JNum 0 | Some s \<Rightarrow> load_value (LoadFraction s)),
     (''models'', JArr (map JStr (shown_models (bi_machine bi) sv))), (''base_url'', JStr (machine_url sv (bi_machine bi)))]"

definition handleListBindings :: "hostenv \<Rightarrow> int \<Rightarrow> server \<Rightarrow> reply" where
  "handleListBindings E u sv =
    (case ListAccessibleMachines E u (db sv) of
       Inl e \<Rightarrow> reply_error 500 ''failed to list bindings''
     | Inr list \<Rightarrow> reply_json 200 (JObj [(''bindings'', JArr (map (binding_entry sv) list))]))"

text \<open>Every request in flight on the machine is cut off, whoever sent it.\<close>

definition cancelMachineRequests :: "string \<Rightarrow> server \<Rightarrow> server option" where
  "cancelMachineRequests mid sv =
    (case GetSession mid (reg (sv_coord sv)) of
       None \<Rightarrow> Some sv
     | Some k \<Rightarrow> map_option (\<lambda>r. sv\<lparr>sv_coord := (sv_coord sv)\<lparr>reg := r\<rparr>\<rparr>) (CancelAllRequests k (reg (sv_coord sv))))"

definition handleRevokeBinding :: "hostenv \<Rightarrow> http \<Rightarrow> int \<Rightarrow> server \<Rightarrow> outcome" where
  "handleRevokeBinding E h u sv =
    (let mid = h_path h ''machine_id'' in
     case RevokeBindingByMember E u mid (db sv) of
       (Inl e, s1) \<Rightarrow> Some (reply_error 404 ''binding not found'', put_db s1 sv)
     | (Inr _, s1) \<Rightarrow> map_option (Pair revoked_reply) (cancelMachineRequests mid (put_db s1 sv)))"

definition handleRevokeMember :: "hostenv \<Rightarrow> http \<Rightarrow> int \<Rightarrow> server \<Rightarrow> outcome" where
  "handleRevokeMember E h u sv =
    (let mid = h_path h ''machine_id'' in
     case ParseInt (h_path h ''user_id'') of
       None \<Rightarrow> Some (reply_error 400 ''invalid user id'', sv)
     | Some member \<Rightarrow>
         (case RevokeMemberByOwner E u mid member (db sv) of
            (Inl e, s1) \<Rightarrow> Some (reply_error 404 ''member not found'', put_db s1 sv)
          | (Inr _, s1) \<Rightarrow> map_option (Pair revoked_reply) (cancelMachineRequests mid (put_db s1 sv))))"

section \<open>The owner's page\<close>

text \<open>
  \<open>n, _ := strconv.Atoi(s)\<close>: with the error dropped, text that is no number is 0, but one out of range is the
  nearest \<open>int64\<close> (the scan stops where 64 bits overflow).
\<close>

fun scan_uint :: "nat \<Rightarrow> string \<Rightarrow> nat option" where
  "scan_uint n [] = Some n"
| "scan_uint n (c # cs) =
    (let d = (of_char c :: nat) in
     if d < 48 \<or> d > 57 then None
     else let m = 10 * n + (d - 48) in if m \<ge> 2 ^ 64 then Some m else scan_uint m cs)"

definition form_int :: "string \<Rightarrow> int" where
  "form_int s =
    (let (neg, ds) = (case s of [] \<Rightarrow> (False, [])
                      | c # cs \<Rightarrow> if c = CHR ''-'' then (True, cs) else if c = CHR ''+'' then (False, cs) else (False, s))
     in if ds = [] then 0
        else case scan_uint 0 ds of None \<Rightarrow> 0
        | Some n \<Rightarrow> if neg then max (- int n) (- (2 ^ 63)) else min (int n) (2 ^ 63 - 1))"

definition handleShareCreateInvite :: "hostenv \<Rightarrow> string option \<Rightarrow> http \<Rightarrow> int \<Rightarrow> server \<Rightarrow> outcome" where
  "handleShareCreateInvite E rnd h u sv =
    (if u = 0 then Some (reply_error 401 ''not authenticated'', sv)
     else case h_form h of
       None \<Rightarrow> Some (reply_error 400 ''invalid form'', sv)
     | Some form \<Rightarrow>
         (let mid = form ''machine_id'';
              uses = (if form_int (form ''max_uses'') = 0 then sv_invite_uses sv else form_int (form ''max_uses''));
              ttl = (if form_int (form ''ttl_days'') = 0 then sv_invite_ttl sv else form_int (form ''ttl_days''))
          in if mid = [] then Some (reply_error 400 ''machine_id is required'', sv)
             else case CreateInvite E rnd mid u uses ttl [] (db sv) of
               (Inl e, s1) \<Rightarrow> Some (reply_error 403 ''cannot create invite for this machine'', put_db s1 sv)
             | (Inr (None, pin), s1) \<Rightarrow> None
             | (Inr (Some iv, pin), s1) \<Rightarrow>
                 Some (Trigger ''refreshPanel'' (Fragment ''share-invite-modal.html'' (JObj [(''PIN'', JStr pin),
                     (''JoinLink'', JStr (join_link sv pin)), (''MaxUses'', jint (i_max_uses iv)), (''TTLDays'', jint ttl),
                     (''MachineName'', JStr (machine_name (shift 3 E) mid s1))])), put_db s1 sv)))"

end
