(* ===== verification/Pages.thy ===== *)
theory Pages
  imports InviteHandlers
begin

text \<open>
  The statistics and page fragments of \<open>internal/coord/frontend.go\<close> that only read: what each hands to its
  template or encodes.
\<close>

section \<open>Statistics\<close>

definition handleConsumerStats :: "hostenv \<Rightarrow> int \<Rightarrow> server \<Rightarrow> reply" where
  "handleConsumerStats E u sv =
    (if u = 0 then reply_error 401 ''not authenticated''
     else
       let keys = get_ok [] (ListKeys E u (db sv));
           (limit, remaining) = (case sv_limiter sv of None \<Rightarrow> (0, 0)
              | Some rl \<Rightarrow> (Burst rl, foldl (\<lambda>low k. let rem = Remaining (e_now E) (k_hash k) rl in if rem < low then rem else low)
                                          (Burst rl) keys))
       in reply_json 200 (JObj [(''requests_today'', jint (limit - remaining)), (''tokens_today'', jint 0),
            (''rate_limit'', jint limit), (''rate_remaining'', jint remaining)]))"

definition handleOwnerStatsAPI :: "hostenv \<Rightarrow> int \<Rightarrow> server \<Rightarrow> reply" where
  "handleOwnerStatsAPI E u sv =
    (if u = 0 then reply_error 401 ''not authenticated''
     else case GetOwnerStats E u (db sv) of
       Inl e \<Rightarrow> reply_error 500 ''failed to get stats''
     | Inr ds \<Rightarrow> reply_json 200 (JObj [(''total_requests'', jint (os_requests ds)), (''total_tokens'', jint (os_tokens ds)),
         (''total_uptime_seconds'', jint (os_uptime ds)), (''badge'', JStr (BadgeForTokens (os_tokens ds)))]))"

definition agent_entry :: "hostenv \<Rightarrow> MachineSession \<Rightarrow> json" where
  "agent_entry E d = JObj [(''machine_id'', JStr (ms_machine d)), (''online'', JBool True),
     (''models'', JArr (map JStr (ms_models d))), (''load'', JStr (Itoa (ms_load d) @ ''/'' @ Itoa (ms_max d))),
     (''uptime'', JStr (formatDuration (e_now E - ms_connected d))), (''description'', JStr (ms_description d))]"

definition handleOwnerStatus :: "hostenv \<Rightarrow> int \<Rightarrow> server \<Rightarrow> reply" where
  "handleOwnerStatus E u sv =
    (if u = 0 then reply_error 401 ''not authenticated''
     else reply_json 200 (JObj [(''agents'', JArr (map (agent_entry E) (MachinesForUser u (reg (sv_coord sv)))))]))"

section \<open>The owner's panel\<close>

definition formatInviteUsedBy :: "string list \<Rightarrow> string" where
  "formatInviteUsedBy logins = Join (map (\<lambda>l. ''@'' @ l) (rev (remdups (rev (filter (\<lambda>l. l \<noteq> []) logins))))) '', ''"

definition machine_strip :: "server \<Rightarrow> Machine \<Rightarrow> json" where
  "machine_strip sv m =
    (let models = shown_models (m_id m) sv in
     JObj [(''ID'', JStr (m_id m)), (''Name'', JStr (if m_name m = [] then m_id m else m_name m)),
       (''Hardware'', JStr (case session_of (m_id m) sv of None \<Rightarrow> [] | Some s \<Rightarrow> ms_hardware s)),
       (''Online'', JBool (is_online (m_id m) sv)), (''ModelCount'', jint (int (length models))), (''Models'', JStr (joinModels models))])"

definition invite_row :: "hostenv \<Rightarrow> (int \<Rightarrow> string list) \<Rightarrow> Invite \<Rightarrow> json" where
  "invite_row E redeemers iv = JObj [(''ID'', jint (i_id iv)), (''MaskedPIN'', JStr (MaskedPIN iv)),
     (''Status'', JStr (InviteStatus E iv)), (''Uses'', jint (i_uses iv)), (''MaxUses'', jint (i_max_uses iv)),
     (''ExpiresRel'', JStr (formatExpiresRel (i_expires iv * second - e_now E))),
     (''UsedBy'', JStr (formatInviteUsedBy (redeemers (i_id iv))))]"

text \<open>The texts of the setup commands; \<open>quoted\<close> is \<open>%q\<close> and \<open>download\<close> the base of the release files.\<close>

definition setup_data :: "(string \<Rightarrow> string) \<Rightarrow> string \<Rightarrow> string \<Rightarrow> APIKey \<Rightarrow> (string \<times> json) list" where
  "setup_data quoted download b k =
    (let nl = [CHR 0x0A]; dq = [CHR 0x22];
         unix = ''export MESH_COORDINATOR='' @ quoted b @ nl @ ''export MESH_TOKEN='' @ dq @ ''YOUR_PROVIDER_TOKEN'' @ dq @ nl
                @ ''gpumesh-provider'';
         win = ''$env:MESH_COORDINATOR='' @ quoted b @ nl @ ''$env:MESH_TOKEN='' @ dq @ ''YOUR_PROVIDER_TOKEN'' @ dq @ nl
                @ ''.'' @ [CHR 0x5C] @ ''gpumesh-provider.exe''
     in [(''BaseURL'', JStr b), (''DownloadBase'', JStr download), (''RunCommandUnix'', JStr unix), (''RunCommandWindows'', JStr win),
         (''InstallUnix'', JStr (''curl -sSfL '' @ b @ ''/install-provider.sh | sh'')),
         (''InstallWindows'', JStr (''Invoke-WebRequest -Uri '' @ quoted (download @ ''/gpumesh-provider_windows_amd64.zip'')
            @ '' -OutFile gpumesh-provider.zip'' @ nl @ ''Expand-Archive gpumesh-provider.zip -DestinationPath .'' @ nl
            @ ''.'' @ [CHR 0x5C] @ ''gpumesh-provider.exe'')),
         (''TokenPrefix'', JStr (k_prefix k)), (''ProviderKeyID'', jint (k_id k)), (''RunCommand'', JStr unix)])"

definition handleSharePanel :: "hostenv \<Rightarrow> (string \<Rightarrow> string) \<Rightarrow> string \<Rightarrow> int \<Rightarrow> server \<Rightarrow> reply" where
  "handleSharePanel E quoted download u sv =
    (if u = 0 then reply_error 401 ''not authenticated''
     else
       let s = db sv; b = base_of sv; panel = (\<lambda>fs. Fragment ''share-panel.html'' (JObj fs)) in
       case List.find is_provider_key (get_ok [] (ListKeys E u s)) of
         None \<Rightarrow> panel [(''State'', JStr ''no-token''), (''BaseURL'', JStr b)]
       | Some k \<Rightarrow>
           if k_id k = 0 then panel [(''State'', JStr ''no-token''), (''BaseURL'', JStr b)]
           else
             let setup = setup_data quoted download b k; ms = get_ok [] (ListMachinesByOwner (shift 1 E) u s) in
             case ms of
               [] \<Rightarrow> panel (setup @ [(''State'', JStr ''waiting'')])
             | m0 # _ \<Rightarrow>
                 let ivs = get_ok [] (ListInvitesByOwner (shift 2 E) u s);
                     redeemers = get_ok (\<lambda>_. []) (ListInviteRedeemers (shift 3 E) (map i_id ivs) s)
                 in panel (setup @ [(''State'', JStr ''ready''), (''Offline'', JBool (\<not> list_ex (\<lambda>m. is_online (m_id m) sv) ms)),
                      (''Machines'', JArr (map (machine_strip sv) ms)), (''SelectedMachineID'', JStr (m_id m0)),
                      (''Invites'', JArr (map (invite_row E redeemers) ivs)),
                      (''ActiveInviteCount'', jint (int (count_where (\<lambda>i. InviteStatus E i = ''active'') ivs)))]))"

definition member_row :: "hostenv \<Rightarrow> string \<Rightarrow> store \<Rightarrow> Binding \<Rightarrow> json" where
  "member_row E mid s b =
    (let login = get_ok [] (GetUserByID E (b_member b) s) in
     JObj [(''UserID'', jint (b_member b)), (''Login'', JStr (if login = [] then ''user-'' @ Itoa (b_member b) else login)),
       (''MachineID'', JStr mid), (''JoinedRel'', JStr (formatRelative (e_now E - b_created b * second)))])"

definition handleShareMembers :: "hostenv \<Rightarrow> http \<Rightarrow> int \<Rightarrow> server \<Rightarrow> reply" where
  "handleShareMembers E h u sv =
    (if u = 0 then reply_error 401 ''not authenticated''
     else
       let none = Fragment ''share-members.html'' (JObj [(''Members'', JNull)]);
           q = h_query h ''machine_id'';
           mid = (if q = [] then map_option m_id (case get_ok [] (ListMachinesByOwner E u (db sv)) of [] \<Rightarrow> None | m # _ \<Rightarrow> Some m)
                  else Some q)
       in case mid of
            None \<Rightarrow> none
          | Some m \<Rightarrow>
              (case ListMembers (shift 1 E) m u (db sv) of
                 Inl e \<Rightarrow> none
               | Inr bs \<Rightarrow> Fragment ''share-members.html'' (JObj [(''Members'',
                   JArr (map (\<lambda>(i, b). member_row (shift (3 + i) E) m (db sv) b) (enumerate 0 bs)))])))"

section \<open>The member's machines\<close>

definition owner_label :: "hostenv \<Rightarrow> store \<Rightarrow> BindingInfo \<Rightarrow> string" where
  "owner_label E s bi =
    (if bi_role bi = ''member'' then
       (let login = get_ok [] (GetUserByID E (bi_owner bi) s) in if login \<noteq> [] then ''@'' @ login else ''member'')
     else ''owned by you'')"

definition use_machine :: "hostenv \<Rightarrow> string \<Rightarrow> server \<Rightarrow> BindingInfo \<Rightarrow> json" where
  "use_machine E setup sv bi =
    (let mid = bi_machine bi; models = shown_models mid sv in
     JObj [(''ID'', JStr mid), (''Name'', JStr (if bi_name bi = [] then mid else bi_name bi)),
       (''OwnerLabel'', JStr (owner_label E (db sv) bi)), (''Role'', JStr (bi_role bi)), (''Online'', JBool (is_online mid sv)),
       (''Models'', JStr (joinModels models)), (''BaseURL'', JStr (machine_url sv mid)),
       (''DefaultModel'', JStr (case models of [] \<Rightarrow> ''llama3.2:3b'' | m # _ \<Rightarrow> m)),
       (''SetupOpen'', JBool (setup \<noteq> [] \<and> setup = mid))])"

definition handleUseMachines :: "hostenv \<Rightarrow> http \<Rightarrow> int \<Rightarrow> server \<Rightarrow> reply" where
  "handleUseMachines E h u sv =
    (if u = 0 then reply_error 401 ''not authenticated''
     else case ListAccessibleMachines E u (db sv) of
       Inl e \<Rightarrow> reply_error 500 ''failed to list machines''
     | Inr list \<Rightarrow> Fragment ''use-machines.html'' (JObj [(''Machines'',
         JArr (map (\<lambda>(i, bi). use_machine (shift (2 + i) E) (TrimSpace (h_query h ''setup'')) sv bi) (enumerate 0 list)))]))"

section \<open>The install script\<close>

definition providerDownloadBase :: "(string \<Rightarrow> string) \<Rightarrow> string" where
  "providerDownloadBase env =
    (if env ''MESH_INSTALL_SCRIPT_DOWNLOAD_BASE'' \<noteq> [] then env ''MESH_INSTALL_SCRIPT_DOWNLOAD_BASE''
     else ''https://github.com/r00takaspin/gpumesh/releases/latest/download'')"

text \<open>The install script is one template whose only field is the download base.\<close>

definition handleInstallScript :: "(string \<Rightarrow> string) \<Rightarrow> reply" where
  "handleInstallScript env = Fragment ''install'' (JObj [(''DownloadBase'', JStr (providerDownloadBase env))])"

end
