(* ===== verification/Endpoints.thy ===== *)
theory Endpoints
  imports Pages ChatLoad
begin

text \<open>
  The routes of \<open>NewServer\<close> (\<open>internal/coord/server.go\<close>) that are not the provider's WebSocket or the
  API for keys: one definition that serves a request to any of them, with \<open>requireAuth\<close> in front where the
  route has it.
\<close>

datatype user_route =
    CreateKeyE | ListKeysE | RevokeKeyE | RegenerateKeyE
  | ConsumerStats | OwnerStatsE | OwnerStatus
  | CreateInviteE | ListInvitesE | RevokeInviteE | JoinE | ListBindingsE | RevokeBindingE | RevokeMemberE
  | UseKeys | UseCreateKey | UseMachines | SharePanel | ShareMembers | ShareCreateInvite | ShareCreateToken | JoinHTMX

datatype open_route =
    Index | About | JoinPage | UsePage | SharePage | Health | ToUse
  | LoginPage | LoginStart | Callback | Logout | InstallScript
  | TestSession | TestSessionToken | TestError | TestResetRateLimit | TestSetMachineLoad

datatype endpoint = UserRoute user_route | OpenRoute open_route

text \<open>The process environment: OAuth client, GitHub's answers, \<open>TEST_MODE\<close>, \<open>%q\<close>, the download base.\<close>

record process =
  pr_client :: string
  pr_auth_url :: "string \<Rightarrow> string"
  pr_github :: "string \<Rightarrow> github"
  pr_test :: bool
  pr_quoted :: "string \<Rightarrow> string"
  pr_env :: "string \<Rightarrow> string"

text \<open>The routes behind \<open>requireAuth\<close>, for the user it found.\<close>

fun serve_user :: "hostenv \<Rightarrow> process \<Rightarrow> string option \<Rightarrow> string option \<Rightarrow> user_route \<Rightarrow> http \<Rightarrow> int \<Rightarrow> server \<Rightarrow> outcome" where
  "serve_user E p rnd rnd2 CreateKeyE h u sv = handleCreateKey E rnd h u sv"
| "serve_user E p rnd rnd2 ListKeysE h u sv = Some (handleListKeys E u sv, sv)"
| "serve_user E p rnd rnd2 RevokeKeyE h u sv = handleRevokeKey E h u sv"
| "serve_user E p rnd rnd2 RegenerateKeyE h u sv = handleRegenerateKey E rnd rnd2 h u sv"
| "serve_user E p rnd rnd2 ConsumerStats h u sv = Some (handleConsumerStats E u sv, sv)"
| "serve_user E p rnd rnd2 OwnerStatsE h u sv = Some (handleOwnerStatsAPI E u sv, sv)"
| "serve_user E p rnd rnd2 OwnerStatus h u sv = Some (handleOwnerStatus E u sv, sv)"
| "serve_user E p rnd rnd2 CreateInviteE h u sv = handleCreateInvite E rnd h u sv"
| "serve_user E p rnd rnd2 ListInvitesE h u sv = Some (handleListInvites E u sv, sv)"
| "serve_user E p rnd rnd2 RevokeInviteE h u sv = Some (handleRevokeInvite E h u sv)"
| "serve_user E p rnd rnd2 JoinE h u sv = Some (handleJoin E rnd h u sv)"
| "serve_user E p rnd rnd2 ListBindingsE h u sv = Some (handleListBindings E u sv, sv)"
| "serve_user E p rnd rnd2 RevokeBindingE h u sv = handleRevokeBinding E h u sv"
| "serve_user E p rnd rnd2 RevokeMemberE h u sv = handleRevokeMember E h u sv"
| "serve_user E p rnd rnd2 UseKeys h u sv = Some (handleUseKeys E u sv, sv)"
| "serve_user E p rnd rnd2 UseCreateKey h u sv = Some (handleUseCreateKey E rnd u sv)"
| "serve_user E p rnd rnd2 UseMachines h u sv = Some (handleUseMachines E h u sv, sv)"
| "serve_user E p rnd rnd2 SharePanel h u sv =
     Some (handleSharePanel E (pr_quoted p) (providerDownloadBase (pr_env p)) u sv, sv)"
| "serve_user E p rnd rnd2 ShareMembers h u sv = Some (handleShareMembers E h u sv, sv)"
| "serve_user E p rnd rnd2 ShareCreateInvite h u sv = handleShareCreateInvite E rnd h u sv"
| "serve_user E p rnd rnd2 ShareCreateToken h u sv = Some (handleShareCreateToken E rnd u sv)"
| "serve_user E p rnd rnd2 JoinHTMX h u sv = Some (handleJoinHTMX E rnd h u sv)"

text \<open>The open routes.\<close>

fun serve_public :: "hostenv \<Rightarrow> process \<Rightarrow> string option \<Rightarrow> string option \<Rightarrow> open_route \<Rightarrow> http \<Rightarrow> server \<Rightarrow> outcome" where
  "serve_public E p rnd rnd2 Index h sv = Some (handleIndex E (pr_client p) h sv, sv)"
| "serve_public E p rnd rnd2 About h sv = Some (handleAbout E (pr_client p) h sv, sv)"
| "serve_public E p rnd rnd2 JoinPage h sv = Some (handleJoinPage E (pr_client p) h sv, sv)"
| "serve_public E p rnd rnd2 UsePage h sv = Some (handleUse E rnd (pr_client p) h sv)"
| "serve_public E p rnd rnd2 SharePage h sv = Some (handleShare E (pr_client p) h sv, sv)"
| "serve_public E p rnd rnd2 Health h sv = Some (handleHealth, sv)"
| "serve_public E p rnd rnd2 ToUse h sv = Some (redirectUse, sv)"
| "serve_public E p rnd rnd2 LoginPage h sv = Some (handleLoginPage E (pr_client p) h sv, sv)"
| "serve_public E p rnd rnd2 LoginStart h sv = Some (handleLoginStart E rnd rnd2 (pr_test p) (pr_client p) (pr_auth_url p) h sv)"
| "serve_public E p rnd rnd2 Callback h sv = Some (handleGitHubCallback E rnd (pr_github p) h sv)"
| "serve_public E p rnd rnd2 Logout h sv = Some (handleLogout E h sv)"
| "serve_public E p rnd rnd2 InstallScript h sv = Some (handleInstallScript (pr_env p), sv)"
| "serve_public E p rnd rnd2 TestSession h sv = Some (testModeOnly (pr_test p) sv (handleTestSession E rnd h sv))"
| "serve_public E p rnd rnd2 TestSessionToken h sv = Some (testModeOnly (pr_test p) sv (handleTestSessionToken E rnd h sv))"
| "serve_public E p rnd rnd2 TestError h sv =
     (if \<not> pr_test p then Some (testModeOnly False sv (NoBody 200, sv))
      else map_option (\<lambda>r. (r, sv)) (handleTestError E (pr_client p) h sv))"
| "serve_public E p rnd rnd2 TestResetRateLimit h sv =
     (if \<not> pr_test p then Some (testModeOnly False sv (NoBody 200, sv)) else handleTestResetRateLimit E h sv)"
| "serve_public E p rnd rnd2 TestSetMachineLoad h sv = Some (testModeOnly (pr_test p) sv (handleTestSetMachineLoad h sv))"

definition serve :: "hostenv \<Rightarrow> process \<Rightarrow> string option \<Rightarrow> string option \<Rightarrow> endpoint \<Rightarrow> http \<Rightarrow> server \<Rightarrow> outcome" where
  "serve E p rnd rnd2 ep h sv =
    (case ep of
       OpenRoute r \<Rightarrow> serve_public E p rnd rnd2 r h sv
     | UserRoute r \<Rightarrow>
         (case requireAuth E h sv of
            Inl refusal \<Rightarrow> Some (refusal, sv)
          | Inr u \<Rightarrow> serve_user (shift 1 E) p rnd rnd2 r h u sv))"

section \<open>Cross-origin requests\<close>

text \<open>The headers that the middleware adds; a preflight request is answered before the handler is reached.\<close>

definition cors_headers :: "(string \<times> string) list" where
  "cors_headers = [(''Access-Control-Allow-Origin'', ''*''), (''Access-Control-Allow-Headers'', ''Authorization, Content-Type'')]"

definition corsMiddleware :: "http \<Rightarrow> server \<Rightarrow> outcome \<Rightarrow> (string \<times> string) list \<times> outcome" where
  "corsMiddleware h sv served = (cors_headers, if h_method h = ''OPTIONS'' then Some (NoBody 204, sv) else served)"

definition handleCORS :: "(string \<times> string) list \<times> reply" where
  "handleCORS = (cors_headers @ [(''Access-Control-Allow-Methods'', ''GET, POST, OPTIONS'')], NoBody 204)"

end
