(* ===== verification/JoinProps.thy ===== *)
theory JoinProps
  imports EndpointProps
begin

text \<open>
  Joining and leaving through the endpoints: what a successful \<open>POST /api/join\<close> gives the user, how often PINs can
  be tried, and whom the end of a membership cuts off.
\<close>

section \<open>Joining\<close>

lemma EnsureConsumerKey_cases:
  assumes "EnsureConsumerKey E rnd u s = (Inr (raw, kid, created), s')"
  obtains (old) k where "\<not> created" "s' = s" "k \<in> set (api_keys s)" "k_id k = kid" "k_user k = u" "k_revoked k = None"
      "k_scope k \<in> {''consumer'', ''both''}"
  | (new) k where "created" "api_keys s' = api_keys s @ [k]" "k_id k = kid" "k_user k = u" "k_revoked k = None"
      "k_scope k = ''consumer''" "k_hash k = hashKey E raw"
proof -
  obtain keys where keys: "ListKeys E u s = Inr keys" using assms by (auto simp: EnsureConsumerKey_def split: sum.splits)
  have own: "k \<in> set (api_keys s) \<and> k_user k = u \<and> k_revoked k = None" if "k \<in> set keys" for k
    using keys that by (auto simp: ListKeys_def split: if_splits)
  show thesis
  proof (cases "List.find (\<lambda>k. k_scope k = ''consumer'' \<or> k_scope k = ''both'') keys")
    case (Some k)
    from find_SomeD [OF Some] own [of k] keys Some assms old [of k] show thesis by (auto simp: EnsureConsumerKey_def)
  next
    case None
    obtain r s1 where r: "CreateKey (shift 1 E) rnd u ''consumer'' s = (r, s1)" by fastforce
    with None keys assms have c: "r = Inr (raw, kid)" "created" "s' = s1"
      by (auto simp: EnsureConsumerKey_def split: sum.splits prod.splits)
    with r have "\<exists>k. api_keys s1 = api_keys s @ [k] \<and> k_id k = kid \<and> k_user k = u \<and> k_revoked k = None
        \<and> k_scope k = ''consumer'' \<and> k_hash k = hashKey E raw"
      by (auto simp: CreateKey_def Let_def normalizeScope_def split: option.splits if_splits)
    with c new show thesis by blast
  qed
qed

text \<open>An active key authenticates with its text.\<close>

lemma active_key_authenticates:
  assumes ok: "store_ok s" and nf: "no_faults E'" and k: "k \<in> set (api_keys s)" "k_revoked k = None" "k_hash k = hashKey E' raw"
  shows "requireAPIKey E' (''Bearer '' @ raw) s = Inr (hashKey E' raw, k_user k)"
proof -
  have "List.find (\<lambda>q. k_hash q = hashKey E' raw) (api_keys s) = Some k"
    using distinct_find [of k_hash "api_keys s" k] ok k by (simp add: store_ok_def keys_ok_def)
  moreover have "HasPrefix (''Bearer '' @ raw) ''Bearer ''" unfolding HasPrefix_iff by blast
  ultimately show ?thesis using nf k(2) TrimPrefix_append [of "''Bearer ''" raw]
    by (simp add: requireAPIKey_def FindKeyByHash_def Let_def del: TrimPrefix_append)
qed

lemma hashKey_env: "e_sha E' = e_sha E \<Longrightarrow> hashKey E' x = hashKey E x"
  by (simp add: hashKey_def)

text \<open>The statements behind a successful join.\<close>

lemma handleJoin_200:
  assumes "handleJoin E rnd h u sv = (Reply (JsonBody 200 body), sv')"
  obtains pin sv1 mid iid s2 raw kid created s3 where "body_string ''pin'' h = Some pin" "join_allowed E h u sv = (True, sv1)"
    "RedeemPIN E u pin (db sv) = (Inr (mid, iid), s2)" "EnsureConsumerKey (shift 6 E) rnd u s2 = (Inr (raw, kid, created), s3)"
    "sv' = put_db s3 sv1" "body = JObj ([(''machine_id'', JStr mid), (''base_url'', JStr (machine_url sv mid)), (''key_id'', jint kid)]
                      @ (if created then [(''api_key'', JStr raw), (''warning'', JStr copy_warning)] else []))"
proof -
  obtain pin where pin: "body_string ''pin'' h = Some pin"
    using assms by (cases "body_string ''pin'' h") (auto simp: handleJoin_def reply_error_def writeError_def writeAPIError_def)
  obtain a sv1 where a: "join_allowed E h u sv = (a, sv1)" by fastforce
  have d: "db sv1 = db sv" using join_allowed_frame [OF a] by (simp add: db_def)
  obtain r s2 where r: "RedeemPIN E u pin (db sv) = (r, s2)" by fastforce
  obtain q s3 where q: "EnsureConsumerKey (shift 6 E) rnd u s2 = (q, s3)" by fastforce
  show thesis
  proof (cases r)
    case (Inl e)
    with assms pin a r d show thesis
      by (cases a) (auto simp: handleJoin_def reply_error_def writeError_def writeAPIError_def split: if_splits)
  next
    case (Inr p)
    obtain mid iid where p: "p = (mid, iid)" by fastforce
    show thesis
    proof (cases q)
      case (Inl e)
      with assms pin a r d q \<open>r = Inr p\<close> p show thesis
        by (cases a) (auto simp: handleJoin_def reply_error_def writeError_def writeAPIError_def split: if_splits)
    next
      case (Inr t)
      obtain raw kid created where t: "t = (raw, kid, created)" by (metis prod_cases3)
      show thesis
        using assms pin a r d q \<open>r = Inr p\<close> p Inr t
        by (cases a) (auto simp: handleJoin_def reply_json_def writeAPIError_def intro!: that)
    qed
  qed
qed


lemma demo_join_admitted: "join_allowed demo_env demo_http 2 (session_server 2) = (True, snd (join_allowed demo_env demo_http 2 (session_server 2)))"
  by (simp add: join_allowed_def session_server_def live_server_def demo_server_def allow_def newPinLimiter_def demo_http_def
      split: prod.split) 

lemma demo_join_redeems:
  "\<exists>s2. RedeemPIN demo_env 2 ''3456-789A'' (db (session_server 2)) = (Inr (''mch_1'', 1), s2)
    \<and> api_keys s2 = api_keys demo_store \<and> has_user s2 2"
proof -
  let ?s = "db (session_server 2)"
  have f: "invites ?s = [demo_invite]" "api_keys ?s = api_keys demo_store" "users ?s = users demo_store"
    by (simp_all add: session_server_def demo_store_def)
  have u: "has_user ?s 2" by (simp add: has_user_def f) (simp add: demo_store_def)
  have "open_invite demo_env ?s ''3456-789A'' demo_invite"
    by (simp add: open_invite_def f) (simp add: demo_invite_def second_def)
  then have r: "fst (RedeemPIN demo_env 2 ''3456-789A'' ?s) = Inr (i_machine demo_invite, i_id demo_invite)"
    using session_server_ok [of 2] u demo_owner
    by (intro RedeemPIN_success) (simp_all add: server_ok_iff no_faults_def)
  obtain q s2 where q: "RedeemPIN demo_env 2 ''3456-789A'' ?s = (q, s2)" by fastforce
  have "store_ok ?s" using session_server_ok [of 2] by (simp add: server_ok_iff)
  from redeem_effect [OF this q] r q have "users s2 = users ?s"
    using demo_owner by (auto simp: open_invite_def f)
  then show ?thesis
    using RedeemPIN_keys(1) [of demo_env 2 "''3456-789A''" ?s] q r u f
    by (auto simp: has_user_def demo_invite_def)
qed


section \<open>Trying PINs\<close>

text \<open>
  The two ways to join, as one step: the JSON endpoint and the form. An attempt is a request that gets as far
  as \<open>RedeemPIN\<close>.
\<close>

datatype join_way = ByJson | ByForm

type_synonym join_request = "hostenv \<times> string option \<times> http \<times> int \<times> join_way"

fun join_step :: "join_request \<Rightarrow> server \<Rightarrow> reply \<times> server" where
  "join_step (E, rnd, h, u, ByJson) sv = handleJoin E rnd h u sv"
| "join_step (E, rnd, h, u, ByForm) sv = handleJoinHTMX E rnd h u sv"

fun readable :: "join_request \<Rightarrow> bool" where
  "readable (E, rnd, h, u, ByJson) \<longleftrightarrow> body_string ''pin'' h \<noteq> None"
| "readable (E, rnd, h, u, ByForm) \<longleftrightarrow> u \<noteq> 0 \<and> h_form h \<noteq> None"

fun attempted :: "join_request \<Rightarrow> server \<Rightarrow> bool" where
  "attempted (E, rnd, h, u, way) sv \<longleftrightarrow> readable (E, rnd, h, u, way) \<and> fst (join_allowed E h u sv)"

text \<open>The times at which a user's attempts happen in a run.\<close>

fun attempts_of :: "int \<Rightarrow> join_request list \<Rightarrow> server \<Rightarrow> int list" where
  "attempts_of v [] sv = []"
| "attempts_of v ((E, rnd, h, u, way) # qs) sv =
     (if u = v \<and> attempted (E, rnd, h, u, way) sv then [e_now E] else [])
     @ attempts_of v qs (snd (join_step (E, rnd, h, u, way) sv))"

definition join_keys :: "http \<Rightarrow> int \<Rightarrow> string list" where
  "join_keys h u = [''user:'' @ Itoa u, ''ip:'' @ clientIP (h_header h ''X-Forwarded-For'') (h_remote h) (h_host h)]"

fun limiter_call :: "join_request \<Rightarrow> int \<times> string list" where
  "limiter_call (E, rnd, h, u, way) = (e_now E, join_keys h u)"

lemma join_allowed_eq: "join_allowed E h u sv
    = (fst (allow (e_now E) (join_keys h u) (sv_pins sv)), sv\<lparr>sv_pins := snd (allow (e_now E) (join_keys h u) (sv_pins sv))\<rparr>)"
  by (simp add: join_allowed_def join_keys_def split: prod.split)

lemma handleJoin_pins:
  "sv_pins (snd (handleJoin E rnd h u sv))
    = (if body_string ''pin'' h = None then sv_pins sv else snd (allow (e_now E) (join_keys h u) (sv_pins sv)))"
  by (simp add: handleJoin_def join_allowed_eq Let_def split: option.split sum.split prod.split)

lemma handleJoinHTMX_pins:
  "sv_pins (snd (handleJoinHTMX E rnd h u sv))
    = (if u = 0 \<or> h_form h = None then sv_pins sv else snd (allow (e_now E) (join_keys h u) (sv_pins sv)))"
  by (simp add: handleJoinHTMX_def join_allowed_eq Let_def split: option.split sum.split prod.split)

lemma join_step_pins:
  "sv_pins (snd (join_step q sv))
    = (if readable q then snd (allow (fst (limiter_call q)) (snd (limiter_call q)) (sv_pins sv)) else sv_pins sv)"
  by (cases "(q, sv)" rule: join_step.cases) (auto simp: handleJoin_pins handleJoinHTMX_pins)

lemma join_keys_distinct: "distinct (join_keys h u)"
  by (simp add: join_keys_def)

lemma user_key_in: "''user:'' @ Itoa v \<in> set (join_keys h u) \<longleftrightarrow> u = v"
  by (auto simp: join_keys_def dest: Itoa_inj)

lemma attempts_window:
  assumes "window_inv (''user:'' @ Itoa v) (sv_pins sv) hist L" and "sorted (L # map (\<lambda>q. fst (limiter_call q)) qs)"
  shows "int (in_window (pl_window (sv_pins sv)) T (hist @ attempts_of v qs sv)) \<le> pl_limit (sv_pins sv)"
  using assms
proof (induction qs arbitrary: sv hist L)
  case Nil
  then show ?case by (simp add: window_inv_def)
next
  case (Cons q qs)
  obtain E rnd h u way where q: "q = (E, rnd, h, u, way)" by (metis prod_cases5)
  let ?sv = "snd (join_step q sv)"
  show ?case
  proof (cases "readable q")
    case False
    then have "sv_pins ?sv = sv_pins sv" by (simp add: join_step_pins)
    with Cons.IH [of ?sv hist L] Cons.prems False q show ?thesis by simp
  next
    case True
    obtain b p where a: "allow (e_now E) (join_keys h u) (sv_pins sv) = (b, p)" by fastforce
    have p: "sv_pins ?sv = p" using True a q by (simp add: join_step_pins)
    have b: "fst (join_allowed E h u sv) = b" using a by (simp add: join_allowed_eq)
    have same: "pl_window p = pl_window (sv_pins sv)" "pl_limit p = pl_limit (sv_pins sv)"
      using a prune_frame by (auto elim!: allow_cases)
    define hist' where "hist' = hist @ (if u = v \<and> b then [e_now E] else [])"
    have "window_inv (''user:'' @ Itoa v) p hist' (e_now E)"
      using allow_window [OF Cons.prems(1) _ _ join_keys_distinct a, unfolded user_key_in] Cons.prems(2) q
      by (auto simp: hist'_def split: if_splits)
    then have "int (in_window (pl_window p) T (hist' @ attempts_of v qs ?sv)) \<le> pl_limit p"
      using Cons.IH [of ?sv hist' "e_now E"] Cons.prems(2) p q by simp
    moreover have "hist @ attempts_of v (q # qs) sv = hist' @ attempts_of v qs ?sv"
      using True q b by (simp add: hist'_def)
    ultimately show ?thesis using same by simp
  qed
qed

lemma new_window: "window_inv key (newPinLimiter limit) [] L"
  by (simp add: window_inv_def newPinLimiter_def recent_def in_window_def duration_defs)



end
