(* ===== verification/AccountProps.thy ===== *)
theory AccountProps
  imports JoinProps
begin

text \<open>
  The end of a membership, of a key and of a login, through the endpoints: whom a revocation cuts off, what a revoked or
  regenerated provider key does to its machine, and what GitHub's answer is taken for.
\<close>

section \<open>Leaving a machine\<close>

text \<open>What the removal of one binding does to access.\<close>

lemma revoke_binding_exact:
  assumes "revoke_binding E mid u s = (Inr (), s1)"
  shows "member_access s1 v m \<longleftrightarrow> member_access s v m \<and> (m, v) \<noteq> (mid, u)"
  using assms by (auto simp: revoke_binding_def Let_def member_access_revoked split: if_splits)
    (auto simp: member_access_def)

text \<open>What \<open>CancelAllRequests\<close> does to the streams of the machine.\<close>

lemma cancel_closes:
  assumes ok: "server_ok sv" and k: "GetSession mid (reg (sv_coord sv)) = Some k"
    and c: "cancelMachineRequests mid sv = Some sv1"
  shows "GetSession mid (reg (sv_coord sv1)) = Some k" "session_chans (heap (reg (sv_coord sv1)) ! k) = []"
    "\<forall>c \<in> set (session_chans (heap (reg (sv_coord sv)) ! k)). c_closed (chans (reg (sv_coord sv1)) ! c)"
proof -
  let ?r = "reg (sv_coord sv)"
  have rok: "registry_ok ?r" using ok by (simp add: server_ok_iff)
  have so: "session_ok ?r (heap ?r ! k)" and kl: "k < length (heap ?r)" using registry_okD [OF rok k] by simp_all
  then obtain r1 where r1: "close_all (session_chans (heap ?r ! k)) ?r = Some r1" "heap r1 = heap ?r" "online r1 = online ?r"
    "\<forall>c \<in> set (session_chans (heap ?r ! k)). c_closed (chans r1 ! c)"
    using close_all_spec [of ?r "session_chans (heap ?r ! k)"] by (auto simp: session_ok_def)
  have "reg (sv_coord sv1) = upd_session k (\<lambda>s. s\<lparr>ms_chunks := map_option (\<lambda>_. []) (ms_chunks s)\<rparr>) r1"
    using c k r1(1) by (auto simp: cancelMachineRequests_def CancelAllRequests_def)
  with r1 k kl so show "GetSession mid (reg (sv_coord sv1)) = Some k" "session_chans (heap (reg (sv_coord sv1)) ! k) = []"
    "\<forall>c \<in> set (session_chans (heap ?r ! k)). c_closed (chans (reg (sv_coord sv1)) ! c)"
    by (auto simp: GetSession_def upd_session_def session_chans_def session_ok_def)
qed

text \<open>Both ways to end the membership of a user come down to one removed binding.\<close>

definition ends_membership :: "hostenv \<Rightarrow> http \<Rightarrow> int \<Rightarrow> server \<Rightarrow> outcome \<Rightarrow> bool" where
  "ends_membership E h v sv r \<longleftrightarrow> r = handleRevokeBinding E h v sv
     \<or> (\<exists>w. r = handleRevokeMember E h w sv \<and> ParseInt (h_path h ''user_id'') = Some v)"

lemma ends_membership_binding:
  assumes "ends_membership E h v sv (Some (Reply (JsonBody 200 body), sv'))"
  obtains E1 s1 where "revoke_binding E1 (h_path h ''machine_id'') v (db sv) = (Inr (), s1)"
    "cancelMachineRequests (h_path h ''machine_id'') (put_db s1 sv) = Some sv'"
proof -
  let ?mid = "h_path h ''machine_id''"
  have none: "Reply (JsonBody 200 body) \<noteq> reply_error 404 x" "Reply (JsonBody 200 body) \<noteq> reply_error 400 x" for x
    by (auto simp: reply_error_def writeError_def writeAPIError_def)
  from assms show thesis unfolding ends_membership_def
  proof
    assume r: "Some (Reply (JsonBody 200 body), sv') = handleRevokeBinding E h v sv"
    obtain q s1 where q: "RevokeBindingByMember E v ?mid (db sv) = (q, s1)" by fastforce
    show thesis
    proof (cases q)
      case (Inl e)
      with r q none show thesis by (simp add: handleRevokeBinding_def Let_def)
    next
      case (Inr x)
      with q have "revoke_binding E ?mid v (db sv) = (Inr (), s1)" by (simp add: RevokeBindingByMember_def)
      moreover have "cancelMachineRequests ?mid (put_db s1 sv) = Some sv'"
        using r [symmetric] q Inr by (auto simp: handleRevokeBinding_def Let_def)
      ultimately show thesis by (rule that)
    qed
  next
    assume "\<exists>w. Some (Reply (JsonBody 200 body), sv') = handleRevokeMember E h w sv \<and> ParseInt (h_path h ''user_id'') = Some v"
    then obtain w where r: "Some (Reply (JsonBody 200 body), sv') = handleRevokeMember E h w sv"
      and p: "ParseInt (h_path h ''user_id'') = Some v" by blast
    obtain q s1 where q: "RevokeMemberByOwner E w ?mid v (db sv) = (q, s1)" by fastforce
    show thesis
    proof (cases q)
      case (Inl e)
      with r p q none show thesis by (simp add: handleRevokeMember_def Let_def)
    next
      case (Inr x)
      with q have "revoke_binding (shift 1 E) ?mid v (db sv) = (Inr (), s1)"
        by (auto simp: RevokeMemberByOwner_def split: sum.splits option.splits if_splits)
      moreover have "cancelMachineRequests ?mid (put_db s1 sv) = Some sv'"
        using r [symmetric] p q Inr by (auto simp: handleRevokeMember_def Let_def)
      ultimately show thesis by (rule that)
    qed
  qed
qed

text \<open>
  C24: The end of one membership cuts off every user of the machine. When a member leaves, or the owner removes one, and
  the endpoint answers 200, that user loses access to that machine and nobody loses any other access; the provider stays
  connected; but every stream of its session, of whichever user, is closed and taken out of the session.
\<close>

theorem leaving_cuts_everyone:
  assumes ok: "server_ok sv" and e: "ends_membership E h v sv (Some (Reply (JsonBody 200 body), sv'))"
    and mid: "mid = h_path h ''machine_id''"
  shows "(\<forall>u m. member_access (db sv') u m = (member_access (db sv) u m \<and> (m, u) \<noteq> (mid, v)))
    \<and> (GetSession mid (reg (sv_coord sv)) = Some k \<longrightarrow>
        GetSession mid (reg (sv_coord sv')) = Some k \<and> session_chans (heap (reg (sv_coord sv')) ! k) = []
        \<and> (\<forall>c \<in> set (session_chans (heap (reg (sv_coord sv)) ! k)). c_closed (chans (reg (sv_coord sv')) ! c)))"
proof -
  obtain E1 s1 where r: "revoke_binding E1 mid v (db sv) = (Inr (), s1)"
    and c: "cancelMachineRequests mid (put_db s1 sv) = Some sv'"
    using ends_membership_binding [OF e] unfolding mid by blast
  have "store_ok s1" using revoke_binding_ok [of "db sv" E1 mid v] r ok by (simp add: server_ok_iff)
  with ok have ok1: "server_ok (put_db s1 sv)" by (simp add: server_ok_iff)
  obtain sv2 where "cancelMachineRequests mid (put_db s1 sv) = Some sv2" "db sv2 = s1" using cancel_ok [OF ok1] by auto
  with c have "db sv' = s1" by simp
  with revoke_binding_exact [OF r] cancel_closes [OF ok1 _ c] show ?thesis by auto
qed

text \<open>The demo server with the second user bound, and a stream open on its machine.\<close>

definition bound_server :: server where
  "bound_server = (let sv = put_db demo_bound live_server in
     sv\<lparr>sv_coord := (sv_coord sv)\<lparr>reg := the (reg_step (ROpen ''mch_1'' ''r'' 32) demo_registry)\<rparr>\<rparr>)"

lemma bound_server_ok: "server_ok bound_server"
  using demo_bound_ok reg_step_ok [OF demo_registry_ok, of "ROpen ''mch_1'' ''r'' 32"]
  by (auto simp: bound_server_def server_ok_def coord_ok_def put_db_def Let_def)

lemma bound_server_db: "db bound_server = demo_bound"
  by (simp add: bound_server_def db_def put_db_def Let_def)

lemma bound_server_reg: "GetSession ''mch_1'' (reg (sv_coord bound_server)) = Some 0"
  "session_chans (heap (reg (sv_coord bound_server)) ! 0) = [0]"
  by (simp_all add: bound_server_def Let_def demo_registry_def Register_def NewRegistry_def GetSession_def new_session_def
        open_request_def make_chan_def RegisterChunkChannel_def upd_session_def session_chans_def)

theorem leaving_cuts_everyone_witness:
  "\<exists>sv'. handleRevokeBinding demo_env (demo_http\<lparr>h_path := \<lambda>_. ''mch_1''\<rparr>) 2 bound_server = Some (revoked_reply, sv')
    \<and> \<not> member_access (db sv') 2 ''mch_1'' \<and> c_closed (chans (reg (sv_coord sv')) ! 0)"
proof -
  let ?h = "demo_http\<lparr>h_path := \<lambda>_. ''mch_1''\<rparr>"
  obtain s1 where "RevokeBindingByMember demo_env 2 ''mch_1'' (db bound_server) = (Inr (), s1)"
    by (simp add: RevokeBindingByMember_def revoke_binding_def bound_server_db demo_bound_eq)
  moreover from this have "server_ok (put_db s1 bound_server)"
    using RevokeBindingByMember_ok [of "db bound_server" demo_env 2 "''mch_1''"] bound_server_ok by (simp add: server_ok_iff)
  then obtain sv' where "cancelMachineRequests ''mch_1'' (put_db s1 bound_server) = Some sv'" using cancel_ok by blast
  ultimately have r: "handleRevokeBinding demo_env ?h 2 bound_server = Some (revoked_reply, sv')"
    by (simp add: handleRevokeBinding_def Let_def)
  then have "ends_membership demo_env ?h 2 bound_server (Some (Reply (JsonBody 200 (JObj [(''revoked'', JBool True)])), sv'))"
    by (simp add: ends_membership_def revoked_reply_def reply_json_def)
  from leaving_cuts_everyone [OF bound_server_ok this refl, of 0] r bound_server_reg show ?thesis by auto
qed

section \<open>Revoking a provider key\<close>

lemma RetireMachine_exact:
  assumes "no_faults E"
  shows "member_access (snd (RetireMachine E mid s)) v m \<longleftrightarrow> member_access s v m \<and> m \<noteq> mid"
    "closed_machine (snd (RetireMachine E mid s)) mid" "fst (RetireMachine E mid s) = Inr ()"
proof -
  show r: "fst (RetireMachine E mid s) = Inr ()" using assms by (simp add: RetireMachine_def Let_def)
  then show "closed_machine (snd (RetireMachine E mid s)) mid" by (rule RetireMachine_closes)
  show "member_access (snd (RetireMachine E mid s)) v m \<longleftrightarrow> member_access s v m \<and> m \<noteq> mid"
    using assms by (auto simp: RetireMachine_def Let_def member_access_revoked) (auto simp: member_access_def)
qed

lemma put_db_self [simp]: "put_db (db sv) sv = sv"
  by (simp add: put_db_def db_def)

text \<open>Without driver failures the machine of the key is taken out of the registry and closed in the store, no other is.\<close>

lemma retire_by_key_effect:
  assumes ok: "server_ok sv" and nf: "no_faults E"
  obtains (machine) m sv1 where "m \<in> set (machines (db sv))" "m_key m = kid" "retire_by_key E kid sv = Some sv1"
      "db sv1 = snd (RetireMachine (shift 1 (shift 1 E)) (m_id m) (db sv))" "GetSession (m_id m) (reg (sv_coord sv1)) = None"
      "\<And>x. x \<noteq> m_id m \<Longrightarrow> GetSession x (reg (sv_coord sv1)) = GetSession x (reg (sv_coord sv))"
    | (no_machine) "\<forall>m \<in> set (machines (db sv)). m_key m \<noteq> kid" "retire_by_key E kid sv = Some sv"
proof (cases "List.find (\<lambda>m. m_key m = kid) (machines (db sv))")
  case None
  then have "\<forall>m \<in> set (machines (db sv)). m_key m \<noteq> kid" by (simp add: find_None_iff_ball)
  moreover have "retire_by_key E kid sv = Some sv"
    using None nf by (simp add: retire_by_key_def GetMachineByProviderKeyID_def RetireMachineByProviderKeyID_def get_ok_def)
  ultimately show thesis by (rule no_machine)
next
  case (Some m)
  obtain sva where u: "unregister (m_id m) sv = Some sva" "db sva = db sv" "GetSession (m_id m) (reg (sv_coord sva)) = None"
    "\<forall>x. x \<noteq> m_id m \<longrightarrow> GetSession x (reg (sv_coord sva)) = GetSession x (reg (sv_coord sv))"
    using unregister_ok [OF ok, of "m_id m"] by blast
  have "retire_by_key E kid sv = Some (put_db (snd (RetireMachine (shift 1 (shift 1 E)) (m_id m) (db sv))) sva)"
    using Some u nf by (simp add: retire_by_key_def GetMachineByProviderKeyID_def RetireMachineByProviderKeyID_def get_ok_def)
  with find_SomeD [OF Some] u machine [of m] show thesis by simp
qed

text \<open>The statement that revokes an active key of the user.\<close>

lemma RevokeKey_active:
  assumes ok: "store_ok s" and nf: "\<not> e_fault E 0"
    and k: "k \<in> set (api_keys s)" "k_user k = u" "k_revoked k = None"
  obtains s1 where "RevokeKey E u (k_id k) s = (Inr (), s1)" "store_ok s1" "machines s1 = machines s" "bindings s1 = bindings s"
    "users s1 = users s" "\<And>x. key_active s1 x \<longleftrightarrow> key_active s x \<and> x \<noteq> k_id k"
    "k\<lparr>k_revoked := Some (db_now E)\<rparr> \<in> set (api_keys s1)" "map k_id (api_keys s1) = map k_id (api_keys s)"
proof -
  let ?hit = "\<lambda>q. k_id q = k_id k \<and> k_user q = u \<and> k_revoked q = None"
  let ?s1 = "s\<lparr>api_keys := upd_where ?hit (\<lambda>k. k\<lparr>k_revoked := Some (db_now E)\<rparr>) (api_keys s)\<rparr>"
  have one: "q = k" if "q \<in> set (api_keys s)" "k_id q = k_id k" for q
    using distinct_map_eq [of k_id "api_keys s" q k] ok k(1) that by (simp add: store_ok_def keys_ok_def)
  have "count_where ?hit (api_keys s) \<noteq> 0" using k by (auto simp: count_where_0)
  then have r: "RevokeKey E u (k_id k) s = (Inr (), ?s1)" using nf by (simp add: RevokeKey_def Let_def)
  have "key_active ?s1 x \<longleftrightarrow> key_active s x \<and> x \<noteq> k_id k" for x
    using one k by (auto simp: key_active_def bex_upd_where split: if_splits)
  moreover have "k\<lparr>k_revoked := Some (db_now E)\<rparr> \<in> set (api_keys ?s1)" using k by (auto simp: set_upd_where)
  moreover have "store_ok ?s1" using RevokeKey_ok [OF ok, of E u "k_id k"] r by simp
  moreover have "map k_id (api_keys ?s1) = map k_id (api_keys s)" by (simp add: map_upd_where)
  ultimately show thesis using that r by simp
qed

lemma may_use_machine:
  assumes "store_ok s" and "m \<in> set (machines s)"
  shows "may_use s v (m_id m) = (if m_owner m = v then key_active s (m_key m) else member_access s v (m_id m))"
  using assms machine_unique [OF assms(1)] by (auto simp: may_use_def)



section \<open>Regenerating a key\<close>

lemma RevokeKey_success:
  assumes ok: "store_ok s" and r: "RevokeKey E u kid s = (Inr (), s1)"
  obtains k where "k \<in> set (api_keys s)" "k_id k = kid" "k_user k = u" "k_revoked k = None"
proof -
  have "count_where (\<lambda>k. k_id k = kid \<and> k_user k = u \<and> k_revoked k = None) (api_keys s) \<noteq> 0"
    using r by (auto simp: RevokeKey_def Let_def split: if_splits)
  then show thesis using that by (auto simp: count_where_0)
qed

lemma CreateKey_success:
  assumes "CreateKey E rnd u sc s = (Inr (raw, n), s1)"
  obtains k where "api_keys s1 = api_keys s @ [k]" "k_id k = n" "n = seq_keys s + 1" "k_user k = u" "k_revoked k = None"
    "k_scope k = normalizeScope sc" "k_hash k = hashKey E raw"
proof -
  have "\<exists>k. api_keys s1 = api_keys s @ [k] \<and> k_id k = n \<and> n = seq_keys s + 1 \<and> k_user k = u \<and> k_revoked k = None
      \<and> k_scope k = normalizeScope sc \<and> k_hash k = hashKey E raw"
    using assms by (auto simp: CreateKey_def Let_def split: option.splits if_splits)
  then show thesis using that by blast
qed

text \<open>A machine made for a key that has none.\<close>

lemma GetMachine_appended:
  assumes "m_id m = mid" and "\<forall>x \<in> set ms. m_id x \<noteq> mid" and "GetMachine E mid (s\<lparr>machines := ms @ [m]\<rparr>) = Inr (Some q)"
  shows "m = q"
proof -
  have "List.find (\<lambda>m. m_id m = mid) ms = None" using assms(2) by (simp add: find_None_iff_ball)
  with assms(1,3) show ?thesis by (simp add: GetMachine_def find_append split: if_splits)
qed

lemma UpsertMachine_new:
  assumes r: "UpsertMachineByProviderKey E rnd u kid name s = (Inr (Some q), s1)" and new: "\<forall>m \<in> set (machines s). m_key m \<noteq> kid"
  shows "machines s1 = machines s @ [q] \<and> m_owner q = u \<and> m_key q = kid \<and> (\<forall>m \<in> set (machines s). m_id m \<noteq> m_id q)"
proof -
  have n: "List.find (\<lambda>m. m_key m = kid) (machines s) = None" using new by (simp add: find_None_iff_ball)
  with r have f: "\<not> e_fault E 0" by (auto simp: UpsertMachineByProviderKey_def GetMachineByProviderKeyID_def)
  obtain mid where mid: "generateMachineID rnd = Some mid"
    using r n f by (cases "generateMachineID rnd") (auto simp: UpsertMachineByProviderKey_def GetMachineByProviderKeyID_def)
  let ?bad = "e_fault E 1 \<or> (\<exists>m \<in> set (machines s). m_id m = mid \<or> m_key m = kid) \<or> (e_fk E \<and> (\<not> has_user s u \<or> \<not> has_key s kid))"
  have "UpsertMachineByProviderKey E rnd u kid name s = (Inl (DbErr ''insert machine''), s)" if b: ?bad
    unfolding UpsertMachineByProviderKey_def GetMachineByProviderKeyID_def Let_def
    by (simp only: n mid f if_P [OF b] if_False sum.case option.case) (simp split: if_split)
  with r have good: "\<not> ?bad" by force
  let ?m = "\<lparr>m_id = mid, m_owner = u, m_key = kid, m_name = (if name = [] then ''machine'' else name),
    m_created = db_now E, m_updated = db_now E\<rparr>"
  have "(GetMachine (shift 2 E) mid (s\<lparr>machines := machines s @ [?m]\<rparr>), s\<lparr>machines := machines s @ [?m]\<rparr>) = (Inr (Some q), s1)"
    unfolding r [symmetric] UpsertMachineByProviderKey_def GetMachineByProviderKeyID_def Let_def
    by (simp only: n mid f if_not_P [OF good] if_False sum.case option.case)
  moreover have "GetMachine (shift 2 E) mid (s\<lparr>machines := machines s @ [?m]\<rparr>) = Inr (Some q) \<Longrightarrow> ?m = q"
    using good by (intro GetMachine_appended [of ?m mid "machines s" "shift 2 E" s q]) simp_all
  ultimately show ?thesis using good by auto
qed

text \<open>The old machine is closed, whatever becomes of the new one.\<close>

lemma move_machine_effect:
  assumes ok: "server_ok sv" and nf: "no_faults E" and m: "m \<in> set (machines (db sv))" "m_key m = kid"
    and r: "move_machine E rnd u kid n sv = Some (mid, sv3)"
  obtains q s2 where "s2 = snd (RetireMachine (shift 1 E) (m_id m) (db sv))"
    "UpsertMachineByProviderKey (shift 3 E) rnd u n (m_name m) s2 = (q, db sv3)"
    "mid = (case get_ok None q of None \<Rightarrow> [] | Some m \<Rightarrow> m_id m)" "GetSession (m_id m) (reg (sv_coord sv3)) = None"
proof -
  have "List.find (\<lambda>q. m_key q = kid) (machines (db sv)) = Some m"
    using ok m distinct_find [of m_key "machines (db sv)" m] by (simp add: server_ok_iff store_ok_def machines_ok_def)
  then have g: "get_ok None (GetMachineByProviderKeyID E kid (db sv)) = Some m"
    using nf by (simp add: GetMachineByProviderKeyID_def get_ok_def)
  obtain sva where u: "unregister (m_id m) sv = Some sva" "db sva = db sv" "GetSession (m_id m) (reg (sv_coord sva)) = None"
    using unregister_ok [OF ok, of "m_id m"] by blast
  let ?s2 = "snd (RetireMachine (shift 1 E) (m_id m) (db sv))"
  obtain q s3 where q: "UpsertMachineByProviderKey (shift 3 E) rnd u n (m_name m) ?s2 = (q, s3)" by fastforce
  have "(mid, sv3) = (case get_ok None q of None \<Rightarrow> [] | Some m \<Rightarrow> m_id m, put_db s3 (put_db ?s2 sva))"
    using r g u q by (simp add: move_machine_def CreateMachineOnKeyRegen_def)
  with that [OF refl] q u show thesis by simp
qed

lemma reply_error_200 [simp]: "c \<noteq> 200 \<Longrightarrow> reply_error c x \<noteq> Reply (JsonBody 200 body)"
  by (simp add: reply_error_def writeError_def writeAPIError_def)

text \<open>The steps of a regeneration that is answered with a new key.\<close>

lemma handleRegenerateKey_200:
  assumes r: "handleRegenerateKey E rnd rnd2 h u sv = Some (Reply (JsonBody 200 body), sv')"
  obtains kid k s1 raw n s2 mid where "ParseInt (h_path h ''id'') = Some kid" "FindKeyByID E kid (db sv) = Inr (Some k)"
    "RevokeKey (shift 1 E) u kid (db sv) = (Inr (), s1)"
    "CreateKey (shift 2 E) rnd u (if k_scope k = ScopeDonor then ScopeProvider else k_scope k) s1 = (Inr (raw, n), s2)"
    "if IsProviderScope (if k_scope k = ScopeDonor then ScopeProvider else k_scope k)
     then move_machine (shift 4 E) rnd2 u kid n (put_db s2 sv) = Some (mid, sv') else mid = [] \<and> sv' = put_db s2 sv"
    "jfield ''key'' body = Some (JStr raw)"
    "jfield ''machine_id'' body = (if mid = [] then None else Some (JStr mid))"
proof -
  have u: "u \<noteq> 0" using r by (auto simp: handleRegenerateKey_def)
  obtain kid where kid: "ParseInt (h_path h ''id'') = Some kid"
    using r u by (cases "ParseInt (h_path h ''id'')") (auto simp: handleRegenerateKey_def)
  obtain k where k: "FindKeyByID E kid (db sv) = Inr (Some k)"
    using r u kid by (auto simp: handleRegenerateKey_def split: sum.splits option.splits)
  obtain q s1 where q: "RevokeKey (shift 1 E) u kid (db sv) = (q, s1)" by fastforce
  have qi: "q = Inr ()" using r u kid k q by (cases q) (auto simp: handleRegenerateKey_def)
  let ?sc = "if k_scope k = ScopeDonor then ScopeProvider else k_scope k"
  obtain c s2 where c: "CreateKey (shift 2 E) rnd u ?sc s1 = (c, s2)" by fastforce
  obtain raw n where ci: "c = Inr (raw, n)"
    using r u kid k q qi c by (cases c) (auto simp: handleRegenerateKey_def Let_def)
  let ?step = "if IsProviderScope ?sc then move_machine (shift 4 E) rnd2 u kid n (put_db s2 sv) else Some ([], put_db s2 sv)"
  have eq: "handleRegenerateKey E rnd rnd2 h u sv = do {
      (mid, sv3) \<leftarrow> ?step;
      (if is_htmx h then Some (token_modal sv raw, sv3)
       else do {
         prefix \<leftarrow> key_prefix raw;
         Some (reply_json 200 (JObj (new_key_body n raw prefix ?sc @ (if mid \<noteq> [] then [(''machine_id'', JStr mid)] else []))), sv3)
       })
    }" using u kid k q qi c ci by (simp add: handleRegenerateKey_def Let_def)
  obtain mid sv3 where st: "?step = Some (mid, sv3)" using r unfolding eq by (cases ?step) auto
  have x: "\<not> is_htmx h" using r unfolding eq st by (auto simp: token_modal_def)
  obtain prefix where p: "key_prefix raw = Some prefix" using r x unfolding eq st by (cases "key_prefix raw") auto
  have body: "sv3 = sv'" "body = JObj (new_key_body n raw prefix ?sc @ (if mid \<noteq> [] then [(''machine_id'', JStr mid)] else []))"
    using r x p unfolding eq st by (auto simp: reply_json_def)
  show thesis
    by (rule that [OF kid k _ _ _ _ _, of s1 raw n s2 mid])
      (use q qi c ci st body in \<open>auto simp: new_key_body_def jfield_def split: if_splits\<close>)
qed

lemma move_machine_frame:
  assumes ok: "server_ok sv" and r: "move_machine E rnd u kid n sv = Some (mid, sv3)"
  shows "api_keys (db sv3) = api_keys (db sv) \<and> store_ok (db sv3)"
proof
  show "store_ok (db sv3)" using move_machine_ok [OF ok, of E rnd u kid n] r by (auto simp: server_ok_iff)
  note fr = UpsertMachine_keys [of "shift 3 E" rnd u n]
  show "api_keys (db sv3) = api_keys (db sv)"
  proof (cases "get_ok None (GetMachineByProviderKeyID E kid (db sv))")
    case None
    with r fr [of "''machine''" "db sv"] show ?thesis
      by (auto simp: move_machine_def CreateMachineOnKeyRegen_def split: prod.splits)
  next
    case (Some m)
    obtain sva where u: "unregister (m_id m) sv = Some sva" "db sva = db sv" using unregister_ok [OF ok] by blast
    with r Some fr [of "m_name m" "snd (RetireMachine (shift 1 E) (m_id m) (db sv))"] show ?thesis
      by (auto simp: move_machine_def CreateMachineOnKeyRegen_def RetireMachine_keys split: prod.splits)
  qed
qed

text \<open>What the machine of a revoked provider key is after the move, and the new one.\<close>

lemma moved_machine:
  assumes ok: "server_ok sv" and nf: "no_faults E" and m: "m \<in> set (machines (db sv))" "m_key m = kid"
    and dead: "\<not> key_active (db sv) kid" and new: "\<forall>x \<in> set (machines (db sv)). m_key x \<noteq> n"
    and r: "move_machine E rnd u kid n sv = Some (mid, sv3)"
  shows "GetSession (m_id m) (reg (sv_coord sv3)) = None" "closed_machine (db sv3) (m_id m)" "\<not> may_use (db sv3) v (m_id m)"
    "api_keys (db sv3) = api_keys (db sv)" "store_ok (db sv3)"
    "mid \<noteq> [] \<Longrightarrow> \<exists>x \<in> set (machines (db sv3)). m_id x = mid \<and> mid \<noteq> m_id m \<and> m_owner x = u \<and> m_key x = n"
proof -
  obtain q s2 where s2: "s2 = snd (RetireMachine (shift 1 E) (m_id m) (db sv))"
    and q: "UpsertMachineByProviderKey (shift 3 E) rnd u n (m_name m) s2 = (q, db sv3)"
    and mid: "mid = (case get_ok None q of None \<Rightarrow> [] | Some m \<Rightarrow> m_id m)" and g: "GetSession (m_id m) (reg (sv_coord sv3)) = None"
    by (rule move_machine_effect [OF ok nf m r])
  show "GetSession (m_id m) (reg (sv_coord sv3)) = None" by (rule g)
  have s3: "db sv3 = snd (UpsertMachineByProviderKey (shift 3 E) rnd u n (m_name m) s2)" by (simp add: q)
  have fr: "machines s2 = machines (db sv)" "api_keys s2 = api_keys (db sv)" by (simp_all add: s2 RetireMachine_keys)
  have "closed_machine s2 (m_id m)" using RetireMachine_exact(2) [of "shift 1 E" "m_id m"] nf s2 by simp
  then show cl: "closed_machine (db sv3) (m_id m)"
    by (simp add: closed_machine_def s3 UpsertMachine_bindings UpsertMachine_invites)
  show ak: "api_keys (db sv3) = api_keys (db sv)" by (simp add: s3 UpsertMachine_keys fr(2))
  show sok: "store_ok (db sv3)" using move_machine_ok [OF ok, of E rnd u kid n] r by (auto simp: server_ok_iff)
  have "m \<in> set (machines s2)" using m fr(1) by simp
  from rows_evolve_row [OF UpsertMachine_evolve this, of "shift 3 E" rnd u n "m_name m"]
  obtain m' where m': "m' \<in> set (machines (db sv3))" "m_id m' = m_id m" "m_key m' = kid"
    using m(2) s3 by (auto simp: machine_later_def)
  have "\<not> key_active (db sv3) kid" using dead ak by (simp add: key_active_def)
  with may_use_machine [OF sok m'(1), of v] closed_no_access [OF cl] m' show "\<not> may_use (db sv3) v (m_id m)" by simp
  show "\<exists>x \<in> set (machines (db sv3)). m_id x = mid \<and> mid \<noteq> m_id m \<and> m_owner x = u \<and> m_key x = n" if ne: "mid \<noteq> []"
  proof -
    obtain x where x: "q = Inr (Some x)" "mid = m_id x" using mid ne by (auto simp: get_ok_def split: sum.splits option.splits)
    have "\<forall>y \<in> set (machines s2). m_key y \<noteq> n" using new fr(1) by simp
    from UpsertMachine_new [OF q [unfolded x(1)] this] x(2) fr(1) m(1) show ?thesis by force
  qed
qed


lemma demo_path [simp]: "ParseInt ''1'' = Some 1"
  by (simp add: ParseInt_def in_int64_def)

lemma demo_new_key: "k \<in> set (api_keys demo_store) \<Longrightarrow> k_hash k \<noteq> hashKey demo_env (''inf_'' @ hex_encode ''abcd'')"
  by (auto simp: demo_store_def hashKey_def demo_env_def dest!: hex_encode_inj arg_cong [of _ _ length])

lemma demo_regenerates:
  "\<exists>body sv'. handleRegenerateKey demo_env (Some ''abcd'') rnd2 demo_http 1 bound_server = Some (Reply (JsonBody 200 body), sv')"
proof -
  let ?k = "hd (api_keys demo_store)"
  have k: "?k \<in> set (api_keys demo_bound)" "k_user ?k = 1" "k_revoked ?k = None" "k_id ?k = 1" "k_scope ?k = ''provider''"
    by (simp_all add: demo_bound_eq) (simp_all add: demo_store_def)
  have f: "FindKeyByID demo_env 1 demo_bound = Inr (Some ?k)"
    by (simp add: FindKeyByID_def demo_bound_eq) (simp add: demo_store_def normalizeScope_def)
  have nf: "no_faults demo_env" by (simp add: no_faults_def)
  obtain s1 where s1: "RevokeKey (shift 1 demo_env) 1 1 demo_bound = (Inr (), s1)" "store_ok s1" "users s1 = users demo_bound"
    using RevokeKey_active [OF demo_bound_ok no_faultsD [OF no_faults_shift [OF nf]] k(1-3), of 1] k(4) by auto
  have hs: "map k_hash (api_keys s1) = map k_hash (api_keys demo_bound)"
    using s1(1) by (auto simp: RevokeKey_def Let_def map_upd_where split: if_splits)
  have "\<not> (\<exists>q \<in> set (api_keys s1). k_hash q = hashKey (shift 2 demo_env) (''inf_'' @ hex_encode ''abcd''))"
  proof
    assume "\<exists>q \<in> set (api_keys s1). k_hash q = hashKey (shift 2 demo_env) (''inf_'' @ hex_encode ''abcd'')"
    then have "hashKey demo_env (''inf_'' @ hex_encode ''abcd'') \<in> set (map k_hash (api_keys s1))"
      by (force simp: hashKey_def)
    then obtain q where "q \<in> set (api_keys demo_store)" "k_hash q = hashKey demo_env (''inf_'' @ hex_encode ''abcd'')"
      unfolding hs by (auto simp: demo_bound_eq)
    then show False using demo_new_key by blast
  qed
  moreover have "has_user s1 1" by (simp add: has_user_def s1(3) demo_bound_eq) (simp add: demo_store_def)
  ultimately obtain raw n s2 where c: "CreateKey (shift 2 demo_env) (Some ''abcd'') 1 ''provider'' s1 = (Inr (raw, n), s2)"
    by (auto simp: CreateKey_def generateAPIKey_def Let_def)
  have "server_ok (put_db s2 bound_server)"
    using CreateKey_ok [OF s1(2), of "shift 2 demo_env" "Some ''abcd''" 1 "''provider''"] c bound_server_ok by (simp add: server_ok_iff)
  then obtain mid sv3 where "move_machine (shift 4 demo_env) rnd2 1 1 n (put_db s2 bound_server) = Some (mid, sv3)"
    using move_machine_ok by blast
  moreover have "key_prefix raw = Some (take 12 raw)" using CreateKey_prefix [OF c] by (simp add: enough_def)
  ultimately show ?thesis using f s1(1) c k(5)
    by (simp add: handleRegenerateKey_def bound_server_db demo_http_def scope_defs IsProviderScope_def is_htmx_def reply_json_def)
qed


text \<open>
  C25: A regeneration that fails loses the key. The old key is revoked before the new one is made: when \<open>CreateKey\<close> fails
  (no random bytes, or the insert), the answer is a 500, the old key is dead and no key was added, but nothing else is
  done: the machine of a provider key stays connected and open to its members, with no key to reconnect it.
\<close>

theorem failed_regeneration_loses_key:
  assumes ok: "server_ok sv" and f: "\<not> e_fault E 0" "\<not> e_fault E 1" "rnd = None \<or> e_fault E 2"
    and k: "k \<in> set (api_keys (db sv))" "k_user k = u" "k_revoked k = None"
    and h: "ParseInt (h_path h ''id'') = Some (k_id k)" "u \<noteq> 0"
  shows "\<exists>sv'. handleRegenerateKey E rnd rnd2 h u sv = Some (reply_error 500 ''failed to create key'', sv')
    \<and> (\<forall>E' q. FindKeyByHash E' (k_hash k) (db sv') \<noteq> Inr (Some q))
    \<and> map k_id (api_keys (db sv')) = map k_id (api_keys (db sv))
    \<and> reg (sv_coord sv') = reg (sv_coord sv) \<and> machines (db sv') = machines (db sv)
    \<and> (\<forall>v mid. member_access (db sv') v mid = member_access (db sv) v mid)"
proof -
  have sok: "store_ok (db sv)" using ok by (simp add: server_ok_iff)
  obtain old where old: "FindKeyByID E (k_id k) (db sv) = Inr (Some old)"
    using f(1) k(1) distinct_find [of k_id "api_keys (db sv)" k] sok by (simp add: FindKeyByID_def store_ok_def keys_ok_def)
  have "\<not> e_fault (shift 1 E) 0" using f(2) by simp
  then obtain s1 where s1: "RevokeKey (shift 1 E) u (k_id k) (db sv) = (Inr (), s1)" "store_ok s1" "machines s1 = machines (db sv)"
    "bindings s1 = bindings (db sv)" "k\<lparr>k_revoked := Some (db_now (shift 1 E))\<rparr> \<in> set (api_keys s1)"
    "map k_id (api_keys s1) = map k_id (api_keys (db sv))"
    by (rule RevokeKey_active [OF sok _ k]) (rule that)
  have "e_fault (shift 2 E) 0 = e_fault E 2" by (simp add: shift_def numeral_2_eq_2)
  then have "\<exists>e. CreateKey (shift 2 E) rnd u sc s1 = (Inl e, s1)" for sc
    using f(3) by (cases rnd) (simp_all add: CreateKey_def generateAPIKey_def)
  then obtain e where "CreateKey (shift 2 E) rnd u (if k_scope old = ScopeDonor then ScopeProvider else k_scope old) s1 = (Inl e, s1)"
    by blast
  then have "handleRegenerateKey E rnd rnd2 h u sv = Some (reply_error 500 ''failed to create key'', put_db s1 sv)"
    using h old s1(1) by (simp add: handleRegenerateKey_def Let_def)
  moreover have "FindKeyByHash E' (k_hash k) s1 \<noteq> Inr (Some q)" for E' q
    using revoked_not_found [OF s1(2,5), of E' q] by simp
  ultimately show ?thesis using s1(3,6) member_access_cong [OF s1(4)] by simp
qed

theorem failed_regeneration_loses_key_witness:
  "\<exists>sv'. handleRegenerateKey demo_env None None demo_http 1 bound_server = Some (reply_error 500 ''failed to create key'', sv')
    \<and> FindKeyByHash demo_env (k_hash (hd (api_keys demo_store))) (db sv') \<noteq> Inr (Some (hd (api_keys demo_store)))
    \<and> GetSession ''mch_1'' (reg (sv_coord sv')) = Some 0 \<and> member_access (db sv') 2 ''mch_1''"
proof -
  let ?k = "hd (api_keys demo_store)"
  have k: "?k \<in> set (api_keys (db bound_server))" "k_user ?k = 1" "k_revoked ?k = None" "k_id ?k = 1"
    by (simp_all add: bound_server_db demo_bound_eq) (simp_all add: demo_store_def)
  have "ParseInt (h_path demo_http ''id'') = Some (k_id ?k)" using k(4) by (simp add: demo_http_def)
  from failed_regeneration_loses_key [OF bound_server_ok _ _ _ k(1-3) this, of demo_env None None]
  obtain sv' where r: "handleRegenerateKey demo_env None None demo_http 1 bound_server = Some (reply_error 500 ''failed to create key'', sv')"
    "FindKeyByHash demo_env (k_hash ?k) (db sv') \<noteq> Inr (Some ?k)" "reg (sv_coord sv') = reg (sv_coord bound_server)"
    "member_access (db sv') 2 ''mch_1'' = member_access demo_bound 2 ''mch_1''" by (auto simp: bound_server_db)
  moreover have "member_access demo_bound 2 ''mch_1''" by (simp add: member_access_def demo_bound_eq)
  ultimately show ?thesis using bound_server_reg(1) by metis
qed

section \<open>Logging in\<close>


lemma UpsertUser_success:
  assumes ok: "store_ok s" and nf: "no_faults E"
  obtains x s1 where "UpsertUser E g l s = (Inr (u_id x), s1)" "x \<in> set (users s1)" "u_github x = g" "u_login x = l"
    "sessions s1 = sessions s" "store_ok s1"
proof -
  define s1 where "s1 = (if \<exists>u \<in> set (users s). u_github u = g
    then s\<lparr>users := upd_where (\<lambda>u. u_github u = g) (\<lambda>u. u\<lparr>u_login := l\<rparr>) (users s)\<rparr>
    else s\<lparr>users := users s @ [\<lparr>u_id = seq_users s + 1, u_github = g, u_login = l, u_created = db_now E\<rparr>],
           seq_users := seq_users s + 1\<rparr>)"
  have e: "UpsertUser E g l s = (case List.find (\<lambda>u. u_github u = g) (users s1) of
      None \<Rightarrow> (Inl (DbErr ''select user''), s1) | Some u \<Rightarrow> (Inr (u_id u), s1))"
    unfolding UpsertUser_def s1_def Let_def using nf by simp
  then have ok1: "store_ok s1" using UpsertUser_ok [OF ok, of E g l] by (simp split: option.splits)
  have "\<exists>x \<in> set (users s1). u_github x = g \<and> u_login x = l"
    by (auto simp: s1_def bex_upd_where)
  then obtain x where x: "x \<in> set (users s1)" "u_github x = g" "u_login x = l" by blast
  then have f: "List.find (\<lambda>u. u_github u = g) (users s1) = Some x"
    using ok1 distinct_find [of u_github "users s1" x] by (simp add: store_ok_def users_ok_def)
  with e have "UpsertUser E g l s = (Inr (u_id x), s1)" by simp
  moreover have "sessions s1 = sessions s" by (simp add: s1_def)
  ultimately show thesis using that x ok1 by blast
qed

text \<open>
  C36: A login is the GitHub id of the answer. When the callback gets a decodable answer and nothing fails, the cookie it sets
  names a session of the one user with that GitHub id, whose login is updated to the answer's. The status of the answer is not
  looked at: an error message, an object with neither \<open>id\<close> nor \<open>login\<close>, logs the visitor in as the user of GitHub id 0.
\<close>

theorem login_by_github:
  assumes ok: "server_ok sv" and nf: "no_faults E" and c: "h_query h ''code'' \<noteq> []"
    and gh: "gh (h_query h ''code'') = UserBody (Some body)" "github_user body = Some (gid, l)"
    and fresh: "\<forall>q \<in> set (sessions (db sv)). se_token q \<noteq> hex_encode bs"
  shows "\<exists>r sv' x. handleGitHubCallback E (Some bs) gh h sv
        = (WithCookie (session_cookie (hex_encode bs) (h_tls h)) (Redirect 302 r), sv')
    \<and> {y \<in> set (users (db sv')). u_github y = gid} = {x} \<and> u_login x = l
    \<and> ValidateSession E (hex_encode bs) (db sv') = Inr (u_id x)
    \<and> (\<forall>kvs. body = JObj kvs \<and> jfield ''id'' body = None \<and> jfield ''login'' body = None \<longrightarrow> gid = 0 \<and> l = [])"
proof -
  have sok: "store_ok (db sv)" using ok by (simp add: server_ok_iff)
  obtain x s1 where u: "UpsertUser E gid l (db sv) = (Inr (u_id x), s1)" "x \<in> set (users s1)" "u_github x = gid" "u_login x = l"
    "sessions s1 = sessions (db sv)" "store_ok s1" by (rule UpsertUser_success [OF sok nf])
  let ?q = "\<lparr>se_token = hex_encode bs, se_user = u_id x, se_created = db_now (shift 2 E), se_expires = db_now (shift 2 E) + 24 * 3600\<rparr>"
  let ?s2 = "s1\<lparr>sessions := sessions s1 @ [?q]\<rparr>"
  have cs: "CreateSession (shift 2 E) (Some bs) (u_id x) s1 = (Inr (hex_encode bs), ?s2)"
    using nf fresh u(2,5) by (auto simp: CreateSession_def generateSessionToken_def has_user_def)
  have "List.find (\<lambda>q. se_token q = hex_encode bs \<and> db_now E < se_expires q) (sessions s1) = None"
    using fresh u(5) by (simp add: find_None_iff_ball)
  then have "ValidateSession E (hex_encode bs) ?s2 = Inr (u_id x)"
    using nf by (simp add: ValidateSession_def find_append)
  moreover have "{y \<in> set (users ?s2). u_github y = gid} = {x}"
    using u(2,3,6) distinct_map_eq [of u_github "users s1"] by (auto simp: store_ok_def users_ok_def)
  moreover have "gid = 0 \<and> l = []" if "body = JObj kvs" "jfield ''id'' body = None" "jfield ''login'' body = None" for kvs
    using gh(2) that by (simp add: github_user_def int_field_def string_field_def)
  ultimately show ?thesis using c gh u(1,4) cs by (auto simp: handleGitHubCallback_def)
qed

definition github_refusal :: json where
  "github_refusal = JObj [(''message'', JStr ''Bad credentials''), (''status'', JStr ''401'')]"

theorem login_by_github_witness:
  "\<exists>r sv' x. handleGitHubCallback demo_env (Some ''k'') (\<lambda>_. UserBody (Some github_refusal)) (demo_http\<lparr>h_query := \<lambda>_. ''x''\<rparr>)
      (session_server 1) = (WithCookie (session_cookie (hex_encode ''k'') True) (Redirect 302 r), sv')
    \<and> x \<in> set (users (db sv')) \<and> u_github x = 0 \<and> u_login x = [] \<and> ValidateSession demo_env (hex_encode ''k'') (db sv') = Inr (u_id x)"
proof -
  have g: "github_user github_refusal = Some (0, [])"
    by (simp add: github_user_def github_refusal_def int_field_def string_field_def jfield_def)
  have nf: "no_faults demo_env" by (simp add: no_faults_def)
  have "length (hex_encode ''k'') = 2" by (simp add: length_hex_encode)
  then have "''c'' \<noteq> hex_encode ''k''" by (metis length_Cons list.size(3) One_nat_def n_not_Suc_n numeral_2_eq_2)
  then have fresh: "\<forall>q \<in> set (sessions (db (session_server 1))). se_token q \<noteq> hex_encode ''k''"
    by (auto simp: session_server_def)
  from login_by_github [OF session_server_ok nf _ _ g fresh, of "demo_http\<lparr>h_query := \<lambda>_. ''x''\<rparr>" "\<lambda>_. UserBody (Some github_refusal)"]
  obtain r sv' x where "handleGitHubCallback demo_env (Some ''k'') (\<lambda>_. UserBody (Some github_refusal)) (demo_http\<lparr>h_query := \<lambda>_. ''x''\<rparr>)
      (session_server 1) = (WithCookie (session_cookie (hex_encode ''k'') True) (Redirect 302 r), sv')"
    "{y \<in> set (users (db sv')). u_github y = 0} = {x}" "u_login x = []" "ValidateSession demo_env (hex_encode ''k'') (db sv') = Inr (u_id x)"
    by (auto simp: demo_http_def)
  moreover from this(2) have "x \<in> set (users (db sv')) \<and> u_github x = 0" by blast
  ultimately show ?thesis by blast
qed

end
