(* ===== verification/CoordConfig.thy ===== *)
theory CoordConfig
  imports EndpointProps
begin

text \<open>
  The start of the coordinator: its configuration from the environment and the \<open>.env\<close> file
  (\<open>internal/coord/config.go\<close>), \<open>NewServer\<close> (\<open>server.go\<close>) and \<open>main\<close> (\<open>cmd/coordinator/main.go\<close>) up to
  serving, and what a started server satisfies. The environment is a function, an unset variable is the empty
  text, as \<open>os.Getenv\<close> has it.
\<close>

section \<open>The file of variables\<close>

type_synonym environment = "string \<Rightarrow> string"

text \<open>
  \<open>bufio.Scanner\<close> with its default buffer of 64 kB: the lines without their ends, up to the first one that
  does not fit.
\<close>

definition drop_cr :: "string \<Rightarrow> string" where
  "drop_cr l = (if l \<noteq> [] \<and> last l = CHR 0x0D then butlast l else l)"

definition scan_lines :: "string \<Rightarrow> string list" where
  "scan_lines content =
    (let ls = Split1 (CHR 0x0A) content;
         ls1 = (if last ls = [] then butlast ls else ls)
     in map drop_cr (takeWhile (\<lambda>l. length l < 65536) ls1))"

definition unquote :: "string \<Rightarrow> string" where
  "unquote v =
    (if length v \<ge> 2 \<and> ((hd v = CHR 0x22 \<and> last v = CHR 0x22) \<or> (hd v = CHR 0x27 \<and> last v = CHR 0x27))
     then butlast (tl v) else v)"

definition dotenv_entry :: "string \<Rightarrow> (string \<times> string) option" where
  "dotenv_entry raw =
    (let line = TrimSpace raw in
     if line = [] \<or> HasPrefix line ''#'' then None
     else case Cut1 (TrimPrefix line ''export '') (CHR ''='') of
       (k, v, ok) \<Rightarrow> if \<not> ok then None else Some (TrimSpace k, unquote (TrimSpace v)))"

text \<open>\<open>os.Setenv\<close>, whose error is dropped: an empty name, one with \<open>=\<close>, or a zero byte.\<close>

definition settable :: "string \<Rightarrow> string \<Rightarrow> bool" where
  "settable k v \<longleftrightarrow> k \<noteq> [] \<and> CHR ''='' \<notin> set k \<and> CHR 0x00 \<notin> set k \<and> CHR 0x00 \<notin> set v"

definition Setenv :: "string \<Rightarrow> string \<Rightarrow> environment \<Rightarrow> environment" where
  "Setenv k v env = (if settable k v then env(k := v) else env)"

fun load_lines :: "string list \<Rightarrow> environment \<Rightarrow> environment" where
  "load_lines [] env = env"
| "load_lines (l # ls) env = load_lines ls
    (case dotenv_entry l of None \<Rightarrow> env | Some (k, v) \<Rightarrow> if env k = [] then Setenv k v env else env)"

definition loadDotEnv :: "string option \<Rightarrow> environment \<Rightarrow> environment" where
  "loadDotEnv content env = (case content of None \<Rightarrow> env | Some c \<Rightarrow> load_lines (scan_lines c) env)"

section \<open>The configuration\<close>

record server_config =
  sc_addr :: string
  sc_db_path :: string
  sc_base_url :: string
  sc_rate_limit :: int
  sc_invite_ttl :: int
  sc_invite_uses :: int
  sc_pin_limit :: int

definition envOrDefault :: "environment \<Rightarrow> string \<Rightarrow> string \<Rightarrow> string" where
  "envOrDefault env key def = (if env key \<noteq> [] then env key else def)"

definition env_int :: "environment \<Rightarrow> string \<Rightarrow> (int \<Rightarrow> bool) \<Rightarrow> int \<Rightarrow> int" where
  "env_int env key ok def =
    (if env key \<noteq> [] then (case ParseInt (env key) of Some n \<Rightarrow> if ok n then n else def | None \<Rightarrow> def) else def)"

definition ConfigFromEnv :: "string option \<Rightarrow> environment \<Rightarrow> server_config" where
  "ConfigFromEnv content env0 =
    (let env = loadDotEnv content env0 in
     \<lparr>sc_addr = envOrDefault env ''MESH_ADDR'' '':8080'',
      sc_db_path = envOrDefault env ''MESH_DB'' ''data/gpumesh.db'',
      sc_base_url = envOrDefault env ''MESH_BASE_URL'' ''http://localhost:8080'',
      sc_rate_limit = env_int env ''MESH_RATE_LIMIT'' (\<lambda>n. n \<ge> 0) 100,
      sc_invite_ttl = env_int env ''MESH_INVITE_TTL_DAYS'' (\<lambda>n. n > 0) 7,
      sc_invite_uses = env_int env ''MESH_INVITE_MAX_USES'' (\<lambda>n. n > 0) 1,
      sc_pin_limit = env_int env ''MESH_PIN_ATTEMPT_LIMIT'' (\<lambda>n. n > 0) 10\<rparr>)"

text \<open>\<open>open_db\<close> is \<open>NewStore\<close>: the database of a path, when it can be opened and migrated.\<close>

definition NewServer :: "(string \<Rightarrow> store option) \<Rightarrow> server_config \<Rightarrow> server option" where
  "NewServer open_db cfg =
    (case open_db (sc_db_path cfg) of
       None \<Rightarrow> None
     | Some s \<Rightarrow>
         (let rate = (if sc_rate_limit cfg < 0 then 100 else sc_rate_limit cfg);
              ttl = (if sc_invite_ttl cfg \<le> 0 then 7 else sc_invite_ttl cfg);
              uses = (if sc_invite_uses cfg \<le> 0 then 1 else sc_invite_uses cfg);
              pins = (if sc_pin_limit cfg \<le> 0 then 10 else sc_pin_limit cfg)
          in Some \<lparr>sv_coord = \<lparr>reg = NewRegistry, dbs = s, requests_today = 0, tokens_today = 0, sent = []\<rparr>,
                   sv_limiter = (if rate > 0 then Some (RateLimitHourly rate) else None), sv_pins = newPinLimiter pins,
                   sv_base_url = sc_base_url cfg, sv_invite_ttl = ttl, sv_invite_uses = uses\<rparr>))"

text \<open>\<open>main\<close> up to \<open>ListenAndServe\<close>; \<open>mkdir\<close> says whether the data directory could be made.\<close>

definition coordinator_main :: "bool \<Rightarrow> (string \<Rightarrow> store option) \<Rightarrow> string option \<Rightarrow> environment \<Rightarrow> string + server" where
  "coordinator_main mkdir open_db content env =
    (let cfg = ConfigFromEnv content env in
     if \<not> mkdir then Inl ''create data dir''
     else case NewServer open_db cfg of None \<Rightarrow> Inl ''create server'' | Some sv \<Rightarrow> Inr sv)"

section \<open>Where a variable comes from\<close>

lemma load_lines_value: "load_lines ls env k = (if env k \<noteq> [] then env k
    else case List.find (\<lambda>(j, v). j = k \<and> v \<noteq> [] \<and> settable j v) (List.map_filter dotenv_entry ls) of
      None \<Rightarrow> [] | Some (_, v) \<Rightarrow> v)"
proof (induction ls env rule: load_lines.induct)
  case (2 l ls env)
  show ?case
  proof (cases "dotenv_entry l")
    case None
    with 2 show ?thesis by (simp add: List.map_filter_simps)
  next
    case (Some e)
    obtain j v where e: "e = (j, v)" by fastforce
    with 2 Some show ?thesis by (auto simp: List.map_filter_simps Setenv_def split: option.splits)
  qed
qed (simp add: List.map_filter_simps)

text \<open>
  C39: The environment comes first, then the file from its top. After \<open>loadDotEnv\<close> a variable that was set to some text
  keeps it; any other has the value of the first line of the file that gives it one (not empty, unquoted, and one that
  \<open>os.Setenv\<close> takes), and is empty when there is none.
\<close>

theorem dotenv_precedence:
  "loadDotEnv (Some content) env k = (if env k \<noteq> [] then env k
    else case List.find (\<lambda>(j, v). j = k \<and> v \<noteq> [] \<and> settable j v) (List.map_filter dotenv_entry (scan_lines content)) of
      None \<Rightarrow> [] | Some (_, v) \<Rightarrow> v)"
  by (simp add: loadDotEnv_def load_lines_value)

section \<open>A started server\<close>

lemma env_int_ok: "ok def \<Longrightarrow> ok (env_int env key ok def)"
  by (auto simp: env_int_def split: option.split)

lemma started_server:
  assumes "coordinator_main mkdir open_db content env = Inr sv"
    and "\<And>path s. open_db path = Some s \<Longrightarrow> store_ok s"
  shows "server_ok sv \<and> 0 < sv_invite_ttl sv \<and> 0 < sv_invite_uses sv \<and> 0 < pl_limit (sv_pins sv)
    \<and> sv_limiter sv = (case ParseInt (loadDotEnv content env ''MESH_RATE_LIMIT'') of
         Some n \<Rightarrow> if n = 0 then None else Some (RateLimitHourly (if n < 0 then 100 else n))
       | None \<Rightarrow> Some (RateLimitHourly 100))"
proof -
  let ?cfg = "ConfigFromEnv content env" and ?env = "loadDotEnv content env"
  obtain sv1 where n: "NewServer open_db ?cfg = Some sv1" "sv1 = sv"
    using assms(1) by (auto simp: coordinator_main_def Let_def split: if_splits option.splits)
  obtain s where s: "open_db (sc_db_path ?cfg) = Some s" using n(1) by (auto simp: NewServer_def split: option.splits)
  have pos: "0 < sc_invite_ttl ?cfg" "0 < sc_invite_uses ?cfg" "0 < sc_pin_limit ?cfg" "0 \<le> sc_rate_limit ?cfg"
    using env_int_ok [of "\<lambda>n. 0 < n" 7 ?env "''MESH_INVITE_TTL_DAYS''"] env_int_ok [of "\<lambda>n. 0 < n" 1 ?env "''MESH_INVITE_MAX_USES''"]
      env_int_ok [of "\<lambda>n. 0 < n" 10 ?env "''MESH_PIN_ATTEMPT_LIMIT''"] env_int_ok [of "\<lambda>n. 0 \<le> n" 100 ?env "''MESH_RATE_LIMIT''"]
    by (simp_all add: ConfigFromEnv_def Let_def)
  have rate: "sc_rate_limit ?cfg = (case ParseInt (?env ''MESH_RATE_LIMIT'') of Some n \<Rightarrow> if 0 \<le> n then n else 100 | None \<Rightarrow> 100)"
    by (simp add: ConfigFromEnv_def Let_def env_int_def ParseInt_def split: option.split)
  have "sv = \<lparr>sv_coord = \<lparr>reg = NewRegistry, dbs = s, requests_today = 0, tokens_today = 0, sent = []\<rparr>,
      sv_limiter = (if sc_rate_limit ?cfg > 0 then Some (RateLimitHourly (sc_rate_limit ?cfg)) else None),
      sv_pins = newPinLimiter (sc_pin_limit ?cfg), sv_base_url = sc_base_url ?cfg,
      sv_invite_ttl = sc_invite_ttl ?cfg, sv_invite_uses = sc_invite_uses ?cfg\<rparr>"
    using n s pos by (simp add: NewServer_def Let_def)
  moreover have "store_ok s" using assms(2) s by blast
  ultimately show ?thesis
    using pos rate by (auto simp: server_ok_def coord_ok_def registry_ok_New newPinLimiter_def split: option.split)
qed

lemmas started_ok = started_server [THEN conjunct1]


lemma demo_dotenv: "loadDotEnv (Some ''export MESH_RATE_LIMIT=0'') (\<lambda>_. []) ''MESH_RATE_LIMIT'' = ''0''"
proof -
  have "TrimSpace ''export MESH_RATE_LIMIT=0'' = ''export MESH_RATE_LIMIT=0''" "TrimSpace ''MESH_RATE_LIMIT'' = ''MESH_RATE_LIMIT''"
    "TrimSpace ''0'' = ''0''" by (simp_all add: TrimSpace_solid solid_def space_seqs_def)
  then have "dotenv_entry ''export MESH_RATE_LIMIT=0'' = Some (''MESH_RATE_LIMIT'', ''0'')"
    by (simp add: dotenv_entry_def Cut1_def unquote_def Let_def TrimPrefix_def CutPrefix_def HasPrefix_def)
  then show ?thesis by (simp add: loadDotEnv_def scan_lines_def drop_cr_def Setenv_def settable_def)
qed


end
