(* ===== verification/ServerRuns.thy ===== *)
theory ServerRuns
  imports AccountProps CoordConfig
begin

text \<open>
  The whole coordinator as one system: pages, logins and endpoints, chat completions, the connections of providers,
  the sweep, the uptime ticker and the clean-up of the limiter, in any order, from the state \<open>main\<close> starts in.
\<close>

datatype server_op =
    OpWeb hostenv "string option" "string option" endpoint http
  | OpChat hostenv chat_world string string "ChatCompletionRequest option"
  | OpCoord coord_op
  | OpCleanup int

fun server_step :: "process \<Rightarrow> server_op \<Rightarrow> server \<Rightarrow> server option" where
  "server_step p (OpWeb E rnd rnd2 ep h) sv = map_option snd (serve E p rnd rnd2 ep h sv)"
| "server_step p (OpChat E w auth mid body) sv = map_option (\<lambda>(_, _, sv1). sv1) (chat_endpoint E w auth mid body sv)"
| "server_step p (OpCoord op) sv = map_option (\<lambda>st. sv\<lparr>sv_coord := st\<rparr>) (coord_step op (sv_coord sv))"
| "server_step p (OpCleanup now) sv = Some (sv\<lparr>sv_limiter := map_option (cleanup now) (sv_limiter sv)\<rparr>)"

text \<open>A key is made of 32 random bytes; four are enough for its prefix.\<close>

fun server_op_ok :: "server_op \<Rightarrow> bool" where
  "server_op_ok (OpWeb E rnd rnd2 ep h) \<longleftrightarrow> enough rnd"
| "server_op_ok _ \<longleftrightarrow> True"

lemma server_step_ok:
  assumes "\<not> pr_test p" and "server_op_ok op" and "server_ok sv"
  shows "\<exists>sv'. server_step p op sv = Some sv' \<and> server_ok sv'"
proof (cases op)
  case (OpWeb E rnd rnd2 ep h)
  with assms serve_fine [of sv rnd p E rnd2 ep h] show ?thesis by (auto simp: fine_def)
next
  case (OpChat E w auth mid body)
  with assms chat_endpoint_ok [of sv E w auth mid body] show ?thesis by (auto simp: server_ok_def)
next
  case (OpCoord cop)
  with assms coord_step_ok [of "sv_coord sv" cop] show ?thesis by (auto simp: server_ok_def)
next
  case (OpCleanup now)
  with assms show ?thesis by (simp add: server_ok_def)
qed

text \<open>The server outside the test mode keeps the contract.\<close>

definition live_process :: "process \<Rightarrow> process" where
  "live_process p = p\<lparr>pr_test := False\<rparr>"

interpretation server_system: guarded_system "server_step (live_process p)" server_ok server_op_ok for p
  by unfold_locales (rule server_step_ok, simp_all add: live_process_def)



end
