(* ===== verification/Templates.thy ===== *)
theory Templates
  imports EndpointProps
begin

text \<open>
  The page templates of the coordinator (\<open>getTemplates\<close> and \<open>renderTemplate\<close> of \<open>internal/coord/templates.go\<close>,
  embedded by \<open>web/embed.go\<close>), and that no handler asks for one that is not there.
\<close>

section \<open>Loading\<close>

text \<open>\<open>filepath.Ext\<close> of a name without slashes: from its last dot.\<close>

definition Ext :: "string \<Rightarrow> string" where
  "Ext name = (let t = takeWhile (\<lambda>c. c \<noteq> CHR ''.'') (rev name)
     in if length t = length name then [] else CHR ''.'' # rev t)"

text \<open>An entry of the embedded directory: whether it is a directory, and whether it parses, alone and with the chrome.\<close>

record template_file =
  tf_name :: string
  tf_dir :: bool
  tf_parses :: bool
  tf_with_chrome :: bool

definition loads :: "template_file \<Rightarrow> bool" where
  "loads f \<longleftrightarrow> \<not> tf_dir f \<and> Ext (tf_name f) = ''.html'' \<and> tf_name f \<noteq> ''chrome.html'' \<and> tf_parses f \<and> tf_with_chrome f"

text \<open>The names of the loaded templates; \<open>None\<close> is a directory that cannot be read.\<close>

definition getTemplates :: "template_file list option \<Rightarrow> string list" where
  "getTemplates entries = (case entries of None \<Rightarrow> [] | Some fs \<Rightarrow> map tf_name (filter loads fs))"

text \<open>The reply to a request for the template \<open>name\<close>, which is \<open>page\<close> when the template is there.\<close>

definition renderTemplate :: "string list \<Rightarrow> string \<Rightarrow> reply \<Rightarrow> reply" where
  "renderTemplate loaded name page = (if name \<in> set loaded then page else Plain 500 ''template not found'')"

text \<open>The files of \<open>web/templates\<close>.\<close>

definition embedded_templates :: "string list" where
  "embedded_templates = [''about.html'', ''chrome.html'', ''error-401.html'', ''error-404.html'', ''error-500.html'', ''error-503.html'',
     ''index.html'', ''join-result.html'', ''join.html'', ''login.html'', ''share-invite-modal.html'', ''share-members.html'',
     ''share-panel.html'', ''share-token-modal.html'', ''share.html'', ''use-keys.html'', ''use-machines.html'', ''use.html'']"

text \<open>The directory of the repository, with every template in order.\<close>

definition embedded_files :: "template_file list" where
  "embedded_files = map (\<lambda>n. \<lparr>tf_name = n, tf_dir = False, tf_parses = True, tf_with_chrome = True\<rparr>) embedded_templates"

section \<open>The templates of a reply\<close>

text \<open>The install script has a template of its own, which is part of the program.\<close>

fun templates_of :: "reply \<Rightarrow> string list" where
  "templates_of (FullPage code t pd) = [t]"
| "templates_of (Fragment t j) = (if t = ''install'' then [] else [t])"
| "templates_of (WithCookie ck r) = templates_of r"
| "templates_of (Trigger ev r) = templates_of r"
| "templates_of _ = []"

definition pages :: "string list" where
  "pages = filter (\<lambda>t. t \<noteq> ''chrome.html'') embedded_templates"

lemma pages_eq: "pages = [''about.html'', ''error-401.html'', ''error-404.html'', ''error-500.html'', ''error-503.html'',
     ''index.html'', ''join-result.html'', ''join.html'', ''login.html'', ''share-invite-modal.html'', ''share-members.html'',
     ''share-panel.html'', ''share-token-modal.html'', ''share.html'', ''use-keys.html'', ''use-machines.html'', ''use.html'']"
  by (simp add: pages_def embedded_templates_def)

definition known :: "reply \<Rightarrow> bool" where "known r \<longleftrightarrow> set (templates_of r) \<subseteq> set pages"

lemma known_simps [simp]:
  "known (FullPage code t pd) \<longleftrightarrow> t \<in> set pages" "known (Fragment t j) \<longleftrightarrow> t = ''install'' \<or> t \<in> set pages"
  "known (WithCookie ck r) = known r" "known (Trigger ev r) = known r" "known (Reply x)" "known (Redirect c u)" "known (Plain c s)" "known (NoBody c)"
  by (simp_all add: known_def)

lemma in_pages [simp]: "''about.html'' \<in> set pages" "''index.html'' \<in> set pages" "''join-result.html'' \<in> set pages" "''join.html'' \<in> set pages"
  "''login.html'' \<in> set pages" "''share-invite-modal.html'' \<in> set pages" "''share-members.html'' \<in> set pages" "''share-panel.html'' \<in> set pages"
  "''share-token-modal.html'' \<in> set pages" "''share.html'' \<in> set pages" "''use-keys.html'' \<in> set pages" "''use-machines.html'' \<in> set pages" "''use.html'' \<in> set pages"
  by (simp_all add: pages_eq)

section \<open>Handler by handler\<close>

fun shown :: "outcome \<Rightarrow> bool" where "shown None \<longleftrightarrow> True" | "shown (Some (a, sv)) \<longleftrightarrow> known a"

lemma shown_Some [simp]: "shown (Some p) \<longleftrightarrow> known (fst p)" by (cases p) simp

lemma known_replies [simp]: "known (reply_json c v)" "known (reply_error c m)" "known (token_modal sv raw)" "known revoked_reply"
   "known (join_failed pin texts)" "known (handleUseKeys E u sv)"
  by (simp_all add: reply_json_def reply_error_def token_modal_def revoked_reply_def join_failed_def handleUseKeys_def)

lemma shown_bind: "(\<And>x. shown (f x)) \<Longrightarrow> shown (m \<bind> f)"
  by (cases m) simp_all
lemma shown_map: "known a \<Longrightarrow> shown (map_option (Pair a) m)" by (cases m) auto

lemma handleCreateKey_shown: "shown (handleCreateKey E rnd h u sv)"
  by (auto simp: handleCreateKey_def Let_def split: prod.splits sum.splits option.splits intro!: shown_bind)

lemma handleRevokeKey_shown: "shown (handleRevokeKey E h u sv)"
  by (auto simp: handleRevokeKey_def Let_def split: prod.splits sum.splits option.splits intro!: shown_bind)

lemma handleRegenerateKey_shown: "shown (handleRegenerateKey E rnd rnd2 h u sv)"
  by (auto simp: handleRegenerateKey_def Let_def split: prod.splits sum.splits option.splits intro!: shown_bind)

lemma handleCreateInvite_shown: "shown (handleCreateInvite E rnd h u sv)"
  by (auto simp: handleCreateInvite_def Let_def split: prod.splits sum.splits option.splits intro!: shown_bind)

lemma leaving_shown: "shown (handleRevokeBinding E h u sv)" "shown (handleRevokeMember E h u sv)"
  by (auto simp: handleRevokeBinding_def handleRevokeMember_def Let_def split: prod.splits sum.splits option.splits intro!: shown_map)

lemma handleShareCreateInvite_shown: "shown (handleShareCreateInvite E rnd h u sv)"
  by (auto simp: handleShareCreateInvite_def Let_def split: prod.splits sum.splits option.splits intro!: shown_bind)

lemma joining_known: "known (fst (handleJoin E rnd h u sv))" "known (fst (handleJoinHTMX E rnd h u sv))"
  by (auto simp: handleJoin_def handleJoinHTMX_def Let_def split: prod.splits sum.splits option.splits)

lemma panel_known: "known (fst (handleRevokeInvite E h u sv))" "known (fst (handleUseCreateKey E rnd u sv))" "known (fst (handleShareCreateToken E rnd u sv))"
  by (auto simp: handleRevokeInvite_def handleUseCreateKey_def handleShareCreateToken_def split: prod.splits sum.splits option.splits)

lemma lists_known: "known (handleListKeys E u sv)" "known (handleConsumerStats E u sv)" "known (handleOwnerStatsAPI E u sv)" "known (handleOwnerStatus E u sv)"
  "known (handleListInvites E u sv)" "known (handleListBindings E u sv)" "known (handleUseMachines E h u sv)" "known (handleSharePanel E q b u sv)" "known (handleShareMembers E h u sv)"
  by (auto simp: handleListKeys_def handleConsumerStats_def handleOwnerStatsAPI_def handleOwnerStatus_def handleListInvites_def handleListBindings_def handleUseMachines_def
      handleSharePanel_def handleShareMembers_def Let_def split: prod.splits sum.splits option.splits list.splits)

lemma serve_user_shown: "shown (serve_user E p rnd rnd2 r h u sv)"
  by (cases r) (simp_all add: handleCreateKey_shown handleRevokeKey_shown handleRegenerateKey_shown handleCreateInvite_shown leaving_shown handleShareCreateInvite_shown joining_known panel_known lists_known)

lemma Itoa_codes: "Itoa 401 = ''401''" "Itoa 404 = ''404''" "Itoa 500 = ''500''" "Itoa 503 = ''503''"
  by code_simp+

lemma error_page: "error_template code \<in> set pages"
  by (auto simp: error_template_def pages_eq Itoa_codes)

lemma serve_public_shown: "shown (serve_public E p rnd rnd2 r h sv)"
  by (cases r)
    (auto simp: error_page handleIndex_def handleAbout_def handleJoinPage_def handleUse_def handleShare_def handleHealth_def redirectUse_def handleLoginPage_def
      handleLoginStart_def handleGitHubCallback_def handleLogout_def handleInstallScript_def testModeOnly_def handleTestSession_def
      handleTestSessionToken_def handleTestError_def handleTestResetRateLimit_def handleTestSetMachineLoad_def login_start_def handleTestAuthGitHub_def
      Let_def split: prod.splits sum.splits option.splits github.splits)

lemma serve_shown: "shown (serve E p rnd rnd2 ep h sv)"
  by (cases ep) (auto simp: serve_def serve_user_shown serve_public_shown requireAuth_def Let_def split: sum.splits option.splits)

lemma getTemplates_pages: "set (getTemplates (Some embedded_files)) = set pages"
proof -
  have "Ext t = ''.html''" if "t \<in> set embedded_templates" for t
    using that by (auto simp: embedded_templates_def Ext_def)
  then show ?thesis by (simp add: getTemplates_def embedded_files_def loads_def pages_def filter_map comp_def cong: filter_cong)
qed

text \<open>
  The error pages that the model of \<open>handleTestError\<close> lists are those that the lookup of the code finds.
\<close>

lemma error_template_lookup:
  "error_template code = (let t = ''error-'' @ Itoa code @ ''.html'' in if t \<in> set (getTemplates (Some embedded_files)) then t else ''error-500.html'')"
proof -
  have "Itoa code = Itoa c \<longleftrightarrow> code = c" for c using Itoa_inj by blast
  from this [of 401] this [of 404] this [of 500] this [of 503] show ?thesis
    by (auto simp: error_template_def Let_def getTemplates_pages pages_eq Itoa_codes)
qed

text \<open>
  C37: No page is missing. Whatever endpoint is asked, by whom and with whatever input, each template that the
  reply needs is among the files embedded in the program and is not the shared chrome, so
  \<open>renderTemplate\<close> never answers that a template was not found.
\<close>

theorem no_template_missing:
  assumes "serve E p rnd rnd2 ep h sv = Some (a, sv')" and "t \<in> set (templates_of a)"
  shows "renderTemplate (getTemplates (Some embedded_files)) t page = page"
  using assms serve_shown [of E p rnd rnd2 ep h sv] by (auto simp: renderTemplate_def getTemplates_pages known_def)

theorem no_template_missing_witness:
  "renderTemplate (getTemplates (Some embedded_files)) ''index.html'' (NoBody 200) = NoBody 200"
  by (rule no_template_missing [where ep = "OpenRoute Index" and p = demo_process and sv = demo_server])
    (auto simp: serve_def handleIndex_def)

end
