(* ===== verification/PinRefine.thy ===== *)
theory PinRefine
  imports PinLimiter
begin

text \<open>
  The PIN limiter implements a sliding window over the whole history: although it prunes the attempts of a key
  whenever it looks at them, it decides every attempt as a limiter that remembers all of them.
\<close>

section \<open>The specification\<close>

record pin_history =
  ph_last :: int
  ph_granted :: "(int \<times> string list) list"

text \<open>
  The specification: the whole history of granted attempts, never pruned. An attempt is granted if each of its
  keys (an empty one does not count) has fewer than \<open>limit\<close> granted attempts in the last \<open>w\<close> nanoseconds.
\<close>

definition pin_spec :: "int \<Rightarrow> int \<Rightarrow> int \<times> string list \<Rightarrow> pin_history \<Rightarrow> bool \<times> pin_history" where
  "pin_spec limit w c h = (case c of (now, keys) \<Rightarrow>
     let ok = list_all (\<lambda>key. key = [] \<or> int (count_where (\<lambda>(t, ks). key \<in> set ks \<and> now - w < t) (ph_granted h)) < limit) keys
     in (ok, \<lparr>ph_last = now, ph_granted = (if ok then (now, keys) # ph_granted h else ph_granted h)\<rparr>))"

section \<open>Simulation\<close>

definition pin_call :: "int \<times> string list \<Rightarrow> pinLimiter \<Rightarrow> bool \<times> pinLimiter" where
  "pin_call c p = (case c of (now, keys) \<Rightarrow> allow now keys p)"

definition in_order :: "int \<times> string list \<Rightarrow> pin_history \<Rightarrow> bool" where
  "in_order c h \<longleftrightarrow> ph_last h \<le> fst c \<and> distinct (snd c)"

text \<open>The limiter forgets only what no later window can contain.\<close>

definition pin_rel :: "int \<Rightarrow> int \<Rightarrow> pinLimiter \<Rightarrow> pin_history \<Rightarrow> bool" where
  "pin_rel limit w p h \<longleftrightarrow> pl_limit p = limit \<and> pl_window p = w
     \<and> (\<forall>key c. key \<noteq> [] \<longrightarrow> ph_last h - w \<le> c \<longrightarrow>
          length (recent c key p) = count_where (\<lambda>(t, ks). key \<in> set ks \<and> c < t) (ph_granted h))"

lemma refused_exactly:
  assumes "0 < pl_limit p"
  shows "fst (allow now keys p) = list_all (\<lambda>key. key = [] \<or> int (length (recent (now - pl_window p) key p)) < pl_limit p) keys"
  using pin_refusal_exact [OF assms] by blast

lemma allow_recent:
  assumes "allow now keys p = (b, p')" and "now - pl_window p \<le> c" and "distinct keys" and "key \<noteq> []"
  shows "length (recent c key p') = length (recent c key p) + (if b \<and> key \<in> set keys \<and> c < now then 1 else 0)"
proof -
  obtain p1 where p1: "prune_keys (now - pl_window p) keys p = (b, p1)" and p': "p' = (if b then record_keys now keys p1 else p1)"
    by (rule allow_cases [OF assms(1)])
  have "recent c key p1 = recent c key p"
    by (rule recent_later [OF assms(2)]) (use prune_frame [OF p1] in blast)
  moreover have "count_where (\<lambda>k. k = key) keys = (if key \<in> set keys then 1 else 0)"
    using assms(3) by (induction keys) auto
  ultimately show ?thesis using p' record_attempts [OF assms(4), of now keys p1] by (simp add: recent_def)
qed

lemma pin_sim:
  assumes "0 < limit" and r: "pin_rel limit w p h" and g: "in_order c h"
  shows "fst (pin_call c p) = fst (pin_spec limit w c h) \<and> pin_rel limit w (snd (pin_call c p)) (snd (pin_spec limit w c h))"
proof -
  obtain now keys where c: "c = (now, keys)" by fastforce
  obtain b p' where a: "allow now keys p = (b, p')" by fastforce
  have l: "pl_limit p = limit" "pl_window p = w" "ph_last h - w \<le> now - w" "distinct keys"
    using r g c by (simp_all add: pin_rel_def in_order_def)
  have n: "length (recent d key p) = count_where (\<lambda>(t, ks). key \<in> set ks \<and> d < t) (ph_granted h)"
    if "key \<noteq> []" "now - w \<le> d" for key d
    using r l(3) that by (auto simp: pin_rel_def)
  have "key = [] \<or> int (length (recent (now - w) key p)) < limit \<longleftrightarrow>
      key = [] \<or> int (count_where (\<lambda>(t, ks). key \<in> set ks \<and> now - w < t) (ph_granted h)) < limit" for key
    using n by (cases "key = []") simp_all
  then have b: "b = fst (pin_spec limit w c h)"
    using refused_exactly [of p now keys] l assms(1) a by (simp add: c pin_spec_def Let_def)
  have "pl_limit p' = limit \<and> pl_window p' = w"
    using a l prune_frame by (auto elim!: allow_cases)
  then show ?thesis
    using a b l(2,4) n allow_recent [OF a]
    by (auto simp: pin_rel_def c pin_call_def pin_spec_def Let_def)
qed

interpretation pin_history: simulation pin_call "pin_spec limit w" "pin_rel limit w" "\<lambda>c h. 0 < limit \<and> in_order c h" for limit w
  by unfold_locales (use pin_sim in blast)

lemma calls_in_order: "sorted (ph_last h # map fst calls) \<Longrightarrow> list_all (\<lambda>(t, keys). distinct keys) calls \<Longrightarrow> 0 < limit \<Longrightarrow>
    all_good (\<lambda>c h. 0 < limit \<and> in_order c h) (pin_spec limit w) calls h"
  by (induction calls arbitrary: h) (auto simp: in_order_def pin_spec_def Let_def)

text \<open>
  C23: The limiter of PIN attempts is exact. For any sequence of attempts, in the order of a clock that does not go
  back and each under distinct keys, the limiter, which keeps only recent times and drops old ones as it goes, grants
  and refuses as the specification that keeps every granted attempt: granted if and only if each key has had fewer than
  the limit (10 if it is not positive) in the last 15 minutes. So refused attempts and other keys count for nothing.
\<close>

theorem pin_limiter_exact:
  assumes "sorted (start # map fst calls)" and "list_all (\<lambda>(t, keys). distinct keys) calls"
  shows "outputs pin_call calls (newPinLimiter limit)
    = outputs (pin_spec (if limit \<le> 0 then 10 else limit) (15 * minute)) calls \<lparr>ph_last = start, ph_granted = []\<rparr>"
  (is "_ = outputs (pin_spec ?n _) _ ?h")
proof (rule pin_history.same_outputs)
  show "pin_rel ?n (15 * minute) (newPinLimiter limit) ?h"
    by (simp add: pin_rel_def newPinLimiter_def recent_def)
  show "all_good (\<lambda>c h. 0 < ?n \<and> in_order c h) (pin_spec ?n (15 * minute)) calls ?h"
    by (rule calls_in_order) (use assms in simp_all)
qed

theorem pin_limiter_exact_witness:
  "outputs pin_call [(1, [''user:1'', ''ip:a'']), (2, [''user:1'', ''ip:b'']), (3, [''user:1'', ''ip:c'']), (4, [''user:2'', ''ip:c''])]
     (newPinLimiter 2) = [True, True, False, True]"
proof -
  have "sorted (0 # map fst [(1, [''user:1'', ''ip:a'']), (2, [''user:1'', ''ip:b'']), (3, [''user:1'', ''ip:c'']), (4::int, [''user:2'', ''ip:c''])])"
    by simp
  from pin_limiter_exact [OF this, of 2] show ?thesis by (simp add: pin_spec_def Let_def duration_defs)
qed

end
